(* ===== verification/Chain_Prelude.thy ===== *)
theory Chain_Prelude
  imports Main "HOL-Library.Word" "HOL-Library.Monad_Syntax" "HOL-Library.AList"
    "HOL-Library.Char_ord" "HOL-Library.List_Lexorder"
begin

text \<open>
  Shared vocabulary of the development.

  \<^item> Results. A Go function that returns \<^verbatim>\<open>(T, error)\<close> is modelled by the sum type
    \<^typ>\<open>'e + 'a\<close>: \<^term>\<open>Inl e\<close> is the returned error, \<^term>\<open>Inr a\<close> the value with a nil
    error. \<open>ebind\<close> is the pattern \<^verbatim>\<open>if err != nil { return err }\<close>, \<open>echeck\<close> a guard with
    an early error return, \<open>efold\<close> a \<^verbatim>\<open>for range\<close> loop whose body may return an error.
  \<^item> Panics and nil pointers are values of \<^typ>\<open>'a option\<close>.
  \<^item> A 32-byte hash or a 20-byte address is the \<^typ>\<open>string\<close> of its bytes.
  \<^item> Slices and maps of the Go standard library used by several components.
\<close>

named_theorems result_simps \<open>case equations of the result monad\<close>
named_theorems inv_intros \<open>preservation of component invariants\<close>

type_synonym subaccount_id = string
type_synonym denom = string
type_synonym address = string

section \<open>Results\<close>

primrec ebind :: "'e + 'a \<Rightarrow> ('a \<Rightarrow> 'e + 'b) \<Rightarrow> 'e + 'b" where
  "ebind (Inl e) f = Inl e"
| "ebind (Inr a) f = f a"

definition echeck :: "bool \<Rightarrow> 'e \<Rightarrow> 'e + unit" where
  "echeck b e = (if b then Inr () else Inl e)"

definition of_opt :: "'e \<Rightarrow> 'a option \<Rightarrow> 'e + 'a" where
  "of_opt e x = (case x of None \<Rightarrow> Inl e | Some a \<Rightarrow> Inr a)"

fun efold :: "('s \<Rightarrow> 'a \<Rightarrow> 'e + 's) \<Rightarrow> 's \<Rightarrow> 'a list \<Rightarrow> 'e + 's" where
  "efold f s [] = Inr s"
| "efold f s (x # xs) = ebind (f s x) (\<lambda>s'. efold f s' xs)"

lemma ebind_cong [fundef_cong]:
  "x = x' \<Longrightarrow> (\<And>a. x' = Inr a \<Longrightarrow> f a = g a) \<Longrightarrow> ebind x f = ebind x' g"
  by (cases x') auto

lemma efold_cong [fundef_cong]:
  assumes "s = s'" "xs = ys" "\<And>t x. x \<in> set ys \<Longrightarrow> f t x = g t x"
  shows "efold f s xs = efold g s' ys"
  unfolding assms(1,2) using assms(3)
  by (induction ys arbitrary: s') (auto intro!: ebind_cong)

lemma ebind_eq_Inr [simp, result_simps]:
  "ebind x f = Inr b \<longleftrightarrow> (\<exists>a. x = Inr a \<and> f a = Inr b)"
  by (cases x) auto

lemma ebind_eq_Inl [simp, result_simps]:
  "ebind x f = Inl e \<longleftrightarrow> x = Inl e \<or> (\<exists>a. x = Inr a \<and> f a = Inl e)"
  by (cases x) auto

lemma echeck_eq_Inr [simp, result_simps]: "echeck b e = Inr u \<longleftrightarrow> b"
  by (simp add: echeck_def)

lemma echeck_eq_Inl [simp, result_simps]: "echeck b e = Inl e' \<longleftrightarrow> \<not> b \<and> e' = e"
  by (auto simp: echeck_def)

lemma echeck_True [simp]: "echeck True e = Inr ()"
  and echeck_False [simp]: "echeck False e = Inl e"
  by (simp_all add: echeck_def)

lemma of_opt_simps [simp]: "of_opt e None = Inl e" "of_opt e (Some a) = Inr a"
  by (simp_all add: of_opt_def)

lemma of_opt_eq_Inr [simp, result_simps]: "of_opt e x = Inr a \<longleftrightarrow> x = Some a"
  by (cases x) simp_all

lemma of_opt_eq_Inl [simp, result_simps]: "of_opt e x = Inl e' \<longleftrightarrow> x = None \<and> e' = e"
  by (cases x) auto

lemma efold_append: "efold f s (xs @ ys) = ebind (efold f s xs) (\<lambda>t. efold f t ys)"
proof (induction xs arbitrary: s)
  case (Cons x xs)
  then show ?case by (cases "f s x") auto
qed simp

text \<open>A loop keeps what each of its iterations keeps.\<close>

lemma efold_invariant:
  assumes "efold f s xs = Inr t" "I s"
    and "\<And>u v x. x \<in> set xs \<Longrightarrow> I u \<Longrightarrow> f u x = Inr v \<Longrightarrow> I v"
  shows "I t"
  using assms
proof (induction xs arbitrary: s)
  case (Cons x xs)
  from Cons.prems(1) obtain u where u: "f s x = Inr u" "efold f u xs = Inr t" by auto
  have "I u" using Cons.prems(2,3) u(1) by auto
  then show ?case using Cons.IH [OF u(2)] Cons.prems(3) by auto
qed simp

lemma efold_visits:
  assumes "efold f s xs = Inr t" "x \<in> set xs"
  shows "\<exists>u v. f u x = Inr v"
  using assms by (induction xs arbitrary: s) auto

text \<open>A loop whose iterations only check something returns the state it started with.\<close>

lemma efold_check:
  "efold (\<lambda>_ x. echeck (P x) (e x)) () xs = Inr u \<longleftrightarrow> (\<forall>x \<in> set xs. P x)"
  by (induction xs) auto

section \<open>Slices\<close>

text \<open>\<^verbatim>\<open>HasDuplicate\<close> of \<^verbatim>\<open>injective-chain/types/util.go\<close>: one pass with a set of the values seen.\<close>

fun has_dup_from :: "'a set \<Rightarrow> 'a list \<Rightarrow> bool" where
  "has_dup_from seen [] = False"
| "has_dup_from seen (x # xs) = (if x \<in> seen then True else has_dup_from (insert x seen) xs)"

definition HasDuplicate :: "'a list \<Rightarrow> bool" where
  "HasDuplicate xs = has_dup_from {} xs"

lemma has_dup_from_iff: "has_dup_from seen xs \<longleftrightarrow> \<not> distinct xs \<or> set xs \<inter> seen \<noteq> {}"
  by (induction seen xs rule: has_dup_from.induct) auto

lemma HasDuplicate_iff [simp]: "HasDuplicate xs \<longleftrightarrow> \<not> distinct xs"
  by (simp add: HasDuplicate_def has_dup_from_iff)

section \<open>Lists and sums\<close>

lemma sum_list_update:
  fixes xs :: "int list"
  assumes "i < length xs"
  shows "sum_list (xs[i := v]) = sum_list xs - xs ! i + v"
  using assms by (induction xs arbitrary: i) (auto split: nat.splits)

lemma sum_list_nonneg_int: "(\<And>x. x \<in> set xs \<Longrightarrow> (0::int) \<le> x) \<Longrightarrow> 0 \<le> sum_list xs"
  by (induction xs) auto

section \<open>Indexing\<close>

text \<open>A slice access; \<^term>\<open>None\<close> is the out-of-range panic.\<close>

definition nth_opt :: "'a list \<Rightarrow> nat \<Rightarrow> 'a option" where
  "nth_opt xs i = (if i < length xs then Some (xs ! i) else None)"

lemma nth_opt_eq_Some [simp]: "nth_opt xs i = Some x \<longleftrightarrow> i < length xs \<and> xs ! i = x"
  by (auto simp: nth_opt_def)

lemma Some_eq_nth_opt [simp]: "Some x = nth_opt xs i \<longleftrightarrow> i < length xs \<and> xs ! i = x"
  by (auto simp: nth_opt_def)

lemma nth_opt_eq_None [simp]: "nth_opt xs i = None \<longleftrightarrow> length xs \<le> i"
  by (auto simp: nth_opt_def)

lemma nth_opt_last: "xs \<noteq> [] \<Longrightarrow> nth_opt xs (length xs - Suc 0) = Some (last xs)"
  by (simp add: last_conv_nth)

lemma zip_last: "length xs = length ys \<Longrightarrow> xs \<noteq> [] \<Longrightarrow> last (zip xs ys) = (last xs, last ys)"
  by (induction xs ys rule: list_induct2) (auto split: if_splits)

lemma list_update_last: "xs \<noteq> [] \<Longrightarrow> xs[length xs - 1 := v] = butlast xs @ [v]"
  by (induction xs) (auto simp: neq_Nil_conv)

lemma set_butlast_last: "xs \<noteq> [] \<Longrightarrow> set xs = insert (last xs) (set (butlast xs))"
  by (induction xs) auto

lemma ball_take: "(\<And>j. j < i \<Longrightarrow> j < length xs \<Longrightarrow> P (xs ! j)) \<Longrightarrow> \<forall>x \<in> set (take i xs). P x"
  by (auto simp: in_set_conv_nth)

section \<open>Stores as association lists\<close>

text \<open>A key-value store with distinct keys; \<open>store_sum\<close> adds up a quantity over its entries.\<close>

definition store_sum :: "('k \<Rightarrow> 'v \<Rightarrow> int) \<Rightarrow> ('k \<times> 'v) list \<Rightarrow> int" where
  "store_sum f m = (\<Sum>(k, v)\<leftarrow>m. f k v)"

definition store_at :: "('k \<Rightarrow> 'v \<Rightarrow> int) \<Rightarrow> ('k \<times> 'v) list \<Rightarrow> 'k \<Rightarrow> int" where
  "store_at f m k = (case map_of m k of None \<Rightarrow> 0 | Some v \<Rightarrow> f k v)"

lemma store_sum_simps [simp]:
  "store_sum f [] = 0" "store_sum f (x # m) = f (fst x) (snd x) + store_sum f m"
  by (simp_all add: store_sum_def split: prod.splits)

lemma store_sum_update:
  "distinct (map fst m) \<Longrightarrow> store_sum f (AList.update k v m) = store_sum f m - store_at f m k + f k v"
  by (induction m) (auto simp: store_at_def map_of_eq_None_iff [symmetric])

lemma store_sum_delete:
  "distinct (map fst m) \<Longrightarrow> store_sum f (AList.delete k m) = store_sum f m - store_at f m k"
proof (induction m)
  case (Cons x m)
  then have "store_at f m (fst x) = 0" by (simp add: store_at_def map_of_eq_None_iff [THEN iffD2])
  with Cons show ?case by (cases "fst x = k") (auto simp: store_at_def)
qed (simp add: store_at_def)

lemmas distinct_store = AList.distinct_update distinct_delete

end
