(* ===== verification/Dec_Arith.thy ===== *)
theory Dec_Arith
  imports Chain_Prelude
begin

text \<open>
  Fixed-point decimals. \<^verbatim>\<open>cosmossdk.io/math.LegacyDec\<close> stores a decimal as an unbounded integer
  in units of 10 to the power -18. Addition, subtraction, negation and comparison act directly on
  that integer, so \<open>dec\<close> is \<^typ>\<open>int\<close>. Multiplication, division, power, \<^verbatim>\<open>TruncateInt\<close> and
  \<^verbatim>\<open>Ceil\<close> round; they belong to the library and are the fields of the parameter \<open>dec_ops\<close> that every definition using them takes.
  What the code relies on is the locale \<open>legacy_dec\<close>, the documented behaviour of the rounding
  operations. \<open>sdk_dec\<close> is a concrete instance with banker's rounding, which
  shows that the laws can hold. A division by zero panics: \<open>Quo\<close> returns \<^term>\<open>None\<close> there.
  The panic on a bit length above the library's limit is not modelled.
\<close>

type_synonym dec = int

abbreviation dec_one :: dec where "dec_one \<equiv> 1000000000000000000"

definition LegacyNewDec :: "int \<Rightarrow> dec" where
  "LegacyNewDec n = n * dec_one"

record dec_ops =
  dec_mul :: "dec \<Rightarrow> dec \<Rightarrow> dec"
  dec_quo :: "dec \<Rightarrow> dec \<Rightarrow> dec"
  dec_power :: "dec \<Rightarrow> nat \<Rightarrow> dec"
  dec_truncate :: "dec \<Rightarrow> int"
  dec_ceil :: "dec \<Rightarrow> dec"

definition Quo :: "dec_ops \<Rightarrow> dec \<Rightarrow> dec \<Rightarrow> dec option" where
  "Quo D a b = (if b = 0 then None else Some (dec_quo D a b))"

lemma Quo_eq_Some [simp]: "Quo D a b = Some q \<longleftrightarrow> b \<noteq> 0 \<and> q = dec_quo D a b"
  by (auto simp: Quo_def)

lemma Quo_eq_None [simp]: "Quo D a b = None \<longleftrightarrow> b = 0"
  by (simp add: Quo_def)

locale legacy_dec =
  fixes D :: dec_ops
  assumes mul_exact: "a * b = c * dec_one \<Longrightarrow> dec_mul D a b = c"
    and mul_mono: "a * b \<le> c * d \<Longrightarrow> dec_mul D a b \<le> dec_mul D c d"
    and mul_minus: "dec_mul D (- a) b = - dec_mul D a b"
    and quo_exact: "b \<noteq> 0 \<Longrightarrow> a * dec_one = c * b \<Longrightarrow> dec_quo D a b = c"
    and quo_mono: "0 < b \<Longrightarrow> a \<le> c \<Longrightarrow> dec_quo D a b \<le> dec_quo D c b"
    and quo_minus: "dec_quo D (- a) b = - dec_quo D a b"
    and power_whole: "dec_power D (LegacyNewDec m) n = LegacyNewDec (m ^ n)"
    and truncate_nonneg: "0 \<le> a \<Longrightarrow> dec_truncate D a = a div dec_one"
    and truncate_minus: "dec_truncate D (- a) = - dec_truncate D a"
    and ceil_least: "dec_ceil D a = - ((- a) div dec_one) * dec_one"
begin

lemma mul_whole [simp]: "dec_mul D a (LegacyNewDec n) = a * n" "dec_mul D (LegacyNewDec n) a = n * a"
  by (rule mul_exact, simp add: LegacyNewDec_def)+

lemma truncate_whole [simp]: "dec_truncate D (LegacyNewDec n) = n"
proof (cases "0 \<le> n")
  case True
  then show ?thesis by (simp add: truncate_nonneg LegacyNewDec_def)
next
  case False
  then have "dec_truncate D (LegacyNewDec (- n)) = - n" by (simp add: truncate_nonneg LegacyNewDec_def)
  then show ?thesis using truncate_minus [of "LegacyNewDec (- n)"] by (simp add: LegacyNewDec_def)
qed

lemma truncate_le: "0 \<le> a \<Longrightarrow> LegacyNewDec (dec_truncate D a) \<le> a"
  by (simp add: truncate_nonneg LegacyNewDec_def)

lemma truncate_pos_iff: "0 < dec_truncate D a \<longleftrightarrow> dec_one \<le> a"
proof (cases "0 \<le> a")
  case True
  then show ?thesis using pos_imp_zdiv_pos_iff [of dec_one a] by (simp add: truncate_nonneg)
next
  case False
  then have "0 \<le> (- a) div dec_one" by (intro pos_imp_zdiv_nonneg_iff [THEN iffD2]) auto
  then show ?thesis using False truncate_nonneg [of "- a"] truncate_minus [of "- a"] by simp
qed

lemma ceil_whole: "LegacyNewDec (dec_truncate D (dec_ceil D a)) = dec_ceil D a"
  using truncate_whole [of "- ((- a) div dec_one)"] by (simp add: ceil_least LegacyNewDec_def)

lemma ceil_ge: "a \<le> dec_ceil D a"
proof -
  have "(- a) div dec_one * dec_one \<le> - a" by simp
  then show ?thesis unfolding ceil_least by linarith
qed

lemma mul_comm: "dec_mul D a b = dec_mul D b a"
  using mul_mono [of a b b a] mul_mono [of b a a b] by (simp add: mult.commute)

lemma mul_zero [simp]: "dec_mul D a 0 = 0" "dec_mul D 0 a = 0"
  by (simp_all add: mul_exact)

lemma mul_one [simp]: "dec_mul D a dec_one = a" "dec_mul D dec_one a = a"
  by (simp_all add: mul_exact)

lemma mul_minus_right: "dec_mul D a (- b) = - dec_mul D a b"
  using mul_minus mul_comm by metis

lemma mul_nonneg: "0 \<le> a \<Longrightarrow> 0 \<le> b \<Longrightarrow> 0 \<le> dec_mul D a b"
  using mul_mono [of 0 0 a b] by simp

lemma mul_nonpos: "0 \<le> a \<Longrightarrow> b \<le> 0 \<Longrightarrow> dec_mul D a b \<le> 0"
  using mul_mono [of a b 0 0] by (simp add: mult_nonneg_nonpos)

lemma mul_right_mono: "0 \<le> c \<Longrightarrow> a \<le> b \<Longrightarrow> dec_mul D a c \<le> dec_mul D b c"
  by (rule mul_mono) (simp add: mult_right_mono)

lemma mul_le_left: "0 \<le> a \<Longrightarrow> b \<le> dec_one \<Longrightarrow> dec_mul D a b \<le> a"
  using mul_mono [of a b a dec_one] by (simp add: mult_left_mono)

lemma quo_zero [simp]: "b \<noteq> 0 \<Longrightarrow> dec_quo D 0 b = 0"
  by (simp add: quo_exact)

lemma quo_one [simp]: "dec_quo D a dec_one = a"
  by (simp add: quo_exact)

lemma quo_self [simp]: "b \<noteq> 0 \<Longrightarrow> dec_quo D b b = dec_one"
  by (simp add: quo_exact)

lemma quo_two: "dec_quo D (2 * a) (LegacyNewDec 2) = a"
  by (rule quo_exact) (simp_all add: LegacyNewDec_def)

lemma quo_nonneg: "0 < b \<Longrightarrow> 0 \<le> a \<Longrightarrow> 0 \<le> dec_quo D a b"
  using quo_mono [of b 0 a] by simp

lemma midpoint_bounds:
  assumes "a \<le> b"
  shows "a \<le> dec_quo D (b + a) (LegacyNewDec 2)" "dec_quo D (b + a) (LegacyNewDec 2) \<le> b"
  using quo_mono [of "LegacyNewDec 2" "2 * a" "b + a"] quo_mono [of "LegacyNewDec 2" "b + a" "2 * b"]
    quo_two assms by (simp_all add: LegacyNewDec_def)

end

section \<open>Banker's rounding\<close>

definition chop_qr :: "int \<Rightarrow> int \<Rightarrow> int" where
  "chop_qr q r = (if 2 * r < dec_one then q else if dec_one < 2 * r then q + 1
     else if even q then q else q + 1)"

definition chop_nonneg :: "int \<Rightarrow> int" where
  "chop_nonneg x = chop_qr (x div dec_one) (x mod dec_one)"

definition chop_round :: "int \<Rightarrow> int" where
  "chop_round x = (if x < 0 then - chop_nonneg (- x) else chop_nonneg x)"

definition trunc_div :: "int \<Rightarrow> int \<Rightarrow> int" where
  "trunc_div a b = sgn a * sgn b * (\<bar>a\<bar> div \<bar>b\<bar>)"

definition sdk_mul :: "dec \<Rightarrow> dec \<Rightarrow> dec" where
  "sdk_mul a b = chop_round (a * b)"

definition sdk_quo :: "dec \<Rightarrow> dec \<Rightarrow> dec" where
  "sdk_quo a b = chop_round (trunc_div (a * dec_one * dec_one) b)"

definition sdk_power :: "dec \<Rightarrow> nat \<Rightarrow> dec" where
  "sdk_power a n = ((sdk_mul a) ^^ n) dec_one"

definition sdk_ceil :: "dec \<Rightarrow> dec" where
  "sdk_ceil a = - ((- a) div dec_one) * dec_one"

definition sdk_dec :: dec_ops where
  "sdk_dec = \<lparr>dec_mul = sdk_mul, dec_quo = sdk_quo, dec_power = sdk_power,
    dec_truncate = (\<lambda>a. trunc_div a dec_one), dec_ceil = sdk_ceil\<rparr>"

lemma chop_qr_bounds: "q \<le> chop_qr q r" "chop_qr q r \<le> q + 1"
  by (simp_all add: chop_qr_def)

lemma chop_qr_mono: "r \<le> r' \<Longrightarrow> chop_qr q r \<le> chop_qr q r'"
  by (simp add: chop_qr_def)

lemma chop_nonneg_mono:
  assumes "x \<le> y"
  shows "chop_nonneg x \<le> chop_nonneg y"
proof (cases "x div dec_one = y div dec_one")
  case True
  then have "x mod dec_one \<le> y mod dec_one" using assms
    by (simp only: minus_div_mult_eq_mod [symmetric])
  then show ?thesis using True by (simp only: chop_nonneg_def chop_qr_mono)
next
  case False
  then have "x div dec_one + 1 \<le> y div dec_one"
    using zdiv_mono1 [OF assms, of dec_one] by linarith
  then show ?thesis
    using chop_qr_bounds(2) [of "x div dec_one" "x mod dec_one"]
      chop_qr_bounds(1) [of "y div dec_one" "y mod dec_one"]
    unfolding chop_nonneg_def by linarith
qed

lemma chop_nonneg_ge0: "0 \<le> x \<Longrightarrow> 0 \<le> chop_nonneg x"
  using chop_nonneg_mono [of 0 x] by (simp add: chop_nonneg_def chop_qr_def)

lemma chop_round_mono: "x \<le> y \<Longrightarrow> chop_round x \<le> chop_round y"
  using chop_nonneg_mono [of x y] chop_nonneg_mono [of "- y" "- x"]
    chop_nonneg_ge0 [of "- x"] chop_nonneg_ge0 [of y]
  by (auto simp: chop_round_def)

lemma chop_nonneg_multiple: "chop_nonneg (c * dec_one) = c"
  by (simp add: chop_nonneg_def chop_qr_def)

lemma chop_round_multiple: "chop_round (c * dec_one) = c"
  using chop_nonneg_multiple [of c] chop_nonneg_multiple [of "- c"] by (simp add: chop_round_def)

lemma chop_round_minus: "chop_round (- x) = - chop_round x"
  using chop_nonneg_multiple [of 0] by (cases "x = 0") (simp_all add: chop_round_def)

lemma trunc_div_exact: "b \<noteq> 0 \<Longrightarrow> trunc_div (c * b) b = c"
  by (simp add: trunc_div_def abs_mult sgn_mult mult.commute [of _ "sgn c"] sgn_mult_abs
      flip: mult.assoc) (simp add: sgn_if)

lemma trunc_div_mono: "0 < b \<Longrightarrow> a \<le> c \<Longrightarrow> trunc_div a b \<le> trunc_div c b"
  using zdiv_mono1 [of a c b] zdiv_mono1 [of "- c" "- a" b]
    pos_imp_zdiv_nonneg_iff [of b c] pos_imp_zdiv_nonneg_iff [of b "- a"]
  by (auto simp: trunc_div_def sgn_if)

lemma trunc_div_minus: "trunc_div (- a) b = - trunc_div a b"
  by (simp add: trunc_div_def sgn_minus)

lemma sdk_power_whole: "sdk_power (LegacyNewDec m) n = LegacyNewDec (m ^ n)"
proof (induction n)
  case 0
  then show ?case by (simp add: sdk_power_def LegacyNewDec_def)
next
  case (Suc n)
  have "LegacyNewDec m * LegacyNewDec (m ^ n) = LegacyNewDec (m ^ Suc n) * dec_one"
    by (simp add: LegacyNewDec_def)
  then show ?case using Suc by (simp only: sdk_power_def sdk_mul_def funpow.simps o_apply chop_round_multiple)
qed

interpretation sdk: legacy_dec sdk_dec
proof unfold_locales
  fix a b c d :: int
  show "a * b = c * dec_one \<Longrightarrow> dec_mul sdk_dec a b = c"
    by (simp add: sdk_dec_def sdk_mul_def chop_round_multiple)
  show "a * b \<le> c * d \<Longrightarrow> dec_mul sdk_dec a b \<le> dec_mul sdk_dec c d"
    by (simp add: sdk_dec_def sdk_mul_def chop_round_mono)
  show "dec_mul sdk_dec (- a) b = - dec_mul sdk_dec a b"
    by (simp add: sdk_dec_def sdk_mul_def chop_round_minus)
  show "dec_quo sdk_dec a b = c" if "b \<noteq> 0" "a * dec_one = c * b"
  proof -
    have "a * dec_one * dec_one = (c * dec_one) * b" using that(2) by simp
    then show ?thesis using that(1)
      by (simp only: sdk_dec_def sdk_quo_def dec_ops.simps trunc_div_exact chop_round_multiple not_False_eq_True)
  qed
  show "0 < b \<Longrightarrow> a \<le> c \<Longrightarrow> dec_quo sdk_dec a b \<le> dec_quo sdk_dec c b"
    by (simp add: sdk_dec_def sdk_quo_def chop_round_mono trunc_div_mono)
  show "dec_quo sdk_dec (- a) b = - dec_quo sdk_dec a b"
    by (simp add: sdk_dec_def sdk_quo_def chop_round_minus [symmetric] trunc_div_minus [symmetric])
  show "dec_power sdk_dec (LegacyNewDec m) n = LegacyNewDec (m ^ n)" for m n
    by (simp add: sdk_dec_def sdk_power_whole)
  show "0 \<le> a \<Longrightarrow> dec_truncate sdk_dec a = a div dec_one"
    by (auto simp: sdk_dec_def trunc_div_def sgn_if)
  show "dec_truncate sdk_dec (- a) = - dec_truncate sdk_dec a"
    by (simp add: sdk_dec_def trunc_div_minus)
  show "dec_ceil sdk_dec a = - ((- a) div dec_one) * dec_one"
    by (simp add: sdk_dec_def sdk_ceil_def)
qed

lemma sdk_dec_simps [simp]:
  "dec_mul sdk_dec = sdk_mul" "dec_quo sdk_dec = sdk_quo" "dec_power sdk_dec = sdk_power"
  "dec_truncate sdk_dec = (\<lambda>a. trunc_div a dec_one)" "dec_ceil sdk_dec = sdk_ceil"
  by (simp_all add: sdk_dec_def)

lemmas sdk_eval = sdk_mul_def sdk_quo_def sdk_power_def chop_round_def chop_nonneg_def chop_qr_def trunc_div_def sdk_ceil_def

end
