(* ===== verification/Exchange_Position.thy ===== *)
theory Exchange_Position
  imports Dec_Arith
begin

text \<open>
  Derivative positions: \<^verbatim>\<open>exchange/types/v2/position.go\<close>, with \<^verbatim>\<open>IsMarketSolvent\<close> and
  \<^verbatim>\<open>GetMarketBalanceDelta\<close> of \<^verbatim>\<open>types/v2/market.go\<close>. A method that mutates its receiver returns
  the new position. \<^term>\<open>None\<close> as a whole result is a panic (a division by zero, or arithmetic on
  the nil funding entry of a position that is not in a perpetual market); a pointer that the code
  compares with nil is an option value.
\<close>

section \<open>Data\<close>

record Position =
  IsLong :: bool
  Quantity :: dec
  EntryPrice :: dec
  Margin :: dec
  CumulativeFundingEntry :: "dec option"

record PositionDelta =
  delta_IsLong :: bool
  ExecutionQuantity :: dec
  ExecutionMargin :: dec
  ExecutionPrice :: dec

record PerpetualMarketFunding =
  CumulativeFunding :: dec
  CumulativePrice :: dec
  LastTimestamp :: int

record PositionPayout =
  Payout :: dec
  PnlNotional :: dec
  IsProfitable :: bool

datatype MarketType = MarketType_Spot | MarketType_Perpetual | MarketType_Expiry | MarketType_BinaryOption

datatype position_error = ErrInvalidReduceOnlyPositionDirection | ErrPriceSurpassesBankruptcyPrice

section \<open>Operations\<close>

definition GetScaledPrice :: "dec_ops \<Rightarrow> dec \<Rightarrow> 32 word \<Rightarrow> dec" where
  "GetScaledPrice D price scaleFactor = dec_mul D price (dec_power D (LegacyNewDec 10) (unat scaleFactor))"

definition NewPosition :: "bool \<Rightarrow> dec option \<Rightarrow> Position" where
  "NewPosition isLong cumulativeFundingEntry =
     \<lparr>IsLong = isLong, Quantity = 0, EntryPrice = 0, Margin = 0,
      CumulativeFundingEntry = cumulativeFundingEntry\<rparr>"

definition IsShort :: "Position \<Rightarrow> bool" where
  "IsShort p = (\<not> IsLong p)"

definition delta_IsShort :: "PositionDelta \<Rightarrow> bool" where
  "delta_IsShort d = (\<not> delta_IsLong d)"

definition GetPayoutFromPnl :: "dec_ops \<Rightarrow> Position \<Rightarrow> dec \<Rightarrow> dec \<Rightarrow> dec" where
  "GetPayoutFromPnl D p closingPrice closingQuantity =
     (if IsLong p then dec_mul D closingQuantity (closingPrice - EntryPrice p)
      else - dec_mul D closingQuantity (closingPrice - EntryPrice p))"

definition GetEffectiveMarginRatio :: "dec_ops \<Rightarrow> Position \<Rightarrow> dec \<Rightarrow> dec \<Rightarrow> dec option" where
  "GetEffectiveMarginRatio D p closingPrice closingFee =
     (let effectiveMargin = Margin p + GetPayoutFromPnl D p closingPrice (Quantity p) - closingFee
      in Quo D effectiveMargin (dec_mul D closingPrice (Quantity p)))"

definition GetPayoutIfFullyClosing :: "dec_ops \<Rightarrow> Position \<Rightarrow> dec \<Rightarrow> dec \<Rightarrow> PositionPayout" where
  "GetPayoutIfFullyClosing D p closingPrice closingFeeRate =
     (let isProfitable = (IsLong p \<and> EntryPrice p < closingPrice) \<or> (\<not> IsLong p \<and> closingPrice < EntryPrice p);
          fullyClosingQuantity = Quantity p;
          positionMargin = Margin p;
          closeTradingFee = dec_mul D (dec_mul D closingPrice fullyClosingQuantity) closingFeeRate;
          payoutFromPnl = GetPayoutFromPnl D p closingPrice fullyClosingQuantity;
          pnlNotional = payoutFromPnl - closeTradingFee;
          payout = pnlNotional + positionMargin
      in \<lparr>Payout = payout, PnlNotional = pnlNotional, IsProfitable = isProfitable\<rparr>)"

definition ApplyProfitHaircutForDerivatives ::
  "dec_ops \<Rightarrow> Position \<Rightarrow> dec \<Rightarrow> dec \<Rightarrow> dec \<Rightarrow> Position option" where
  "ApplyProfitHaircutForDerivatives D p deficitAmount totalProfits settlementPrice = do {
     q \<leftarrow> Quo D (dec_mul D deficitAmount (settlementPrice - EntryPrice p)) totalProfits;
     let p = p\<lparr>EntryPrice := q + EntryPrice p\<rparr>;
     let newPositionPayout = Payout (GetPayoutIfFullyClosing D p settlementPrice 0);
     Some (if newPositionPayout < 0 then p\<lparr>Margin := Margin p + \<bar>newPositionPayout\<bar>\<rparr> else p)
   }"

definition ApplyTotalPositionPayoutHaircut ::
  "dec_ops \<Rightarrow> Position \<Rightarrow> dec \<Rightarrow> dec \<Rightarrow> dec \<Rightarrow> Position option" where
  "ApplyTotalPositionPayoutHaircut D p deficitAmount totalPayouts settlementPrice = do {
     p \<leftarrow> ApplyProfitHaircutForDerivatives D p deficitAmount totalPayouts settlementPrice;
     removedMargin \<leftarrow> Quo D (dec_mul D (Margin p) deficitAmount) totalPayouts;
     Some (p\<lparr>Margin := Margin p - removedMargin\<rparr>)
   }"

definition ApplyProfitHaircutForBinaryOptions ::
  "dec_ops \<Rightarrow> Position \<Rightarrow> dec \<Rightarrow> dec \<Rightarrow> 32 word \<Rightarrow> Position option" where
  "ApplyProfitHaircutForBinaryOptions D p deficitAmount totalAssets oracleScaleFactor = do {
     q \<leftarrow> Quo D (dec_mul D deficitAmount (Margin p)) totalAssets;
     let p = p\<lparr>Margin := Margin p - q\<rparr>;
     u \<leftarrow> Quo D (Margin p) (Quantity p);
     Some (if IsLong p then p\<lparr>EntryPrice := u\<rparr>
           else p\<lparr>EntryPrice := GetScaledPrice D dec_one oracleScaleFactor - u\<rparr>)
   }"

definition ClosePositionWithoutPayouts :: "Position \<Rightarrow> Position" where
  "ClosePositionWithoutPayouts p =
     p\<lparr>IsLong := False, EntryPrice := 0, Quantity := 0, Margin := 0, CumulativeFundingEntry := Some 0\<rparr>"

definition GetDirectionString :: "Position \<Rightarrow> string" where
  "GetDirectionString p = (if IsShort p then ''Short'' else ''Long'')"

subsection \<open>Funding\<close>

definition getFundingAdjustedMarginWithAddedMargin ::
  "dec_ops \<Rightarrow> Position \<Rightarrow> PerpetualMarketFunding option \<Rightarrow> dec \<Rightarrow> dec option" where
  "getFundingAdjustedMarginWithAddedMargin D p funding addedMargin =
     (let adjustedMargin = Margin p + addedMargin in
      case funding of
        None \<Rightarrow> Some adjustedMargin
      | Some f \<Rightarrow> do {
          entry \<leftarrow> CumulativeFundingEntry p;
          let unrealizedFundingPayment = dec_mul D (Quantity p) (CumulativeFunding f - entry);
          Some (if IsLong p then adjustedMargin - unrealizedFundingPayment
                else adjustedMargin + unrealizedFundingPayment)
        })"

definition getFundingAdjustedMargin ::
  "dec_ops \<Rightarrow> Position \<Rightarrow> PerpetualMarketFunding option \<Rightarrow> dec option" where
  "getFundingAdjustedMargin D p funding = getFundingAdjustedMarginWithAddedMargin D p funding 0"

definition getFundingAdjustedUnitMarginWithAddedMargin ::
  "dec_ops \<Rightarrow> Position \<Rightarrow> PerpetualMarketFunding option \<Rightarrow> dec \<Rightarrow> dec option" where
  "getFundingAdjustedUnitMarginWithAddedMargin D p funding addedMargin = do {
     adjustedMargin \<leftarrow> getFundingAdjustedMarginWithAddedMargin D p funding addedMargin;
     Quo D adjustedMargin (Quantity p)
   }"

definition ApplyFunding :: "dec_ops \<Rightarrow> Position \<Rightarrow> PerpetualMarketFunding option \<Rightarrow> Position option" where
  "ApplyFunding D p funding =
     (case funding of
        None \<Rightarrow> Some p
      | Some f \<Rightarrow> do {
          m \<leftarrow> getFundingAdjustedMargin D p funding;
          Some (p\<lparr>Margin := m, CumulativeFundingEntry := Some (CumulativeFunding f)\<rparr>)
        })"

text \<open>\<open>closingPrice\<close> is the nil decimal when it is \<^term>\<open>None\<close>.\<close>

definition GetEffectiveMargin ::
  "dec_ops \<Rightarrow> Position \<Rightarrow> PerpetualMarketFunding option \<Rightarrow> dec option \<Rightarrow> dec option" where
  "GetEffectiveMargin D p funding closingPrice = do {
     fundingAdjustedMargin \<leftarrow> (if funding \<noteq> None then getFundingAdjustedMargin D p funding else Some (Margin p));
     let pnlNotional = (case closingPrice of None \<Rightarrow> 0 | Some c \<Rightarrow> GetPayoutFromPnl D p c (Quantity p));
     Some (fundingAdjustedMargin + pnlNotional)
   }"

subsection \<open>Liquidation and bankruptcy prices\<close>

definition getLiquidationPriceWithAddedMargin ::
  "dec_ops \<Rightarrow> Position \<Rightarrow> dec \<Rightarrow> PerpetualMarketFunding option \<Rightarrow> dec \<Rightarrow> dec option" where
  "getLiquidationPriceWithAddedMargin D p maintenanceMarginRatio funding addedMargin = do {
     adjustedUnitMargin \<leftarrow> getFundingAdjustedUnitMarginWithAddedMargin D p funding addedMargin;
     if IsLong p
     then Quo D (EntryPrice p - adjustedUnitMargin) (dec_one - maintenanceMarginRatio)
     else Quo D (EntryPrice p + adjustedUnitMargin) (dec_one + maintenanceMarginRatio)
   }"

definition GetLiquidationPrice ::
  "dec_ops \<Rightarrow> Position \<Rightarrow> dec \<Rightarrow> PerpetualMarketFunding option \<Rightarrow> dec option" where
  "GetLiquidationPrice D p maintenanceMarginRatio funding =
     getLiquidationPriceWithAddedMargin D p maintenanceMarginRatio funding 0"

definition GetBankruptcyPrice :: "dec_ops \<Rightarrow> Position \<Rightarrow> PerpetualMarketFunding option \<Rightarrow> dec option" where
  "GetBankruptcyPrice D p funding = GetLiquidationPrice D p 0 funding"

definition GetBankruptcyPriceWithAddedMargin ::
  "dec_ops \<Rightarrow> Position \<Rightarrow> PerpetualMarketFunding option \<Rightarrow> dec \<Rightarrow> dec option" where
  "GetBankruptcyPriceWithAddedMargin D p funding addedMargin =
     getLiquidationPriceWithAddedMargin D p 0 funding addedMargin"

definition GetLiquidationMarketOrderWorstPrice ::
  "dec_ops \<Rightarrow> Position \<Rightarrow> dec \<Rightarrow> PerpetualMarketFunding option \<Rightarrow> dec option" where
  "GetLiquidationMarketOrderWorstPrice D p markPrice funding = do {
     bankruptcyPrice \<leftarrow> GetBankruptcyPrice D p funding;
     let hasNegativeEquity = (IsLong p \<and> markPrice < bankruptcyPrice) \<or> (IsShort p \<and> bankruptcyPrice < markPrice);
     Some (if hasNegativeEquity then markPrice else bankruptcyPrice)
   }"

definition checkValidClosingPrice ::
  "dec_ops \<Rightarrow> Position \<Rightarrow> dec \<Rightarrow> dec \<Rightarrow> PerpetualMarketFunding option \<Rightarrow> dec \<Rightarrow> (position_error + unit) option" where
  "checkValidClosingPrice D p closingPrice tradeFeeRate funding orderMargin = do {
     bankruptcyPrice \<leftarrow> GetBankruptcyPriceWithAddedMargin D p funding orderMargin;
     if IsLong p then do {
       feeAdjusted \<leftarrow> Quo D bankruptcyPrice (dec_one - tradeFeeRate);
       Some (echeck (\<not> closingPrice < feeAdjusted) ErrPriceSurpassesBankruptcyPrice)
     } else do {
       feeAdjusted \<leftarrow> Quo D bankruptcyPrice (dec_one + tradeFeeRate);
       Some (echeck (\<not> feeAdjusted < closingPrice) ErrPriceSurpassesBankruptcyPrice)
     }
   }"

definition CheckValidPositionToReduce ::
  "dec_ops \<Rightarrow> Position \<Rightarrow> MarketType \<Rightarrow> dec \<Rightarrow> bool \<Rightarrow> dec \<Rightarrow> PerpetualMarketFunding option \<Rightarrow> dec
   \<Rightarrow> (position_error + unit) option" where
  "CheckValidPositionToReduce D p marketType reducePrice isBuyOrder tradeFeeRate funding orderMargin =
     (if isBuyOrder = IsLong p then Some (Inl ErrInvalidReduceOnlyPositionDirection)
      else if marketType = MarketType_BinaryOption then Some (Inr ())
      else checkValidClosingPrice D p reducePrice tradeFeeRate funding orderMargin)"

subsection \<open>Execution\<close>

definition GetAverageWeightedEntryPrice :: "dec_ops \<Rightarrow> Position \<Rightarrow> dec \<Rightarrow> dec \<Rightarrow> dec option" where
  "GetAverageWeightedEntryPrice D p executionQuantity executionPrice =
     Quo D (dec_mul D (Quantity p) (EntryPrice p) + dec_mul D executionQuantity executionPrice)
       (Quantity p + executionQuantity)"

definition splitPositionMargin :: "dec_ops \<Rightarrow> dec \<Rightarrow> dec \<Rightarrow> dec \<Rightarrow> (dec \<times> dec) option" where
  "splitPositionMargin D totalMargin totalQuantity closingQuantity =
     (if totalQuantity = 0 \<or> closingQuantity = 0 then Some (0, totalMargin)
      else if closingQuantity = totalQuantity then Some (totalMargin, 0)
      else do {
        let remainingQuantity = totalQuantity - closingQuantity;
        remainingMargin \<leftarrow> Quo D (dec_mul D totalMargin remainingQuantity) totalQuantity;
        Some (totalMargin - remainingMargin, remainingMargin)
      })"

text \<open>The receiver may be nil; the result is the position, the pnl and the delta (nil for a nil position).\<close>

definition ApplyBankruptCloseWithoutPayouts ::
  "dec_ops \<Rightarrow> Position option \<Rightarrow> dec \<Rightarrow> dec \<Rightarrow> Position option \<times> dec \<times> PositionDelta option" where
  "ApplyBankruptCloseWithoutPayouts D pos closingPrice closingQuantity =
     (case pos of
        None \<Rightarrow> (None, 0, None)
      | Some p \<Rightarrow>
          if Quantity p = 0 \<or> closingQuantity = 0
          then (Some p, 0, Some \<lparr>delta_IsLong = \<not> IsLong p, ExecutionQuantity = 0,
                                 ExecutionMargin = 0, ExecutionPrice = closingPrice\<rparr>)
          else
            let closingQuantity = min (Quantity p) closingQuantity;
                positionDelta = \<lparr>delta_IsLong = \<not> IsLong p, ExecutionQuantity = closingQuantity,
                                 ExecutionMargin = 0, ExecutionPrice = closingPrice\<rparr>;
                pnl = GetPayoutFromPnl D p closingPrice closingQuantity;
                remainingMargin = Margin p + pnl;
                remainingQuantity = Quantity p - closingQuantity
            in if remainingQuantity = 0
               then (Some (ClosePositionWithoutPayouts p), pnl, Some positionDelta)
               else (Some (p\<lparr>Quantity := remainingQuantity, Margin := remainingMargin\<rparr>), pnl, Some positionDelta))"

text \<open>
  The result is the position after the call, the payout, the close execution margin, the
  collateralization margin and the pnl.
\<close>

function (sequential) ApplyPositionDelta ::
  "dec_ops \<Rightarrow> Position option \<Rightarrow> PositionDelta option \<Rightarrow> dec \<Rightarrow> (Position option \<times> dec \<times> dec \<times> dec \<times> dec) option" where
  "ApplyPositionDelta D (Some p0) (Some delta) tradingFeeForReduceOnly =
     (let p = (if Quantity p0 = 0 then p0\<lparr>IsLong := delta_IsLong delta\<rparr> else p0);
          isNettingInSameDirection = (IsLong p \<and> delta_IsLong delta) \<or> (IsShort p \<and> delta_IsShort delta)
      in if isNettingInSameDirection then do {
           entry \<leftarrow> GetAverageWeightedEntryPrice D p (ExecutionQuantity delta) (ExecutionPrice delta);
           let p = p\<lparr>EntryPrice := entry, Quantity := Quantity p + ExecutionQuantity delta,
                     Margin := Margin p + ExecutionMargin delta\<rparr>;
           Some (Some p, 0, 0, ExecutionMargin delta, 0)
         } else do {
           let closingQuantity = min (Quantity p) (ExecutionQuantity delta);
           closeExecutionMargin \<leftarrow> Quo D (dec_mul D (ExecutionMargin delta) closingQuantity) (ExecutionQuantity delta);
           let pnlNotional = GetPayoutFromPnl D p (ExecutionPrice delta) closingQuantity;
           let isReduceOnlyTrade = (ExecutionMargin delta = 0);
           let pnlNotional = (if isReduceOnlyTrade then pnlNotional - tradingFeeForReduceOnly else pnlNotional);
           (positionClosingMargin, remainingMargin) \<leftarrow> splitPositionMargin D (Margin p) (Quantity p) closingQuantity;
           let payout = pnlNotional + positionClosingMargin;
           let newPositionQuantity = Quantity p - closingQuantity;
           let p = p\<lparr>Margin := remainingMargin, Quantity := newPositionQuantity\<rparr>;
           let isFlippingPosition = (closingQuantity < ExecutionQuantity delta);
           if isFlippingPosition then do {
             let newPositionDelta =
               \<lparr>delta_IsLong = \<not> IsLong p, ExecutionQuantity = ExecutionQuantity delta - closingQuantity,
                ExecutionMargin = ExecutionMargin delta - closeExecutionMargin,
                ExecutionPrice = ExecutionPrice delta\<rparr>;
             (p', _, _, collateralizationMargin, _) \<leftarrow>
               ApplyPositionDelta D (Some p) (Some newPositionDelta) tradingFeeForReduceOnly;
             Some (p', payout, closeExecutionMargin, collateralizationMargin, pnlNotional)
           } else Some (Some p, payout, closeExecutionMargin, 0, pnlNotional)
         })"
| "ApplyPositionDelta D pos delta tradingFeeForReduceOnly = Some (pos, 0, 0, 0, 0)"
  by pat_completeness auto

text \<open>The recursion of a flip is at most one level deep: it starts from a position of quantity zero.\<close>

fun delta_opposes :: "Position option \<Rightarrow> PositionDelta option \<Rightarrow> bool" where
  "delta_opposes (Some p) (Some d) = (Quantity p \<noteq> 0 \<and> IsLong p \<noteq> delta_IsLong d)"
| "delta_opposes _ _ = False"

termination ApplyPositionDelta
  by (relation "measure (\<lambda>(D, p, d, fee). if delta_opposes p d then 1 else 0)")
    (auto simp: IsShort_def delta_IsShort_def min_def split: if_splits)

definition ClosePositionWithSettlePrice ::
  "dec_ops \<Rightarrow> Position \<Rightarrow> dec \<Rightarrow> dec \<Rightarrow> (Position option \<times> dec \<times> dec \<times> PositionDelta \<times> dec) option" where
  "ClosePositionWithSettlePrice D p settlementPrice closingFeeRate =
     (let closingDirection = (\<not> IsLong p);
          fullyClosingQuantity = Quantity p;
          closeTradingFee = dec_mul D (dec_mul D settlementPrice fullyClosingQuantity) closingFeeRate;
          positionDelta = \<lparr>delta_IsLong = closingDirection, ExecutionQuantity = fullyClosingQuantity,
                           ExecutionMargin = 0, ExecutionPrice = settlementPrice\<rparr>
      in if fullyClosingQuantity = 0 then Some (Some p, 0, closeTradingFee, positionDelta, 0)
         else do {
           (p', payout, _, _, pnl) \<leftarrow> ApplyPositionDelta D (Some p) (Some positionDelta) closeTradingFee;
           Some (p', payout, closeTradingFee, positionDelta, pnl)
         })"

definition ClosePositionByRefunding ::
  "dec_ops \<Rightarrow> Position \<Rightarrow> dec \<Rightarrow> (Position option \<times> dec \<times> dec \<times> PositionDelta \<times> dec) option" where
  "ClosePositionByRefunding D p closingFeeRate = ClosePositionWithSettlePrice D p (EntryPrice p) closingFeeRate"

subsection \<open>Market balance\<close>

definition IsMarketSolvent :: "dec \<Rightarrow> dec \<Rightarrow> bool" where
  "IsMarketSolvent availableMarketFunds marketBalanceDelta = (0 \<le> availableMarketFunds + marketBalanceDelta)"

definition GetMarketBalanceDelta :: "dec \<Rightarrow> dec \<Rightarrow> dec \<Rightarrow> bool \<Rightarrow> dec" where
  "GetMarketBalanceDelta payout collateralizationMargin tradeFee isReduceOnly =
     (let payout = (if payout < 0 then 0 else payout);
          payout = (if isReduceOnly then payout + tradeFee else payout)
      in collateralizationMargin - payout)"

section \<open>Lemmas\<close>

declare ApplyPositionDelta.simps [simp del]

lemma splitPositionMargin_sum:
  "splitPositionMargin D m q c = Some (closing, remaining) \<Longrightarrow> closing + remaining = m"
  by (auto simp: splitPositionMargin_def bind_eq_Some_conv split: if_splits)

lemma splitPositionMargin_total: "\<exists>x y. splitPositionMargin D m q c = Some (x, y)"
  by (auto simp: splitPositionMargin_def Quo_def Let_def)

lemma splitPositionMargin_all: "q \<noteq> 0 \<Longrightarrow> splitPositionMargin D m q q = Some (m, 0)"
  by (simp add: splitPositionMargin_def)

definition signed_quantity :: "Position \<Rightarrow> dec" where
  "signed_quantity p = (if IsLong p then Quantity p else - Quantity p)"

definition signed_delta :: "PositionDelta \<Rightarrow> dec" where
  "signed_delta d = (if delta_IsLong d then ExecutionQuantity d else - ExecutionQuantity d)"

text \<open>The three branches of the execution: same direction, reduction, flip.\<close>

definition pnl_of_close :: "dec_ops \<Rightarrow> Position \<Rightarrow> PositionDelta \<Rightarrow> dec \<Rightarrow> dec \<Rightarrow> dec" where
  "pnl_of_close D p d fee c = GetPayoutFromPnl D p (ExecutionPrice d) c -
     (if ExecutionMargin d = 0 then fee else 0)"

lemma apd_same_direction:
  assumes "Quantity p = 0 \<or> IsLong p = delta_IsLong d"
  shows "ApplyPositionDelta D (Some p) (Some d) fee =
    (if Quantity p + ExecutionQuantity d = 0 then None
     else Some (Some (p\<lparr>IsLong := delta_IsLong d,
        EntryPrice := the (GetAverageWeightedEntryPrice D p (ExecutionQuantity d) (ExecutionPrice d)),
        Quantity := Quantity p + ExecutionQuantity d, Margin := Margin p + ExecutionMargin d\<rparr>),
        0, 0, ExecutionMargin d, 0))"
  using assms
  by (subst ApplyPositionDelta.simps)
    (auto simp: Let_def IsShort_def delta_IsShort_def GetAverageWeightedEntryPrice_def Quo_def)

lemma apd_opposite:
  assumes "Quantity p \<noteq> 0" "IsLong p \<noteq> delta_IsLong d"
  shows "ApplyPositionDelta D (Some p) (Some d) fee = do {
     let c = min (Quantity p) (ExecutionQuantity d);
     closeMargin \<leftarrow> Quo D (dec_mul D (ExecutionMargin d) c) (ExecutionQuantity d);
     (closing, remaining) \<leftarrow> splitPositionMargin D (Margin p) (Quantity p) c;
     let q = p\<lparr>Margin := remaining, Quantity := Quantity p - c\<rparr>;
     let pnl = pnl_of_close D p d fee c;
     if c < ExecutionQuantity d then do {
       (p', _, _, collat, _) \<leftarrow> ApplyPositionDelta D (Some q)
          (Some \<lparr>delta_IsLong = \<not> IsLong q, ExecutionQuantity = ExecutionQuantity d - c,
             ExecutionMargin = ExecutionMargin d - closeMargin, ExecutionPrice = ExecutionPrice d\<rparr>) fee;
       Some (p', pnl + closing, closeMargin, collat, pnl)
     } else Some (Some q, pnl + closing, closeMargin, 0, pnl)
   }"
  using assms
  by (subst ApplyPositionDelta.simps)
    (auto simp: Let_def IsShort_def delta_IsShort_def pnl_of_close_def cong: if_cong)

lemma apd_reduce:
  assumes "Quantity p \<noteq> 0" "IsLong p \<noteq> delta_IsLong d"
    and "ExecutionQuantity d \<le> Quantity p" "ExecutionQuantity d \<noteq> 0"
    and "splitPositionMargin D (Margin p) (Quantity p) (ExecutionQuantity d) = Some (closing, remaining)"
  shows "ApplyPositionDelta D (Some p) (Some d) fee =
    Some (Some (p\<lparr>Margin := remaining, Quantity := Quantity p - ExecutionQuantity d\<rparr>),
      pnl_of_close D p d fee (ExecutionQuantity d) + closing,
      dec_quo D (dec_mul D (ExecutionMargin d) (ExecutionQuantity d)) (ExecutionQuantity d), 0,
      pnl_of_close D p d fee (ExecutionQuantity d))"
  using assms by (simp add: apd_opposite min_absorb2 Quo_def Let_def)

lemma apd_flip:
  assumes "Quantity p \<noteq> 0" "IsLong p \<noteq> delta_IsLong d"
    and "Quantity p < ExecutionQuantity d" "ExecutionQuantity d \<noteq> 0"
  shows "\<exists>entry. ApplyPositionDelta D (Some p) (Some d) fee =
    (let closeMargin = dec_quo D (dec_mul D (ExecutionMargin d) (Quantity p)) (ExecutionQuantity d) in
    Some (Some (p\<lparr>IsLong := delta_IsLong d, EntryPrice := entry,
        Quantity := ExecutionQuantity d - Quantity p, Margin := ExecutionMargin d - closeMargin\<rparr>),
      pnl_of_close D p d fee (Quantity p) + Margin p,
      closeMargin, ExecutionMargin d - closeMargin, pnl_of_close D p d fee (Quantity p)))"
  using assms
  by (auto simp: apd_opposite min_absorb1 Quo_def splitPositionMargin_all apd_same_direction Let_def)

lemma apd_no_panic_iff:
  "ApplyPositionDelta D (Some p) (Some d) fee \<noteq> None \<longleftrightarrow>
    (if Quantity p = 0 \<or> IsLong p = delta_IsLong d then Quantity p + ExecutionQuantity d \<noteq> 0
     else ExecutionQuantity d \<noteq> 0)"
proof (cases "Quantity p = 0 \<or> IsLong p = delta_IsLong d")
  case True
  then show ?thesis by (simp add: apd_same_direction)
next
  case False
  show ?thesis
  proof (cases "ExecutionQuantity d = 0")
    case True
    then show ?thesis using False by (simp add: apd_opposite Quo_def)
  next
    case nz: False
    obtain x y where "splitPositionMargin D (Margin p) (Quantity p) (ExecutionQuantity d) = Some (x, y)"
      using splitPositionMargin_total by blast
    then show ?thesis using False nz apd_flip [of p d D fee]
      by (cases "ExecutionQuantity d \<le> Quantity p") (auto simp: apd_reduce Let_def)
  qed
qed

text \<open>A run that returns is in one of the three branches.\<close>

lemma apd_cases:
  assumes "ApplyPositionDelta D (Some p) (Some d) fee = Some (res, payout, closeMargin, collat, pnl)"
  obtains
    (same) p' where "Quantity p = 0 \<or> IsLong p = delta_IsLong d" "res = Some p'"
      "IsLong p' = delta_IsLong d" "Quantity p' = Quantity p + ExecutionQuantity d"
      "Margin p' = Margin p + ExecutionMargin d" "payout = 0" "closeMargin = 0"
      "collat = ExecutionMargin d" "pnl = 0"
  | (reduce) p' closing remaining where "Quantity p \<noteq> 0" "IsLong p \<noteq> delta_IsLong d" "res = Some p'"
      "ExecutionQuantity d \<le> Quantity p" "IsLong p' = IsLong p"
      "Quantity p' = Quantity p - ExecutionQuantity d" "EntryPrice p' = EntryPrice p"
      "Margin p' = remaining" "closing + remaining = Margin p" "payout = pnl + closing" "collat = 0"
      "closeMargin = dec_quo D (dec_mul D (ExecutionMargin d) (ExecutionQuantity d)) (ExecutionQuantity d)"
      "pnl = pnl_of_close D p d fee (ExecutionQuantity d)"
  | (flip) p' where "Quantity p \<noteq> 0" "IsLong p \<noteq> delta_IsLong d" "res = Some p'"
      "Quantity p < ExecutionQuantity d" "IsLong p' = delta_IsLong d"
      "Quantity p' = ExecutionQuantity d - Quantity p" "Margin p' = collat"
      "closeMargin + collat = ExecutionMargin d" "payout = pnl + Margin p"
      "pnl = pnl_of_close D p d fee (Quantity p)"
proof (cases "Quantity p = 0 \<or> IsLong p = delta_IsLong d")
  case True
  let ?p' = "p\<lparr>IsLong := delta_IsLong d,
        EntryPrice := the (GetAverageWeightedEntryPrice D p (ExecutionQuantity d) (ExecutionPrice d)),
        Quantity := Quantity p + ExecutionQuantity d, Margin := Margin p + ExecutionMargin d\<rparr>"
  have "(res, payout, closeMargin, collat, pnl) = (Some ?p', 0, 0, ExecutionMargin d, 0)"
    using assms unfolding apd_same_direction [OF True]
    by (cases "Quantity p + ExecutionQuantity d = 0") (simp_all only: if_True if_False option.simps refl)
  then show ?thesis using True by (intro same [of ?p']) simp_all
next
  case False
  then have nz: "ExecutionQuantity d \<noteq> 0"
    using assms apd_no_panic_iff [of D p d fee] by auto
  obtain x y where s: "splitPositionMargin D (Margin p) (Quantity p) (ExecutionQuantity d) = Some (x, y)"
    using splitPositionMargin_total by blast
  show ?thesis
  proof (cases "ExecutionQuantity d \<le> Quantity p")
    case True
    then have r: "ApplyPositionDelta D (Some p) (Some d) fee =
      Some (Some (p\<lparr>Margin := y, Quantity := Quantity p - ExecutionQuantity d\<rparr>),
        pnl_of_close D p d fee (ExecutionQuantity d) + x,
        dec_quo D (dec_mul D (ExecutionMargin d) (ExecutionQuantity d)) (ExecutionQuantity d), 0,
        pnl_of_close D p d fee (ExecutionQuantity d))"
      using False nz s by (intro apd_reduce) auto
    show ?thesis
      by (rule reduce [of "p\<lparr>Margin := y, Quantity := Quantity p - ExecutionQuantity d\<rparr>" y x])
        (use r assms False True splitPositionMargin_sum [OF s] in simp_all)
  next
    case gt: False
    then obtain p' where "res = Some p'" "IsLong p' = delta_IsLong d"
      "Quantity p' = ExecutionQuantity d - Quantity p" "Margin p' = collat"
      "closeMargin + collat = ExecutionMargin d" "payout = pnl + Margin p"
      "pnl = pnl_of_close D p d fee (Quantity p)"
      using False nz assms apd_flip [of p d D fee] by (auto simp: Let_def)
    then show ?thesis using gt False by (intro flip [of p']) auto
  qed
qed

lemma ApplyFunding_Some:
  "CumulativeFundingEntry p = Some e \<Longrightarrow>
   ApplyFunding D p (Some f) = Some (p\<lparr>Margin :=
      Margin p + (if IsLong p then -1 else 1) * dec_mul D (Quantity p) (CumulativeFunding f - e),
      CumulativeFundingEntry := Some (CumulativeFunding f)\<rparr>)"
  by (simp add: ApplyFunding_def getFundingAdjustedMargin_def getFundingAdjustedMarginWithAddedMargin_def)

lemma GetLiquidationPrice_Some:
  assumes "Quantity p \<noteq> 0" "getFundingAdjustedMarginWithAddedMargin D p funding 0 = Some m"
    "dec_one - r \<noteq> 0" "dec_one + r \<noteq> 0"
  shows "GetLiquidationPrice D p r funding =
    Some (if IsLong p then dec_quo D (EntryPrice p - dec_quo D m (Quantity p)) (dec_one - r)
          else dec_quo D (EntryPrice p + dec_quo D m (Quantity p)) (dec_one + r))"
  using assms
  by (simp add: GetLiquidationPrice_def getLiquidationPriceWithAddedMargin_def
      getFundingAdjustedUnitMarginWithAddedMargin_def Quo_def)

section \<open>Properties\<close>

text \<open>C21: Whenever the execution of a delta returns, the signed quantity of the position grows by
  exactly the signed quantity of the delta, and the margin by exactly the collateralization margin
  less the margin part of the payout. A delta that extends, opens or flips the position splits its execution margin
  without loss into the closing part and the collateralization; a delta that only reduces it collateralizes
  nothing, and its closing part is the rounded proportional share.\<close>

theorem ApplyPositionDelta_conserves:
  assumes "ApplyPositionDelta D (Some p) (Some d) fee = Some (res, payout, closeMargin, collat, pnl)"
  shows "\<exists>p'. res = Some p' \<and> signed_quantity p' = signed_quantity p + signed_delta d
    \<and> Margin p' = Margin p + collat - (payout - pnl)
    \<and> (if Quantity p \<noteq> 0 \<and> IsLong p \<noteq> delta_IsLong d \<and> ExecutionQuantity d \<le> Quantity p
       then collat = 0 \<and> closeMargin = dec_quo D (dec_mul D (ExecutionMargin d) (ExecutionQuantity d)) (ExecutionQuantity d)
       else closeMargin + collat = ExecutionMargin d)"
  using assms by (cases rule: apd_cases) (auto simp: signed_quantity_def signed_delta_def)

theorem ApplyPositionDelta_conserves_witness:
  "\<exists>p' payout closeMargin collat pnl.
     ApplyPositionDelta sdk_dec
       (Some \<lparr>IsLong = True, Quantity = 2 * dec_one, EntryPrice = 10 * dec_one, Margin = 6 * dec_one,
              CumulativeFundingEntry = None\<rparr>)
       (Some \<lparr>delta_IsLong = False, ExecutionQuantity = 5 * dec_one, ExecutionMargin = 15 * dec_one,
              ExecutionPrice = 11 * dec_one\<rparr>) 0 = Some (Some p', payout, closeMargin, collat, pnl)
     \<and> closeMargin = 6 * dec_one \<and> collat = 9 * dec_one \<and> payout = 8 * dec_one \<and> pnl = 2 * dec_one
     \<and> signed_quantity p' = - 3 * dec_one \<and> Margin p' = 9 * dec_one"
proof -
  let ?p = "\<lparr>IsLong = True, Quantity = 2 * dec_one, EntryPrice = 10 * dec_one, Margin = 6 * dec_one,
              CumulativeFundingEntry = None\<rparr>"
  let ?d = "\<lparr>delta_IsLong = False, ExecutionQuantity = 5 * dec_one, ExecutionMargin = 15 * dec_one,
              ExecutionPrice = 11 * dec_one\<rparr>"
  obtain p' where r: "ApplyPositionDelta sdk_dec (Some ?p) (Some ?d) 0 =
      Some (Some p', 8 * dec_one, 6 * dec_one, 9 * dec_one, 2 * dec_one)"
    using apd_flip [of ?p ?d sdk_dec 0]
    by (auto simp: Let_def pnl_of_close_def GetPayoutFromPnl_def sdk_eval)
  show ?thesis using ApplyPositionDelta_conserves [OF r] r
    by (auto simp: signed_quantity_def signed_delta_def)
qed

text \<open>C33: The execution of a delta divides by zero in exactly two cases: when an empty position or one on the side of the delta
  would end with quantity zero, and when a delta against the position has quantity zero. So a delta of positive quantity on a position of
  non-negative quantity never panics, whatever the rounding of the decimals, and leaves a position of
  non-negative quantity.\<close>

theorem ApplyPositionDelta_total:
  "(ApplyPositionDelta D (Some p) (Some d) fee = None \<longleftrightarrow>
      (if Quantity p = 0 \<or> IsLong p = delta_IsLong d then Quantity p + ExecutionQuantity d = 0 else ExecutionQuantity d = 0))
    \<and> (0 \<le> Quantity p \<longrightarrow> 0 < ExecutionQuantity d \<longrightarrow> (\<exists>p' payout closeMargin collat pnl.
      ApplyPositionDelta D (Some p) (Some d) fee = Some (Some p', payout, closeMargin, collat, pnl)
      \<and> 0 \<le> Quantity p'))"
proof (intro conjI impI)
  show "ApplyPositionDelta D (Some p) (Some d) fee = None \<longleftrightarrow>
      (if Quantity p = 0 \<or> IsLong p = delta_IsLong d then Quantity p + ExecutionQuantity d = 0 else ExecutionQuantity d = 0)"
    using apd_no_panic_iff [of D p d fee] by (auto simp del: not_None_eq split: if_splits)
  assume assms: "0 \<le> Quantity p" and pos: "0 < ExecutionQuantity d"
  then have "ApplyPositionDelta D (Some p) (Some d) fee \<noteq> None"
    using assms apd_no_panic_iff [of D p d fee] by auto
  then obtain res payout closeMargin collat pnl where
    r: "ApplyPositionDelta D (Some p) (Some d) fee = Some (res, payout, closeMargin, collat, pnl)"
    by (auto simp only: not_None_eq)
  show "\<exists>p' payout closeMargin collat pnl.
      ApplyPositionDelta D (Some p) (Some d) fee = Some (Some p', payout, closeMargin, collat, pnl)
      \<and> 0 \<le> Quantity p'"
    using r by (cases rule: apd_cases) (use assms pos r in auto)
qed

theorem ApplyPositionDelta_total_witness:
  "\<exists>p' payout closeMargin collat pnl.
     ApplyPositionDelta sdk_dec (Some (NewPosition True None))
       (Some \<lparr>delta_IsLong = False, ExecutionQuantity = dec_one, ExecutionMargin = dec_one,
              ExecutionPrice = dec_one\<rparr>) 0 = Some (Some p', payout, closeMargin, collat, pnl)
     \<and> 0 \<le> Quantity p'"
  using ApplyPositionDelta_total [of sdk_dec "NewPosition True None"
      "\<lparr>delta_IsLong = False, ExecutionQuantity = dec_one, ExecutionMargin = dec_one,
        ExecutionPrice = dec_one\<rparr>" 0]
  by (simp add: NewPosition_def)

text \<open>C34: Settling a position really pays what the settlement planning computes: for a position of
  positive quantity, \<open>ClosePositionWithSettlePrice\<close> returns, empties the position, and its payout and
  pnl are those of \<open>GetPayoutIfFullyClosing\<close> at the same price and fee rate.\<close>

theorem ClosePosition_pays_planned_payout:
  assumes "0 < Quantity p"
  shows "ClosePositionWithSettlePrice D p price feeRate =
    Some (Some (p\<lparr>Quantity := 0, Margin := 0\<rparr>),
      Payout (GetPayoutIfFullyClosing D p price feeRate),
      dec_mul D (dec_mul D price (Quantity p)) feeRate,
      \<lparr>delta_IsLong = IsShort p, ExecutionQuantity = Quantity p, ExecutionMargin = 0, ExecutionPrice = price\<rparr>,
      PnlNotional (GetPayoutIfFullyClosing D p price feeRate))"
  using assms
  by (simp add: ClosePositionWithSettlePrice_def Let_def apd_reduce splitPositionMargin_all
      pnl_of_close_def GetPayoutIfFullyClosing_def IsShort_def GetPayoutFromPnl_def)

theorem ClosePosition_pays_planned_payout_witness:
  "\<exists>p' fee d. ClosePositionWithSettlePrice sdk_dec
      \<lparr>IsLong = True, Quantity = 2 * dec_one, EntryPrice = 10 * dec_one, Margin = 6 * dec_one,
       CumulativeFundingEntry = None\<rparr> (9 * dec_one) 0 = Some (Some p', 4 * dec_one, fee, d, - 2 * dec_one)
    \<and> Quantity p' = 0 \<and> Margin p' = 0"
  by (simp add: ClosePosition_pays_planned_payout GetPayoutIfFullyClosing_def GetPayoutFromPnl_def sdk_eval)

text \<open>C22: Funding is zero-sum and is charged once: for a long and a short position of the same quantity
  and funding entry, applying the same funding leaves the sum of their margins unchanged, and
  applying it to a position a second time changes nothing.\<close>

theorem ApplyFunding_zero_sum_once:
  assumes "legacy_dec D"
    and "IsLong l" "\<not> IsLong s" "Quantity l = Quantity s"
    and "CumulativeFundingEntry l = Some e" "CumulativeFundingEntry s = Some e"
  shows "\<exists>l' s'. ApplyFunding D l (Some f) = Some l' \<and> ApplyFunding D s (Some f) = Some s'
    \<and> Margin l' + Margin s' = Margin l + Margin s
    \<and> ApplyFunding D l' (Some f) = Some l' \<and> ApplyFunding D s' (Some f) = Some s'"
  using assms by (simp add: ApplyFunding_Some legacy_dec.mul_zero)

theorem ApplyFunding_zero_sum_once_witness:
  "\<exists>l' s'. ApplyFunding sdk_dec \<lparr>IsLong = True, Quantity = 2 * dec_one, EntryPrice = 0, Margin = 6 * dec_one,
              CumulativeFundingEntry = Some 0\<rparr>
       (Some \<lparr>CumulativeFunding = dec_one, CumulativePrice = 0, LastTimestamp = 7\<rparr>) = Some l'
     \<and> ApplyFunding sdk_dec \<lparr>IsLong = False, Quantity = 2 * dec_one, EntryPrice = 0, Margin = 3 * dec_one,
              CumulativeFundingEntry = Some 0\<rparr>
       (Some \<lparr>CumulativeFunding = dec_one, CumulativePrice = 0, LastTimestamp = 7\<rparr>) = Some s'
     \<and> Margin l' + Margin s' = 9 * dec_one"
  using ApplyFunding_zero_sum_once [OF sdk.legacy_dec_axioms,
      of "\<lparr>IsLong = True, Quantity = 2 * dec_one, EntryPrice = 0, Margin = 6 * dec_one,
              CumulativeFundingEntry = Some 0\<rparr>"
        "\<lparr>IsLong = False, Quantity = 2 * dec_one, EntryPrice = 0, Margin = 3 * dec_one,
              CumulativeFundingEntry = Some 0\<rparr>" 0
        "\<lparr>CumulativeFunding = dec_one, CumulativePrice = 0, LastTimestamp = 7\<rparr>"]
  by fastforce

text \<open>C36: A profit haircut never leaves a position that would be paid a negative amount: after
  \<open>ApplyProfitHaircutForDerivatives\<close> the payout at the settlement price is non-negative.\<close>

theorem ApplyProfitHaircut_payout_nonneg:
  assumes "totalProfits \<noteq> 0"
  shows "\<exists>p'. ApplyProfitHaircutForDerivatives D p deficit totalProfits price = Some p'
    \<and> 0 \<le> Payout (GetPayoutIfFullyClosing D p' price 0) \<and> Quantity p' = Quantity p \<and> Margin p \<le> Margin p'"
  using assms
  by (auto simp: ApplyProfitHaircutForDerivatives_def Quo_def GetPayoutIfFullyClosing_def
      GetPayoutFromPnl_def Let_def)

theorem ApplyProfitHaircut_payout_nonneg_witness:
  "\<exists>p'. ApplyProfitHaircutForDerivatives sdk_dec
      \<lparr>IsLong = True, Quantity = dec_one, EntryPrice = 10 * dec_one, Margin = - dec_one,
       CumulativeFundingEntry = None\<rparr> (2 * dec_one) (2 * dec_one) (12 * dec_one) = Some p'
    \<and> 0 \<le> Payout (GetPayoutIfFullyClosing sdk_dec p' (12 * dec_one) 0)"
  using ApplyProfitHaircut_payout_nonneg [of "2 * dec_one" sdk_dec
      "\<lparr>IsLong = True, Quantity = dec_one, EntryPrice = 10 * dec_one, Margin = - dec_one,
       CumulativeFundingEntry = None\<rparr>" "2 * dec_one" "12 * dec_one"] by auto

text \<open>C37: The worst price of a liquidation order protects the insurance fund: for a long position it
  is the lower of the mark and the bankruptcy price, for a short one the higher. The bankruptcy
  price is on the losing side of the entry price (not above it for a long, not below it for a short) when the
  funding-adjusted margin is non-negative, and on the winning side when that margin is non-positive.\<close>

theorem liquidation_worst_price:
  assumes "legacy_dec D" "0 < Quantity p" "getFundingAdjustedMarginWithAddedMargin D p funding 0 = Some m"
  shows "\<exists>b. GetBankruptcyPrice D p funding = Some b
    \<and> GetLiquidationMarketOrderWorstPrice D p mark funding = Some (if IsLong p then min mark b else max mark b)
    \<and> (0 \<le> m \<longrightarrow> (if IsLong p then b \<le> EntryPrice p else EntryPrice p \<le> b))
    \<and> (m \<le> 0 \<longrightarrow> (if IsLong p then EntryPrice p \<le> b else b \<le> EntryPrice p))"
proof -
  have "0 \<le> m \<longrightarrow> 0 \<le> dec_quo D m (Quantity p)" "m \<le> 0 \<longrightarrow> dec_quo D m (Quantity p) \<le> 0"
    using legacy_dec.quo_nonneg [OF assms(1,2), of m] legacy_dec.quo_nonneg [OF assms(1,2), of "- m"] legacy_dec.quo_minus [OF assms(1), of m]
    by simp_all
  then show ?thesis
    using assms
    by (auto simp: GetLiquidationMarketOrderWorstPrice_def GetBankruptcyPrice_def GetLiquidationPrice_Some
        legacy_dec.quo_one IsShort_def Let_def)
qed

theorem liquidation_worst_price_witness:
  "\<exists>b. GetBankruptcyPrice sdk_dec
      \<lparr>IsLong = True, Quantity = 2 * dec_one, EntryPrice = 10 * dec_one, Margin = 6 * dec_one,
       CumulativeFundingEntry = None\<rparr> None = Some b \<and> b \<le> 10 * dec_one"
  using liquidation_worst_price [OF sdk.legacy_dec_axioms,
      of "\<lparr>IsLong = True, Quantity = 2 * dec_one, EntryPrice = 10 * dec_one, Margin = 6 * dec_one,
       CumulativeFundingEntry = None\<rparr>" None "6 * dec_one" 0]
  by (auto simp: getFundingAdjustedMarginWithAddedMargin_def)

text \<open>C38: Closing a bankrupt position without a payout moves the loss into the remaining margin: a
  partial close keeps the side and entry price, removes at most the requested quantity and adds
  exactly the pnl to the margin; a full close zeroes the position; the reported delta has the
  removed quantity on the opposite side.\<close>

theorem bankrupt_close_moves_pnl:
  assumes "0 < Quantity p" "0 < c"
  shows "\<exists>p'. ApplyBankruptCloseWithoutPayouts D (Some p) price c =
      (Some p', GetPayoutFromPnl D p price (min (Quantity p) c),
       Some \<lparr>delta_IsLong = IsShort p, ExecutionQuantity = min (Quantity p) c, ExecutionMargin = 0, ExecutionPrice = price\<rparr>)
    \<and> Quantity p' = Quantity p - min (Quantity p) c
    \<and> (if c < Quantity p
        then IsLong p' = IsLong p \<and> EntryPrice p' = EntryPrice p
          \<and> Margin p' = Margin p + GetPayoutFromPnl D p price c
        else Margin p' = 0)"
  using assms
  by (auto simp: ApplyBankruptCloseWithoutPayouts_def ClosePositionWithoutPayouts_def IsShort_def Let_def min_def)

theorem bankrupt_close_moves_pnl_witness:
  "\<exists>p' pnl d. ApplyBankruptCloseWithoutPayouts sdk_dec
      (Some \<lparr>IsLong = True, Quantity = 2 * dec_one, EntryPrice = 10 * dec_one, Margin = dec_one,
       CumulativeFundingEntry = None\<rparr>) (8 * dec_one) dec_one = (Some p', pnl, d)
    \<and> Quantity p' = dec_one \<and> Margin p' = - dec_one"
  using bankrupt_close_moves_pnl [of "\<lparr>IsLong = True, Quantity = 2 * dec_one, EntryPrice = 10 * dec_one, Margin = dec_one,
       CumulativeFundingEntry = None\<rparr>" dec_one sdk_dec "8 * dec_one"]
  by (auto simp: GetPayoutFromPnl_def sdk_eval)

end
