(* ===== verification/Orderbook_Spec.thy ===== *)
theory Orderbook_Spec
  imports Dec_Arith
begin

text \<open>
  The interface that the matching algorithms use of an order book: \<^verbatim>\<open>Orderbook\<close> of
  \<^verbatim>\<open>exchange/fba/executor.go\<close> and \<^verbatim>\<open>MatchingOrderbook\<close> of
  \<^verbatim>\<open>exchange/keeper/spot/order_matching.go\<close>. The locale \<open>orderbook\<close> states the contract of one
  side of the market; the spot books are its instances and the matching loop is its client.
\<close>

record PriceLevel =
  lvl_Price :: dec
  lvl_Quantity :: dec

text \<open>\<open>good buy p q\<close>: on that side of the market, price \<open>p\<close> has priority over \<open>q\<close> or equals it.\<close>

definition good :: "bool \<Rightarrow> dec \<Rightarrow> dec \<Rightarrow> bool" where
  "good buy p q = (if buy then q \<le> p else p \<le> q)"

lemma good_refl [simp, intro]: "good buy p p"
  by (simp add: good_def)

lemma good_trans [trans]: "good buy p q \<Longrightarrow> good buy q r \<Longrightarrow> good buy p r"
  by (auto simp: good_def split: if_splits)

lemma good_linear: "good buy p q \<or> good buy q p"
  by (auto simp: good_def)

text \<open>
  \<open>touched\<close> is the set of prices of the orders with a positive fill, \<open>pending\<close> that of the orders that
  can still be matched, \<open>left\<close> counts the orders not yet fully matched, \<open>ready b l\<close> says that \<open>l\<close> is the
  level the last \<open>peek\<close> showed, and \<open>book\<close> is what the matching must not change: the orders.
\<close>

locale orderbook =
  fixes peek :: "'b \<Rightarrow> ('b \<times> PriceLevel option) option"
    and fill :: "'b \<Rightarrow> dec \<Rightarrow> 'b option"
    and filled :: "'b \<Rightarrow> dec"
    and inv :: "'b \<Rightarrow> bool"
    and buy :: bool
    and touched :: "'b \<Rightarrow> dec set"
    and pending :: "'b \<Rightarrow> dec set"
    and left :: "'b \<Rightarrow> nat"
    and ready :: "'b \<Rightarrow> PriceLevel \<Rightarrow> bool"
    and book :: "'b \<Rightarrow> 'o"
  assumes peek_ok: "inv b \<Longrightarrow> \<exists>b' r. peek b = Some (b', r) \<and> inv b' \<and> filled b' = filled b
      \<and> touched b' = touched b \<and> left b' \<le> left b \<and> book b' = book b
      \<and> (case r of None \<Rightarrow> pending b' = {} | Some l \<Rightarrow> ready b' l)"
    and ready_level: "inv b \<Longrightarrow> ready b l \<Longrightarrow> 0 < lvl_Quantity l
      \<and> (\<forall>p \<in> touched b. good buy p (lvl_Price l)) \<and> (\<forall>p \<in> pending b. good buy (lvl_Price l) p)"
    and fill_ok: "inv b \<Longrightarrow> ready b l \<Longrightarrow> 0 < q \<Longrightarrow> q \<le> lvl_Quantity l \<Longrightarrow>
      \<exists>b'. fill b q = Some b' \<and> inv b' \<and> filled b' = filled b + q
      \<and> touched b' = insert (lvl_Price l) (touched b) \<and> book b' = book b
      \<and> left b' \<le> left b \<and> (q = lvl_Quantity l \<longrightarrow> left b' < left b)"

end
