(* ===== verification/Spot_Orderbook.thy ===== *)
theory Spot_Orderbook
  imports Orderbook_Spec
begin

text \<open>
  The two order books of a spot market (\<^verbatim>\<open>exchange/keeper/spot/order_book.go\<close>) that take part in a
  frequent batch auction, and the emergency-pause check of the risk engine they consult
  (\<^verbatim>\<open>exchange/risk/engine.go\<close>). A hexadecimal identifier that the code decodes before use
  (subaccount ids, hashes) is represented by the decoded value. A store iterator is the list of the
  orders it has still to visit; the pointer \<^verbatim>\<open>currState\<close>, which aliases one of the two fill tables
  of the book, is a tag that says which one. \<^term>\<open>None\<close> as a whole result is a panic (an index out
  of range, a nil dereference).
\<close>

section \<open>Risk engine: emergency pause\<close>

datatype RiskMode = RISK_MODE_UNSPECIFIED | RISK_MODE_ISOLATED | RISK_MODE_CROSS | RISK_MODE_PORTFOLIO

record SubaccountRiskProfile =
  Mode :: RiskMode
  ReservationPolicy :: nat
  CreditLineId :: string

text \<open>The engine's providers are interfaces that may be nil.\<close>

record RiskEngine =
  profiles :: "(subaccount_id \<Rightarrow> SubaccountRiskProfile option \<times> bool) option"
  params_EmergencyPaused :: "bool option"

datatype risk_error = ErrFeatureDisabled

definition EffectiveProfile :: "RiskEngine option \<Rightarrow> subaccount_id \<Rightarrow> SubaccountRiskProfile option \<times> bool" where
  "EffectiveProfile e subaccountID =
     (case e of None \<Rightarrow> (None, True)
      | Some eng \<Rightarrow> (case profiles eng of None \<Rightarrow> (None, True) | Some get \<Rightarrow> get subaccountID))"

definition CheckCrossMarginEmergencyPause :: "RiskEngine option \<Rightarrow> subaccount_id \<Rightarrow> risk_error + unit" where
  "CheckCrossMarginEmergencyPause e subaccountID =
     (case e of None \<Rightarrow> Inr ()
      | Some eng \<Rightarrow>
          if profiles eng = None then Inr () else
          (case params_EmergencyPaused eng of None \<Rightarrow> Inr ()
           | Some emergencyPaused \<Rightarrow>
               (case fst (EffectiveProfile e subaccountID) of None \<Rightarrow> Inr ()
                | Some profile \<Rightarrow>
                    if Mode profile \<noteq> RISK_MODE_CROSS then Inr ()
                    else if emergencyPaused then Inl ErrFeatureDisabled
                    else Inr ())))"

section \<open>Orders\<close>

datatype OrderType = OrderType_UNSPECIFIED | OrderType_BUY | OrderType_SELL | OrderType_STOP_BUY
  | OrderType_STOP_SELL | OrderType_TAKE_BUY | OrderType_TAKE_SELL | OrderType_BUY_PO
  | OrderType_SELL_PO | OrderType_BUY_ATOMIC | OrderType_SELL_ATOMIC

record OrderInfo =
  SubaccountId :: subaccount_id
  FeeRecipient :: string
  Price :: dec
  oi_Quantity :: dec
  Cid :: string

record SpotLimitOrder =
  lo_OrderInfo :: OrderInfo
  lo_OrderType :: OrderType
  Fillable :: dec
  lo_TriggerPrice :: "dec option"
  lo_OrderHash :: string
  ExpirationBlock :: int

record SpotMarketOrder =
  mo_OrderInfo :: OrderInfo
  BalanceHold :: dec
  mo_OrderHash :: string
  mo_OrderType :: OrderType
  mo_TriggerPrice :: "dec option"

record OrderbookFills =
  fills_Orders :: "SpotLimitOrder list"
  FillQuantities :: "dec list"

abbreviation lo_Price :: "SpotLimitOrder \<Rightarrow> dec" where
  "lo_Price ord \<equiv> Price (lo_OrderInfo ord)"

abbreviation is_paused :: "RiskEngine option \<Rightarrow> SpotLimitOrder \<Rightarrow> bool" where
  "is_paused e ord \<equiv> CheckCrossMarginEmergencyPause e (SubaccountId (lo_OrderInfo ord)) \<noteq> Inr ()"

section \<open>The limit order book\<close>

datatype curr_fills = CurrTransient | CurrResting

record SpotLimitOrderbook =
  isBuy :: bool
  notional :: dec
  totalQuantity :: dec
  transientOrderbookFills :: "OrderbookFills option"
  transientOrderIdx :: nat
  restingOrderbookFills :: "OrderbookFills option"
  restingOrderIterator :: "SpotLimitOrder list"
  currState :: "curr_fills option"

definition NewSpotLimitOrderbook ::
  "SpotLimitOrder list \<Rightarrow> SpotLimitOrder list \<Rightarrow> bool \<Rightarrow> SpotLimitOrderbook option" where
  "NewSpotLimitOrderbook iterator transientOrders buy =
     (if transientOrders = [] \<and> iterator = [] then None
      else
        let transientOrderbookState =
              (if transientOrders = [] then None
               else Some \<lparr>fills_Orders = transientOrders, FillQuantities = replicate (length transientOrders) 0\<rparr>);
            restingOrderbookState =
              (if iterator \<noteq> [] then Some \<lparr>fills_Orders = [], FillQuantities = []\<rparr> else None)
        in Some \<lparr>isBuy = buy, notional = 0, totalQuantity = 0,
                 transientOrderbookFills = transientOrderbookState, transientOrderIdx = 0,
                 restingOrderbookFills = restingOrderbookState, restingOrderIterator = iterator,
                 currState = None\<rparr>)"

definition getRestingFillableQuantity :: "SpotLimitOrderbook \<Rightarrow> dec option" where
  "getRestingFillableQuantity b = do {
     f \<leftarrow> restingOrderbookFills b;
     if fills_Orders f = [] then Some 0
     else do {
       let idx = length (fills_Orders f) - 1;
       ord \<leftarrow> nth_opt (fills_Orders f) idx;
       q \<leftarrow> nth_opt (FillQuantities f) idx;
       Some (Fillable ord - q)
     }
   }"

definition getTransientFillableQuantity :: "SpotLimitOrderbook \<Rightarrow> dec option" where
  "getTransientFillableQuantity b = do {
     f \<leftarrow> transientOrderbookFills b;
     ord \<leftarrow> nth_opt (fills_Orders f) (transientOrderIdx b);
     q \<leftarrow> nth_opt (FillQuantities f) (transientOrderIdx b);
     Some (Fillable ord - q)
   }"

text \<open>
  The inner loop of \<^verbatim>\<open>getRestingOrder\<close>: read the iterator, skip paused orders, give up when the
  iterator is exhausted. Reading an exhausted iterator panics.
\<close>

fun nextRestingOrder :: "RiskEngine option \<Rightarrow> SpotLimitOrder list \<Rightarrow> (SpotLimitOrder list \<times> SpotLimitOrder option) option" where
  "nextRestingOrder e [] = None"
| "nextRestingOrder e (ord # iter) =
     (if is_paused e ord
      then (if iter = [] then Some (iter, None) else nextRestingOrder e iter)
      else Some (iter, Some ord))"

definition getRestingOrder ::
  "RiskEngine option \<Rightarrow> SpotLimitOrderbook \<Rightarrow> (SpotLimitOrderbook \<times> SpotLimitOrder option) option" where
  "getRestingOrder e b =
     (case restingOrderbookFills b of
        None \<Rightarrow> if restingOrderIterator b = [] then Some (b, None) else None
      | Some f \<Rightarrow> do {
          fillable \<leftarrow> getRestingFillableQuantity b;
          if restingOrderIterator b = [] \<and> fillable = 0 then Some (b, None)
          else if fillable = 0 then do {
            (iter, next) \<leftarrow> nextRestingOrder e (restingOrderIterator b);
            case next of
              None \<Rightarrow> Some (b\<lparr>restingOrderIterator := iter\<rparr>, None)
            | Some ord \<Rightarrow>
                Some (b\<lparr>restingOrderIterator := iter,
                        restingOrderbookFills := Some (f\<lparr>fills_Orders := fills_Orders f @ [ord],
                                                         FillQuantities := FillQuantities f @ [0]\<rparr>)\<rparr>,
                      Some ord)
          }
          else do {
            ord \<leftarrow> nth_opt (fills_Orders f) (length (fills_Orders f) - 1);
            Some (b, Some ord)
          }
        })"

text \<open>The loop of \<^verbatim>\<open>getTransientOrder\<close>: the index moves past filled and paused orders.\<close>

function nextTransientOrder ::
  "RiskEngine option \<Rightarrow> OrderbookFills \<Rightarrow> nat \<Rightarrow> (nat \<times> SpotLimitOrder option) option" where
  "nextTransientOrder e f idx =
     (case (nth_opt (fills_Orders f) idx, nth_opt (FillQuantities f) idx) of
        (Some ord, Some q) \<Rightarrow>
          if Fillable ord - q = 0 \<or> is_paused e ord
          then (if length (fills_Orders f) = idx + 1 then Some (idx + 1, None)
                else nextTransientOrder e f (idx + 1))
          else Some (idx, Some ord)
      | _ \<Rightarrow> None)"
  by pat_completeness auto
termination nextTransientOrder
  by (relation "measure (\<lambda>(e, f, idx). length (fills_Orders f) - idx)") auto

declare nextTransientOrder.simps [simp del]

definition getTransientOrder ::
  "RiskEngine option \<Rightarrow> SpotLimitOrderbook \<Rightarrow> (SpotLimitOrderbook \<times> SpotLimitOrder option) option" where
  "getTransientOrder e b =
     (case transientOrderbookFills b of
        None \<Rightarrow> Some (b, None)
      | Some f \<Rightarrow>
          if length (fills_Orders f) = transientOrderIdx b then Some (b, None)
          else do {
            (idx, ord) \<leftarrow> nextTransientOrder e f (transientOrderIdx b);
            Some (b\<lparr>transientOrderIdx := idx\<rparr>, ord)
          })"

definition advanceNewOrder :: "RiskEngine option \<Rightarrow> SpotLimitOrderbook \<Rightarrow> SpotLimitOrderbook option" where
  "advanceNewOrder e b =
     (if currState b \<noteq> None then Some b
      else do {
        (b, restingOrder) \<leftarrow> getRestingOrder e b;
        (b, transientOrder) \<leftarrow> getTransientOrder e b;
        Some (case (restingOrder, transientOrder) of
            (Some r, Some t) \<Rightarrow>
              if (isBuy b \<and> lo_Price r < lo_Price t) \<or> (\<not> isBuy b \<and> lo_Price t < lo_Price r)
              then b\<lparr>currState := Some CurrTransient\<rparr>
              else b\<lparr>currState := Some CurrResting\<rparr>
          | (Some r, None) \<Rightarrow> b\<lparr>currState := Some CurrResting\<rparr>
          | (None, Some t) \<Rightarrow> b\<lparr>currState := Some CurrTransient\<rparr>
          | (None, None) \<Rightarrow> b)
      })"

definition getCurrIndex :: "SpotLimitOrderbook \<Rightarrow> nat option" where
  "getCurrIndex b =
     (case currState b of
        None \<Rightarrow> None
      | Some CurrResting \<Rightarrow> do {
          f \<leftarrow> restingOrderbookFills b;
          if fills_Orders f = [] then None else Some (length (fills_Orders f) - 1)
        }
      | Some CurrTransient \<Rightarrow> Some (transientOrderIdx b))"

text \<open>Dereference of \<^verbatim>\<open>currState\<close>, and the write through it.\<close>

definition currFills :: "SpotLimitOrderbook \<Rightarrow> OrderbookFills option" where
  "currFills b =
     (case currState b of
        None \<Rightarrow> None
      | Some CurrResting \<Rightarrow> restingOrderbookFills b
      | Some CurrTransient \<Rightarrow> transientOrderbookFills b)"

definition setCurrFills :: "SpotLimitOrderbook \<Rightarrow> OrderbookFills \<Rightarrow> SpotLimitOrderbook" where
  "setCurrFills b f =
     (case currState b of
        None \<Rightarrow> b
      | Some CurrResting \<Rightarrow> b\<lparr>restingOrderbookFills := Some f\<rparr>
      | Some CurrTransient \<Rightarrow> b\<lparr>transientOrderbookFills := Some f\<rparr>)"

text \<open>The order and the matched quantity at the current index.\<close>

definition currEntry :: "SpotLimitOrderbook \<Rightarrow> (SpotLimitOrder \<times> dec) option" where
  "currEntry b = do {
     idx \<leftarrow> getCurrIndex b;
     f \<leftarrow> currFills b;
     ord \<leftarrow> nth_opt (fills_Orders f) idx;
     q \<leftarrow> nth_opt (FillQuantities f) idx;
     Some (ord, q)
   }"

lemma currEntry_resting:
  assumes "currState b = Some CurrResting" "currEntry b = Some (ord, q)"
  shows "getRestingFillableQuantity b = Some (Fillable ord - q)"
proof (cases "restingOrderbookFills b")
  case None
  then show ?thesis using assms by (simp add: currEntry_def getCurrIndex_def)
next
  case (Some f)
  then show ?thesis using assms
    by (cases "fills_Orders f = []")
      (simp_all add: currEntry_def getCurrIndex_def currFills_def getRestingFillableQuantity_def
        nth_opt_def split: if_splits)
qed

lemma getRestingFillableQuantity_cong:
  "restingOrderbookFills b = restingOrderbookFills b' \<Longrightarrow> getRestingFillableQuantity b = getRestingFillableQuantity b'"
  by (simp add: getRestingFillableQuantity_def)

lemma nextRestingOrder_shorter:
  "nextRestingOrder e iter = Some (iter', next) \<Longrightarrow> length iter' < length iter"
  by (induction e iter rule: nextRestingOrder.induct) (auto split: if_splits)

lemma nextTransientOrder_unfilled:
  "nextTransientOrder e f idx = Some (idx', Some ord) \<Longrightarrow>
   nth_opt (fills_Orders f) idx' = Some ord \<and> (\<exists>q. nth_opt (FillQuantities f) idx' = Some q \<and> Fillable ord \<noteq> q)"
  by (induction e f idx rule: nextTransientOrder.induct)
    (subst (asm) nextTransientOrder.simps, auto split: option.splits if_splits)

lemma getTransientOrder_cases:
  assumes "getTransientOrder e b = Some (b', r)"
  obtains (none) "b' = b" "r = None"
      "transientOrderbookFills b = None \<or> (\<exists>f. transientOrderbookFills b = Some f \<and> length (fills_Orders f) = transientOrderIdx b)"
  | (visit) f i where "transientOrderbookFills b = Some f" "length (fills_Orders f) \<noteq> transientOrderIdx b"
      "nextTransientOrder e f (transientOrderIdx b) = Some (i, r)" "b' = b\<lparr>transientOrderIdx := i\<rparr>"
proof (cases "transientOrderbookFills b")
  case None
  then show ?thesis using assms by (intro none) (simp_all add: getTransientOrder_def)
next
  case (Some f)
  show ?thesis
  proof (cases "length (fills_Orders f) = transientOrderIdx b")
    case True
    then show ?thesis using assms Some by (intro none) (simp_all add: getTransientOrder_def)
  next
    case False
    then obtain i where "nextTransientOrder e f (transientOrderIdx b) = Some (i, r)" "b' = b\<lparr>transientOrderIdx := i\<rparr>"
      using assms Some by (auto simp: getTransientOrder_def bind_eq_Some_conv)
    then show ?thesis using Some False by (intro visit)
  qed
qed

lemma getTransientOrder_frame:
  assumes "getTransientOrder e b = Some (b', r)"
  shows "currState b' = currState b \<and> transientOrderbookFills b' = transientOrderbookFills b
    \<and> restingOrderbookFills b' = restingOrderbookFills b \<and> restingOrderIterator b' = restingOrderIterator b
    \<and> isBuy b' = isBuy b \<and> notional b' = notional b \<and> totalQuantity b' = totalQuantity b"
  using assms by (cases rule: getTransientOrder_cases) simp_all

lemma getRestingOrder_cases:
  assumes "getRestingOrder e b = Some (b', r)"
  obtains (unchanged) "b' = b" "restingOrderIterator b = []" "r = None"
      "restingOrderbookFills b = None \<or> getRestingFillableQuantity b = Some 0"
  | (exhausted) f iter where "restingOrderbookFills b = Some f" "getRestingFillableQuantity b = Some 0"
      "nextRestingOrder e (restingOrderIterator b) = Some (iter, None)"
      "b' = b\<lparr>restingOrderIterator := iter\<rparr>" "r = None"
  | (appended) f iter ord where "restingOrderbookFills b = Some f" "getRestingFillableQuantity b = Some 0"
      "nextRestingOrder e (restingOrderIterator b) = Some (iter, Some ord)"
      "b' = b\<lparr>restingOrderIterator := iter, restingOrderbookFills := Some (f\<lparr>fills_Orders := fills_Orders f @ [ord],
                                                         FillQuantities := FillQuantities f @ [0]\<rparr>)\<rparr>"
      "r = Some ord"
  | (current) f x ord where "restingOrderbookFills b = Some f" "getRestingFillableQuantity b = Some x"
      "x \<noteq> 0" "fills_Orders f \<noteq> []" "ord = last (fills_Orders f)" "b' = b" "r = Some ord"
proof (cases "restingOrderbookFills b")
  case None
  then have "b' = b \<and> restingOrderIterator b = [] \<and> r = None"
    using assms by (auto simp: getRestingOrder_def split: if_splits)
  then show ?thesis using None by (intro unchanged) auto
next
  case (Some f)
  then obtain x where x: "getRestingFillableQuantity b = Some x"
    using assms by (auto simp: getRestingOrder_def bind_eq_Some_conv)
  consider "x = 0" "restingOrderIterator b = []" | "x = 0" "restingOrderIterator b \<noteq> []" | "x \<noteq> 0" by blast
  then show ?thesis
  proof cases
    case 1
    then have "b' = b \<and> r = None" using assms Some x by (simp add: getRestingOrder_def)
    then show ?thesis using 1 x by (intro unchanged) auto
  next
    case 2
    then obtain iter n where n: "nextRestingOrder e (restingOrderIterator b) = Some (iter, n)"
      using assms Some x by (auto simp: getRestingOrder_def bind_eq_Some_conv)
    show ?thesis
    proof (cases n)
      case None
      then have "b' = b\<lparr>restingOrderIterator := iter\<rparr> \<and> r = None"
        using assms Some x 2 n by (simp add: getRestingOrder_def)
      then show ?thesis using Some x 2 n None by (intro exhausted [of f iter]) auto
    next
      case n': (Some ord)
      then have "b' = b\<lparr>restingOrderIterator := iter, restingOrderbookFills := Some (f\<lparr>fills_Orders := fills_Orders f @ [ord],
          FillQuantities := FillQuantities f @ [0]\<rparr>)\<rparr> \<and> r = Some ord"
        using assms Some x 2 n by (simp add: getRestingOrder_def)
      then show ?thesis using Some x 2 n n' by (intro appended [of f iter ord]) auto
    qed
  next
    case 3
    then have ne: "fills_Orders f \<noteq> []" using Some x by (auto simp: getRestingFillableQuantity_def)
    then have "b' = b \<and> r = Some (last (fills_Orders f))"
      using assms Some x 3 by (simp add: getRestingOrder_def nth_opt_def last_conv_nth)
    then show ?thesis using Some x 3 ne by (intro current [of f x]) auto
  qed
qed

lemma getRestingOrder_frame:
  assumes "getRestingOrder e b = Some (b', r)"
  shows "currState b' = currState b \<and> transientOrderbookFills b' = transientOrderbookFills b
    \<and> transientOrderIdx b' = transientOrderIdx b \<and> isBuy b' = isBuy b
    \<and> notional b' = notional b \<and> totalQuantity b' = totalQuantity b"
  using assms by (cases rule: getRestingOrder_cases) simp_all

lemma getRestingOrder_progress:
  assumes "getRestingOrder e b = Some (b', Some r)"
  shows "length (restingOrderIterator b') < length (restingOrderIterator b)
    \<or> (\<exists>x. getRestingFillableQuantity b' = Some x \<and> x \<noteq> 0)"
  using assms by (cases rule: getRestingOrder_cases) (auto dest: nextRestingOrder_shorter)

text \<open>The steps of an advance from a book without a current order.\<close>

lemma advanceNewOrder_cases:
  assumes "advanceNewOrder e b = Some b'" "currState b = None"
  obtains b1 b2 c r t where "getRestingOrder e b = Some (b1, r)"
    "getTransientOrder e b1 = Some (b2, t)" "b' = b2\<lparr>currState := c\<rparr>"
    "c = None \<longleftrightarrow> r = None \<and> t = None"
    "c = Some CurrResting \<Longrightarrow> r \<noteq> None
      \<and> (t \<noteq> None \<longrightarrow> (if isBuy b2 then lo_Price (the t) \<le> lo_Price (the r) else lo_Price (the r) \<le> lo_Price (the t)))"
    "c = Some CurrTransient \<Longrightarrow> t \<noteq> None
      \<and> (r \<noteq> None \<longrightarrow> (if isBuy b2 then lo_Price (the r) < lo_Price (the t) else lo_Price (the t) < lo_Price (the r)))"
proof -
  obtain b1 r b2 t where r: "getRestingOrder e b = Some (b1, r)" and t: "getTransientOrder e b1 = Some (b2, t)"
    using assms by (auto simp: advanceNewOrder_def bind_eq_Some_conv)
  have c2: "currState b2 = None"
    using getRestingOrder_frame [OF r] getTransientOrder_frame [OF t] assms(2) by simp
  define c where "c = (case (r, t) of
            (Some r, Some t) \<Rightarrow>
              if (isBuy b2 \<and> lo_Price r < lo_Price t) \<or> (\<not> isBuy b2 \<and> lo_Price t < lo_Price r)
              then Some CurrTransient else Some CurrResting
          | (Some r, None) \<Rightarrow> Some CurrResting
          | (None, Some t) \<Rightarrow> Some CurrTransient
          | (None, None) \<Rightarrow> None)"
  have b': "b' = b2\<lparr>currState := c\<rparr>"
    using assms r t c2 by (cases r; cases t) (auto simp: advanceNewOrder_def c_def split: if_splits)
  have c: "c = None \<longleftrightarrow> r = None \<and> t = None"
    "c = Some CurrResting \<Longrightarrow> r \<noteq> None
      \<and> (t \<noteq> None \<longrightarrow> (if isBuy b2 then lo_Price (the t) \<le> lo_Price (the r) else lo_Price (the r) \<le> lo_Price (the t)))"
    "c = Some CurrTransient \<Longrightarrow> t \<noteq> None
      \<and> (r \<noteq> None \<longrightarrow> (if isBuy b2 then lo_Price (the r) < lo_Price (the t) else lo_Price (the t) < lo_Price (the r)))"
    by (cases r; cases t; auto simp: c_def split: if_splits)+
  show ?thesis by (rule that [OF r t b' c])
qed

text \<open>
  An advance that puts the book on a fully matched order has consumed the iterator: a transient
  order is only chosen when unfilled, and so is a resting order read earlier.
\<close>

lemma advance_progress:
  assumes "advanceNewOrder e b = Some b'" "currState b = None"
    and "currEntry b' = Some (ord, q)" "Fillable ord = q"
  shows "length (restingOrderIterator b') < length (restingOrderIterator b)"
  using assms(1,2)
proof (cases rule: advanceNewOrder_cases)
  case (1 b1 b2 c r t)
  note b2 = getTransientOrder_frame [OF 1(2)]
  have en: "currEntry (b2\<lparr>currState := c\<rparr>) = Some (ord, q)"
    using assms(3) 1(3) by simp
  have "length (restingOrderIterator b1) < length (restingOrderIterator b)"
  proof (cases c)
    case None
    then show ?thesis using en by (simp add: currEntry_def getCurrIndex_def)
  next
    case (Some s)
    show ?thesis
    proof (cases s)
      case CurrResting
      then obtain r' where "getRestingOrder e b = Some (b1, Some r')" using 1(1,5) Some by blast
      from getRestingOrder_progress [OF this]
      have "length (restingOrderIterator b1) < length (restingOrderIterator b)
        \<or> (\<exists>x. getRestingFillableQuantity b1 = Some x \<and> x \<noteq> 0)" .
      moreover have "getRestingFillableQuantity b1 = Some 0"
        using currEntry_resting [OF _ en] assms(4) Some CurrResting b2
          getRestingFillableQuantity_cong [of b1 "b2\<lparr>currState := c\<rparr>"] by simp
      ultimately show ?thesis by simp
    next
      case CurrTransient
      then have "t \<noteq> None" using 1(6) Some by blast
      from 1(2) show ?thesis
      proof (cases rule: getTransientOrder_cases)
        case none
        then show ?thesis using \<open>t \<noteq> None\<close> by simp
      next
        case (visit f i)
        then show ?thesis using en assms(4) Some CurrTransient \<open>t \<noteq> None\<close>
          nextTransientOrder_unfilled [of e f "transientOrderIdx b1" i "the t"]
          by (auto simp: currEntry_def getCurrIndex_def currFills_def bind_eq_Some_conv)
      qed
    qed
  qed
  then show ?thesis using 1(3) b2 by simp
qed

function SpotLimit_Peek ::
  "RiskEngine option \<Rightarrow> SpotLimitOrderbook \<Rightarrow> (SpotLimitOrderbook \<times> PriceLevel option) option" where
  "SpotLimit_Peek e b = do {
     b \<leftarrow> advanceNewOrder e b;
     if currState b = None then Some (b, None)
     else do {
       (ord, currMatchedQuantity) \<leftarrow> currEntry b;
       let remainingFillableQuantity = Fillable ord - currMatchedQuantity;
       if remainingFillableQuantity = 0
       then SpotLimit_Peek e (b\<lparr>currState := None\<rparr>)
       else Some (b, Some \<lparr>lvl_Price = lo_Price ord, lvl_Quantity = remainingFillableQuantity\<rparr>)
     }
   }"
  by pat_completeness auto
termination SpotLimit_Peek
proof (relation "measure (\<lambda>(e, b). 2 * length (restingOrderIterator b) + (if currState b = None then 0 else 1))")
  fix e b b' x ord q rem
  assume "advanceNewOrder e b = Some b'" "currEntry b' = Some x" "(ord, q) = x"
    "rem = Fillable ord - q" "rem = 0" "currState b' \<noteq> None"
  then show "((e, b'\<lparr>currState := None\<rparr>), e, b) \<in>
      measure (\<lambda>(e, b). 2 * length (restingOrderIterator b) + (if currState b = None then 0 else 1))"
    using advance_progress [of e b b' ord q] by (auto simp: advanceNewOrder_def split: if_splits)
qed simp

declare SpotLimit_Peek.simps [simp del]

definition SpotLimit_Fill :: "dec_ops \<Rightarrow> SpotLimitOrderbook \<Rightarrow> dec \<Rightarrow> SpotLimitOrderbook option" where
  "SpotLimit_Fill D b fillQuantity = do {
     idx \<leftarrow> getCurrIndex b;
     f \<leftarrow> currFills b;
     q \<leftarrow> nth_opt (FillQuantities f) idx;
     let orderCumulativeFillQuantity = q + fillQuantity;
     let b = setCurrFills b (f\<lparr>FillQuantities := (FillQuantities f)[idx := orderCumulativeFillQuantity]\<rparr>);
     ord \<leftarrow> nth_opt (fills_Orders f) idx;
     let fillNotional = dec_mul D fillQuantity (lo_Price ord);
     let b = b\<lparr>notional := notional b + fillNotional, totalQuantity := totalQuantity b + fillQuantity\<rparr>;
     Some (if orderCumulativeFillQuantity = Fillable ord then b\<lparr>currState := None\<rparr> else b)
   }"

definition SpotLimit_GetTotalQuantityFilled :: "SpotLimitOrderbook \<Rightarrow> dec" where
  "SpotLimit_GetTotalQuantityFilled b = totalQuantity b"

definition SpotLimit_GetNotional :: "SpotLimitOrderbook \<Rightarrow> dec" where
  "SpotLimit_GetNotional b = notional b"

section \<open>The market order book\<close>

record SpotMarketOrderbook =
  mob_notional :: dec
  mob_totalQuantity :: dec
  mob_orders :: "SpotMarketOrder list"
  mob_fillQuantities :: "dec list"
  mob_orderIdx :: nat

abbreviation mo_Price :: "SpotMarketOrder \<Rightarrow> dec" where
  "mo_Price ord \<equiv> Price (mo_OrderInfo ord)"

abbreviation mo_Quantity :: "SpotMarketOrder \<Rightarrow> dec" where
  "mo_Quantity ord \<equiv> oi_Quantity (mo_OrderInfo ord)"

definition NewSpotMarketOrderbook :: "SpotMarketOrder list \<Rightarrow> SpotMarketOrderbook option" where
  "NewSpotMarketOrderbook spotMarketOrders =
     (if spotMarketOrders = [] then None
      else Some \<lparr>mob_notional = 0, mob_totalQuantity = 0, mob_orders = spotMarketOrders,
                 mob_fillQuantities = replicate (length spotMarketOrders) 0, mob_orderIdx = 0\<rparr>)"

definition SpotMarket_Done :: "SpotMarketOrderbook \<Rightarrow> bool" where
  "SpotMarket_Done b = (mob_orderIdx b = length (mob_orders b))"

function SpotMarket_Peek :: "SpotMarketOrderbook \<Rightarrow> (SpotMarketOrderbook \<times> PriceLevel option) option" where
  "SpotMarket_Peek b =
     (if SpotMarket_Done b then Some (b, None)
      else
        (case (nth_opt (mob_fillQuantities b) (mob_orderIdx b), nth_opt (mob_orders b) (mob_orderIdx b)) of
           (Some q, Some ord) \<Rightarrow>
             if q = mo_Quantity ord then SpotMarket_Peek (b\<lparr>mob_orderIdx := mob_orderIdx b + 1\<rparr>)
             else Some (b, Some \<lparr>lvl_Price = mo_Price ord, lvl_Quantity = mo_Quantity ord - q\<rparr>)
         | _ \<Rightarrow> None))"
  by pat_completeness auto
termination SpotMarket_Peek
  by (relation "measure (\<lambda>b. length (mob_orders b) - mob_orderIdx b)") auto

declare SpotMarket_Peek.simps [simp del]

definition SpotMarket_Fill :: "dec_ops \<Rightarrow> SpotMarketOrderbook \<Rightarrow> dec \<Rightarrow> SpotMarketOrderbook option" where
  "SpotMarket_Fill D b fillQuantity = do {
     q \<leftarrow> nth_opt (mob_fillQuantities b) (mob_orderIdx b);
     ord \<leftarrow> nth_opt (mob_orders b) (mob_orderIdx b);
     Some (b\<lparr>mob_fillQuantities := (mob_fillQuantities b)[mob_orderIdx b := q + fillQuantity],
             mob_notional := mob_notional b + dec_mul D fillQuantity (mo_Price ord),
             mob_totalQuantity := mob_totalQuantity b + fillQuantity\<rparr>)
   }"

definition SpotMarket_GetTotalQuantityFilled :: "SpotMarketOrderbook \<Rightarrow> dec" where
  "SpotMarket_GetTotalQuantityFilled b = mob_totalQuantity b"

definition SpotMarket_GetNotional :: "SpotMarketOrderbook \<Rightarrow> dec" where
  "SpotMarket_GetNotional b = mob_notional b"

end
