(* ===== verification/Spot_Book_Laws.thy ===== *)
theory Spot_Book_Laws
  imports Spot_Orderbook
begin

text \<open>
  The spot order books satisfy the contract \<open>orderbook\<close>. The limit book's invariant \<open>lob_inv\<close> says
  that fills stay within the fillable quantities, that all resting orders but the last and all
  transient orders before the index are done with, that the book's total is the sum of its fills,
  and that both sources are sorted by price priority (the order in which the store iterators
  deliver them).
\<close>

section \<open>Entries of a fill table\<close>

definition entries :: "OrderbookFills option \<Rightarrow> (SpotLimitOrder \<times> dec) list" where
  "entries fo = (case fo of None \<Rightarrow> [] | Some f \<Rightarrow> zip (fills_Orders f) (FillQuantities f))"

definition lens_ok :: "OrderbookFills option \<Rightarrow> bool" where
  "lens_ok fo = (case fo of None \<Rightarrow> True | Some f \<Rightarrow> length (fills_Orders f) = length (FillQuantities f))"

definition is_full :: "SpotLimitOrder \<times> dec \<Rightarrow> bool" where
  "is_full x = (snd x = Fillable (fst x))"

definition entry_ok :: "SpotLimitOrder \<times> dec \<Rightarrow> bool" where
  "entry_ok x = (0 \<le> snd x \<and> snd x \<le> Fillable (fst x))"

lemma is_full_Pair [simp]: "is_full (ord, q) \<longleftrightarrow> q = Fillable ord"
  and entry_ok_Pair [simp]: "entry_ok (ord, q) \<longleftrightarrow> 0 \<le> q \<and> q \<le> Fillable ord"
  by (simp_all add: is_full_def entry_ok_def)

abbreviation rest_entries :: "SpotLimitOrderbook \<Rightarrow> (SpotLimitOrder \<times> dec) list" where
  "rest_entries b \<equiv> entries (restingOrderbookFills b)"

abbreviation trans_entries :: "SpotLimitOrderbook \<Rightarrow> (SpotLimitOrder \<times> dec) list" where
  "trans_entries b \<equiv> entries (transientOrderbookFills b)"

abbreviation by_priority :: "bool \<Rightarrow> SpotLimitOrder list \<Rightarrow> bool" where
  "by_priority buy os \<equiv> sorted_wrt (\<lambda>x y. good buy (lo_Price x) (lo_Price y)) os"

definition open_orders :: "RiskEngine option \<Rightarrow> SpotLimitOrderbook \<Rightarrow> SpotLimitOrder list" where
  "open_orders e b =
     map fst (filter (\<lambda>x. \<not> is_full x) (rest_entries b))
     @ filter (\<lambda>ord. \<not> is_paused e ord \<and> Fillable ord \<noteq> 0) (restingOrderIterator b)
     @ map fst (filter (\<lambda>x. \<not> is_full x \<and> \<not> is_paused e (fst x)) (trans_entries b))"

definition lob_pending :: "RiskEngine option \<Rightarrow> SpotLimitOrderbook \<Rightarrow> dec set" where
  "lob_pending e b = lo_Price ` set (open_orders e b)"

definition touched_of :: "(SpotLimitOrder \<times> dec) list \<Rightarrow> dec set" where
  "touched_of xs = (\<lambda>x. lo_Price (fst x)) ` {x \<in> set xs. 0 < snd x}"

definition lob_touched :: "SpotLimitOrderbook \<Rightarrow> dec set" where
  "lob_touched b = touched_of (rest_entries b) \<union> touched_of (trans_entries b)"

definition lob_left :: "SpotLimitOrderbook \<Rightarrow> nat" where
  "lob_left b = length (filter (\<lambda>x. \<not> is_full x) (rest_entries b)) + length (restingOrderIterator b)
     + length (filter (\<lambda>x. \<not> is_full x) (trans_entries b))"

text \<open>The orders of the book: the side, the transient orders, and the resting orders that are not paused.\<close>

definition lob_book :: "RiskEngine option \<Rightarrow> SpotLimitOrderbook \<Rightarrow> bool \<times> SpotLimitOrder list \<times> SpotLimitOrder list" where
  "lob_book e b = (isBuy b, map fst (trans_entries b),
     map fst (rest_entries b) @ filter (\<lambda>ord. \<not> is_paused e ord) (restingOrderIterator b))"

definition lob_base :: "RiskEngine option \<Rightarrow> bool \<Rightarrow> SpotLimitOrderbook \<Rightarrow> bool" where
  "lob_base e buy b \<longleftrightarrow>
     isBuy b = buy \<and> lens_ok (restingOrderbookFills b) \<and> lens_ok (transientOrderbookFills b)
     \<and> (\<forall>x \<in> set (rest_entries b). entry_ok x \<and> \<not> is_paused e (fst x))
     \<and> (\<forall>x \<in> set (trans_entries b). entry_ok x)
     \<and> (\<forall>ord \<in> set (restingOrderIterator b). 0 \<le> Fillable ord)
     \<and> (restingOrderbookFills b = None \<longrightarrow> restingOrderIterator b = [])
     \<and> (\<forall>x \<in> set (butlast (rest_entries b)). is_full x)
     \<and> transientOrderIdx b \<le> length (trans_entries b)
     \<and> (\<forall>x \<in> set (take (transientOrderIdx b) (trans_entries b)). is_full x \<or> is_paused e (fst x))
     \<and> by_priority buy (map fst (trans_entries b))
     \<and> by_priority buy (map fst (rest_entries b) @ restingOrderIterator b)
     \<and> totalQuantity b = sum_list (map snd (rest_entries b)) + sum_list (map snd (trans_entries b))
     \<and> (\<forall>p \<in> lob_touched b. \<forall>q \<in> lob_pending e b. good buy p q)"

definition lob_current :: "RiskEngine option \<Rightarrow> bool \<Rightarrow> SpotLimitOrderbook \<Rightarrow> bool" where
  "lob_current e buy b \<longleftrightarrow> (\<forall>s. currState b = Some s \<longrightarrow>
     (\<exists>ord q. currEntry b = Some (ord, q) \<and> q < Fillable ord \<and> \<not> is_paused e ord
       \<and> (\<forall>p \<in> lob_pending e b. good buy (lo_Price ord) p)
       \<and> (\<forall>p \<in> lob_touched b. good buy p (lo_Price ord))))"

definition lob_inv :: "RiskEngine option \<Rightarrow> bool \<Rightarrow> SpotLimitOrderbook \<Rightarrow> bool" where
  "lob_inv e buy b \<longleftrightarrow> lob_base e buy b \<and> lob_current e buy b"

definition lob_ready :: "SpotLimitOrderbook \<Rightarrow> PriceLevel \<Rightarrow> bool" where
  "lob_ready b l \<longleftrightarrow> currState b \<noteq> None \<and> (\<exists>ord q. currEntry b = Some (ord, q)
     \<and> l = \<lparr>lvl_Price = lo_Price ord, lvl_Quantity = Fillable ord - q\<rparr>)"

section \<open>Iterator and index loops\<close>

lemma nextRestingOrder_spec:
  "iter \<noteq> [] \<Longrightarrow> \<exists>skipped iter' n. nextRestingOrder e iter = Some (iter', n)
     \<and> (\<forall>ord \<in> set skipped. is_paused e ord)
     \<and> (case n of None \<Rightarrow> iter = skipped \<and> iter' = []
        | Some ord \<Rightarrow> iter = skipped @ ord # iter' \<and> \<not> is_paused e ord)"
proof (induction e iter rule: nextRestingOrder.induct)
  case (2 e ord iter)
  show ?case
  proof (cases "is_paused e ord \<and> iter \<noteq> []")
    case True
    then obtain skipped iter' n where *: "nextRestingOrder e iter = Some (iter', n)"
      "\<forall>ord \<in> set skipped. is_paused e ord"
      "case n of None \<Rightarrow> iter = skipped \<and> iter' = [] | Some ord \<Rightarrow> iter = skipped @ ord # iter' \<and> \<not> is_paused e ord"
      using 2 by auto
    show ?thesis
      by (rule exI [of _ "ord # skipped"], rule exI [of _ iter'], rule exI [of _ n])
        (use True * in \<open>auto split: option.splits\<close>)
  next
    case False
    then show ?thesis
      by (cases "is_paused e ord")
        (auto intro: exI [of _ "[ord]"] exI [of _ "[]"])
  qed
qed simp

lemma nextTransientOrder_spec:
  assumes "length (fills_Orders f) = length (FillQuantities f)" "idx < length (fills_Orders f)"
  shows "\<exists>i n. nextTransientOrder e f idx = Some (i, n) \<and> idx \<le> i \<and> i \<le> length (fills_Orders f)
    \<and> (\<forall>j. idx \<le> j \<longrightarrow> j < i \<longrightarrow> FillQuantities f ! j = Fillable (fills_Orders f ! j) \<or> is_paused e (fills_Orders f ! j))
    \<and> (case n of None \<Rightarrow> i = length (fills_Orders f)
       | Some ord \<Rightarrow> i < length (fills_Orders f) \<and> fills_Orders f ! i = ord
           \<and> FillQuantities f ! i \<noteq> Fillable ord \<and> \<not> is_paused e ord)"
  using assms
proof (induction "length (fills_Orders f) - idx" arbitrary: idx rule: less_induct)
  case less
  let ?o = "fills_Orders f ! idx" and ?q = "FillQuantities f ! idx"
  have step: "nextTransientOrder e f idx =
     (if Fillable ?o = ?q \<or> is_paused e ?o
      then (if length (fills_Orders f) = idx + 1 then Some (idx + 1, None) else nextTransientOrder e f (idx + 1))
      else Some (idx, Some ?o))"
    using less.prems by (subst nextTransientOrder.simps) (simp add: nth_opt_def)
  consider (found) "Fillable ?o \<noteq> ?q" "\<not> is_paused e ?o"
    | (stop) "Fillable ?o = ?q \<or> is_paused e ?o" "length (fills_Orders f) = idx + 1"
    | (skip) "Fillable ?o = ?q \<or> is_paused e ?o" "length (fills_Orders f) \<noteq> idx + 1" by blast
  then show ?case
  proof cases
    case found
    then show ?thesis using step less.prems by auto
  next
    case stop
    then have "\<forall>j. idx \<le> j \<longrightarrow> j < idx + 1 \<longrightarrow> FillQuantities f ! j = Fillable (fills_Orders f ! j) \<or> is_paused e (fills_Orders f ! j)"
      by (auto simp: le_antisym less_Suc_eq_le)
    then show ?thesis using stop step less.prems by auto
  next
    case skip
    then have lt: "idx + 1 < length (fills_Orders f)" using less.prems by simp
    have e1: "nextTransientOrder e f idx = nextTransientOrder e f (idx + 1)"
      using skip step by auto
    have dec: "length (fills_Orders f) - (idx + 1) < length (fills_Orders f) - idx" using lt by simp
    from less.hyps [OF dec less.prems(1) lt] obtain i r where
      ih: "nextTransientOrder e f (idx + 1) = Some (i, r)" "idx + 1 \<le> i" "i \<le> length (fills_Orders f)"
        "\<forall>j. idx + 1 \<le> j \<longrightarrow> j < i \<longrightarrow> FillQuantities f ! j = Fillable (fills_Orders f ! j) \<or> is_paused e (fills_Orders f ! j)"
        "case r of None \<Rightarrow> i = length (fills_Orders f)
         | Some ord \<Rightarrow> i < length (fills_Orders f) \<and> fills_Orders f ! i = ord
           \<and> FillQuantities f ! i \<noteq> Fillable ord \<and> \<not> is_paused e ord" by blast
    have "FillQuantities f ! j = Fillable (fills_Orders f ! j) \<or> is_paused e (fills_Orders f ! j)"
      if "idx \<le> j" "j < i" for j
      using that ih(4) skip(1) by (cases "j = idx") auto
    then show ?thesis unfolding e1 using ih by (intro exI [of _ i] exI [of _ r]) auto
  qed
qed

section \<open>Advancing\<close>

text \<open>What a step of the book that matches nothing must keep.\<close>

definition same_view :: "RiskEngine option \<Rightarrow> SpotLimitOrderbook \<Rightarrow> SpotLimitOrderbook \<Rightarrow> bool" where
  "same_view e b b' \<longleftrightarrow> lob_touched b' = lob_touched b \<and> lob_pending e b' = lob_pending e b
     \<and> lob_left b' \<le> lob_left b \<and> lob_book e b' = lob_book e b \<and> totalQuantity b' = totalQuantity b"

lemma same_view_refl [simp]: "same_view e b b"
  by (simp add: same_view_def)

lemma same_view_trans [trans]: "same_view e b b' \<Longrightarrow> same_view e b' b'' \<Longrightarrow> same_view e b b''"
  by (simp add: same_view_def)

lemma entries_simps [simp]:
  "entries None = []" "entries (Some f) = zip (fills_Orders f) (FillQuantities f)"
  by (simp_all add: entries_def)

lemma lens_ok_simps [simp]:
  "lens_ok None" "lens_ok (Some f) \<longleftrightarrow> length (fills_Orders f) = length (FillQuantities f)"
  by (simp_all add: lens_ok_def)

lemmas lob_views = lob_touched_def lob_pending_def open_orders_def lob_left_def lob_book_def

lemma view_currState [simp]:
  "lob_touched (b\<lparr>currState := c\<rparr>) = lob_touched b" "lob_pending e (b\<lparr>currState := c\<rparr>) = lob_pending e b"
  "lob_left (b\<lparr>currState := c\<rparr>) = lob_left b" "lob_book e (b\<lparr>currState := c\<rparr>) = lob_book e b"
  "lob_base e buy (b\<lparr>currState := c\<rparr>) = lob_base e buy b"
  by (simp_all add: lob_views lob_base_def)

lemma view_transientOrderIdx [simp]:
  "lob_touched (b\<lparr>transientOrderIdx := i\<rparr>) = lob_touched b"
  "lob_pending e (b\<lparr>transientOrderIdx := i\<rparr>) = lob_pending e b"
  "lob_left (b\<lparr>transientOrderIdx := i\<rparr>) = lob_left b" "lob_book e (b\<lparr>transientOrderIdx := i\<rparr>) = lob_book e b"
  by (simp_all add: lob_views)

lemma drop_paused:
  assumes "lob_base e buy b" "restingOrderIterator b = skipped @ iter" "\<forall>ord \<in> set skipped. is_paused e ord"
    and "b' = b\<lparr>restingOrderIterator := iter\<rparr>"
  shows "lob_base e buy b'" "same_view e b b'"
proof -
  have t: "lob_touched b' = lob_touched b" using assms(4) by (simp add: lob_touched_def)
  have p: "lob_pending e b' = lob_pending e b"
    using assms(2,3,4) by (simp add: lob_pending_def open_orders_def)
  show "lob_base e buy b'" using assms(1,2) t p
    by (simp add: lob_base_def assms(4) sorted_wrt_append)
  show "same_view e b b'" using assms(2,3) t p
    by (simp add: same_view_def lob_left_def lob_book_def assms(4))
qed

lemma pop_resting:
  assumes "lob_base e buy b" "restingOrderIterator b = ord # iter" "\<not> is_paused e ord"
    and "\<forall>x \<in> set (rest_entries b). is_full x" "restingOrderbookFills b = Some f"
    and "b' = b\<lparr>restingOrderIterator := iter,
      restingOrderbookFills := Some (f\<lparr>fills_Orders := fills_Orders f @ [ord], FillQuantities := FillQuantities f @ [0]\<rparr>)\<rparr>"
  shows "lob_base e buy b'" "same_view e b b'" "rest_entries b' = rest_entries b @ [(ord, 0)]"
proof -
  show en: "rest_entries b' = rest_entries b @ [(ord, 0)]"
    using assms(1,5,6) by (simp add: lob_base_def)
  have t: "lob_touched b' = lob_touched b"
    unfolding lob_touched_def en using assms(6) by (auto simp: touched_of_def)
  have p: "lob_pending e b' = lob_pending e b"
    using assms(2,3) unfolding lob_pending_def open_orders_def en by (auto simp: assms(6))
  have "lens_ok (restingOrderbookFills b')" "0 \<le> Fillable ord" "isBuy b' = isBuy b"
    "transientOrderbookFills b' = transientOrderbookFills b" "transientOrderIdx b' = transientOrderIdx b"
    "restingOrderIterator b' = iter" "totalQuantity b' = totalQuantity b" "restingOrderbookFills b' \<noteq> None"
    using assms by (simp_all add: lob_base_def)
  then show "lob_base e buy b'" using assms(1-4) t p en by (auto simp: lob_base_def)
  show "same_view e b b'" using assms(2,3) t p en
    by (simp add: same_view_def lob_left_def lob_book_def assms(6))
qed

lemma resting_fillable:
  assumes "lens_ok (restingOrderbookFills b)" "restingOrderbookFills b = Some f"
  shows "getRestingFillableQuantity b =
    Some (if rest_entries b = [] then 0 else Fillable (fst (last (rest_entries b))) - snd (last (rest_entries b)))"
  using assms zip_last [of "fills_Orders f" "FillQuantities f"]
  by (cases "fills_Orders f = []")
    (auto simp: getRestingFillableQuantity_def nth_opt_def last_conv_nth Let_def)

lemma all_full:
  assumes "\<forall>x \<in> set (butlast xs). is_full x" "xs \<noteq> [] \<longrightarrow> is_full (last xs)"
  shows "\<forall>x \<in> set xs. is_full x"
  using assms set_butlast_last [of xs] by (cases "xs = []") auto

text \<open>The next resting order: none when no resting order is open, otherwise the last one read.\<close>

lemma getRestingOrder_spec:
  assumes base: "lob_base e buy b"
  obtains b1 r where "getRestingOrder e b = Some (b1, r)" "lob_base e buy b1" "same_view e b b1"
    "case r of None \<Rightarrow> restingOrderIterator b1 = [] \<and> (\<forall>x \<in> set (rest_entries b1). is_full x)
     | Some ord \<Rightarrow> rest_entries b1 \<noteq> [] \<and> fst (last (rest_entries b1)) = ord"
proof (cases "restingOrderbookFills b")
  case None
  then have "getRestingOrder e b = Some (b, None)" "restingOrderIterator b = []"
    using base by (simp_all add: getRestingOrder_def lob_base_def)
  then show ?thesis using base None by (intro that [of b None]) auto
next
  case (Some f)
  have lens: "lens_ok (restingOrderbookFills b)" using base by (simp add: lob_base_def)
  let ?x = "if rest_entries b = [] then 0 else Fillable (fst (last (rest_entries b))) - snd (last (rest_entries b))"
  note fq = resting_fillable [OF lens Some]
  show ?thesis
  proof (cases "?x = 0")
    case False
    then have ne: "rest_entries b \<noteq> []" by (auto split: if_splits)
    then have "fills_Orders f \<noteq> []" "fst (last (rest_entries b)) = last (fills_Orders f)"
      using Some lens zip_last [of "fills_Orders f" "FillQuantities f"] by auto
    then have g: "getRestingOrder e b = Some (b, Some (fst (last (rest_entries b))))"
      using Some fq False by (simp add: getRestingOrder_def nth_opt_last del: entries_simps)
    show ?thesis by (rule that [OF g base same_view_refl]) (simp add: ne)
  next
    case True
    then have "rest_entries b \<noteq> [] \<longrightarrow> is_full (last (rest_entries b))"
      unfolding is_full_def by (simp split: if_splits del: entries_simps)
    moreover have "\<forall>x \<in> set (butlast (rest_entries b)). is_full x" using base unfolding lob_base_def by blast
    ultimately have full: "\<forall>x \<in> set (rest_entries b). is_full x" by (rule all_full [rotated])
    show ?thesis
    proof (cases "restingOrderIterator b = []")
      case it: True
      then have "getRestingOrder e b = Some (b, None)" using Some fq True by (simp add: getRestingOrder_def)
      then show ?thesis using base full it by (intro that [of b None]) auto
    next
      case it: False
      obtain skipped iter' n where n: "nextRestingOrder e (restingOrderIterator b) = Some (iter', n)"
        "\<forall>ord \<in> set skipped. is_paused e ord"
        "case n of None \<Rightarrow> restingOrderIterator b = skipped \<and> iter' = []
         | Some ord \<Rightarrow> restingOrderIterator b = skipped @ ord # iter' \<and> \<not> is_paused e ord"
        using nextRestingOrder_spec [OF it, of e] by blast
      have fq0: "getRestingFillableQuantity b = Some 0" using fq True by simp
      show ?thesis
      proof (cases n)
        case None
        let ?b1 = "b\<lparr>restingOrderIterator := []\<rparr>"
        have g: "getRestingOrder e b = Some (?b1, None)"
          using Some fq0 it n None by (simp add: getRestingOrder_def)
        have "restingOrderIterator b = skipped @ []" using n None by simp
        from drop_paused [OF base this n(2) refl] show ?thesis
          using g full by (intro that [of ?b1 None]) auto
      next
        case n': (Some ord)
        let ?b0 = "b\<lparr>restingOrderIterator := ord # iter'\<rparr>"
        let ?b1 = "b\<lparr>restingOrderIterator := iter', restingOrderbookFills :=
          Some (f\<lparr>fills_Orders := fills_Orders f @ [ord], FillQuantities := FillQuantities f @ [0]\<rparr>)\<rparr>"
        have g: "getRestingOrder e b = Some (?b1, Some ord)"
          using Some fq0 it n n' by (simp add: getRestingOrder_def)
        have sk: "restingOrderIterator b = skipped @ (ord # iter')" "\<not> is_paused e ord" using n n' by auto
        note b0 = drop_paused [OF base sk(1) n(2) refl]
        have f1: "restingOrderIterator ?b0 = ord # iter'" by simp
        have f2: "\<forall>x \<in> set (rest_entries ?b0). is_full x" using full by simp
        have f3: "restingOrderbookFills ?b0 = Some f" using Some by simp
        have b1: "?b1 = ?b0\<lparr>restingOrderIterator := iter', restingOrderbookFills :=
          Some (f\<lparr>fills_Orders := fills_Orders f @ [ord], FillQuantities := FillQuantities f @ [0]\<rparr>)\<rparr>" by simp
        note p = pop_resting [OF b0(1) f1 sk(2) f2 f3 b1]
        have l: "rest_entries ?b1 \<noteq> []" "fst (last (rest_entries ?b1)) = ord" unfolding p(3) by simp_all
        show ?thesis by (rule that [OF g p(1) same_view_trans [OF b0(2) p(2)]]) (simp only: option.case l simp_thms)
      qed
    qed
  qed
qed

lemma getTransientOrder_spec:
  assumes base: "lob_base e buy b"
  obtains b1 r where "getTransientOrder e b = Some (b1, r)" "lob_base e buy b1" "same_view e b b1"
    "restingOrderbookFills b1 = restingOrderbookFills b" "restingOrderIterator b1 = restingOrderIterator b"
    "case r of None \<Rightarrow> (\<forall>x \<in> set (trans_entries b1). is_full x \<or> is_paused e (fst x))
     | Some ord \<Rightarrow> transientOrderIdx b1 < length (trans_entries b1) \<and> \<not> is_paused e ord
         \<and> fst (trans_entries b1 ! transientOrderIdx b1) = ord \<and> \<not> is_full (trans_entries b1 ! transientOrderIdx b1)"
proof (cases "transientOrderbookFills b")
  case None
  then have "getTransientOrder e b = Some (b, None)" by (simp add: getTransientOrder_def)
  then show ?thesis using base None by (intro that [of b None]) auto
next
  case (Some f)
  have lens: "length (fills_Orders f) = length (FillQuantities f)" and idx: "transientOrderIdx b \<le> length (fills_Orders f)"
    and before: "\<forall>x \<in> set (take (transientOrderIdx b) (trans_entries b)). is_full x \<or> is_paused e (fst x)"
    using base Some by (auto simp: lob_base_def)
  show ?thesis
  proof (cases "length (fills_Orders f) = transientOrderIdx b")
    case True
    then have "getTransientOrder e b = Some (b, None)" using Some by (simp add: getTransientOrder_def)
    then show ?thesis using before True lens Some by (intro that [of b None, OF _ base]) simp_all
  next
    case False
    obtain i r where n: "nextTransientOrder e f (transientOrderIdx b) = Some (i, r)" "transientOrderIdx b \<le> i"
      "i \<le> length (fills_Orders f)"
      "\<forall>j. transientOrderIdx b \<le> j \<longrightarrow> j < i \<longrightarrow> FillQuantities f ! j = Fillable (fills_Orders f ! j) \<or> is_paused e (fills_Orders f ! j)"
      "case r of None \<Rightarrow> i = length (fills_Orders f)
       | Some ord \<Rightarrow> i < length (fills_Orders f) \<and> fills_Orders f ! i = ord
           \<and> FillQuantities f ! i \<noteq> Fillable ord \<and> \<not> is_paused e ord"
      using nextTransientOrder_spec [OF lens, of "transientOrderIdx b" e] False idx by auto
    let ?b1 = "b\<lparr>transientOrderIdx := i\<rparr>"
    have g: "getTransientOrder e b = Some (?b1, r)"
      using Some False n(1) by (simp add: getTransientOrder_def)
    have "is_full (trans_entries b ! j) \<or> is_paused e (fst (trans_entries b ! j))" if "j < i" for j
    proof (cases "j < transientOrderIdx b")
      case True
      then have "trans_entries b ! j \<in> set (take (transientOrderIdx b) (trans_entries b))"
        using idx lens Some by (auto simp: in_set_conv_nth intro!: exI [of _ j])
      then show ?thesis using before by blast
    next
      case False
      then show ?thesis using n(3,4) that Some lens by auto
    qed
    then have before': "\<forall>x \<in> set (take i (trans_entries b)). is_full x \<or> is_paused e (fst x)"
      by (intro ball_take)
    have "i \<le> length (trans_entries b)" using n(3) Some lens by simp
    then have b1: "lob_base e buy ?b1" using base before' by (simp add: lob_base_def)
    have v: "same_view e b ?b1" by (simp add: same_view_def)
    have te: "trans_entries ?b1 = zip (fills_Orders f) (FillQuantities f)" using Some by simp
    show ?thesis
    proof (cases r)
      case None
      then have "\<forall>x \<in> set (trans_entries ?b1). is_full x \<or> is_paused e (fst x)"
        using before' n(5) Some lens by simp
      then show ?thesis using None by (intro that [OF g b1 v]) simp_all
    next
      case r: (Some ord)
      then have "transientOrderIdx ?b1 < length (trans_entries ?b1)" "\<not> is_paused e ord"
        "fst (trans_entries ?b1 ! transientOrderIdx ?b1) = ord" "\<not> is_full (trans_entries ?b1 ! transientOrderIdx ?b1)"
        unfolding te using n(5) lens by simp_all
      then show ?thesis using r by (intro that [OF g b1 v]) (simp_all only: option.case simp_thms, simp_all)
    qed
  qed
qed

lemma currEntry_resting_eq:
  assumes "lens_ok (restingOrderbookFills b)" "currState b = Some CurrResting" "rest_entries b \<noteq> []"
  shows "currEntry b = Some (last (rest_entries b))"
proof -
  obtain f where f: "restingOrderbookFills b = Some f" "fills_Orders f \<noteq> []" "FillQuantities f \<noteq> []"
    "length (fills_Orders f) = length (FillQuantities f)"
    using assms by (cases "restingOrderbookFills b") auto
  then show ?thesis using assms(2) nth_opt_last [OF f(2)] nth_opt_last [OF f(3)]
    by (simp add: currEntry_def getCurrIndex_def currFills_def zip_last nth_opt_def)
qed

lemma currEntry_transient_eq:
  assumes "lens_ok (transientOrderbookFills b)" "currState b = Some CurrTransient"
    "transientOrderIdx b < length (trans_entries b)"
  shows "currEntry b = Some (trans_entries b ! transientOrderIdx b)"
proof -
  obtain f where f: "transientOrderbookFills b = Some f" using assms by (cases "transientOrderbookFills b") auto
  then show ?thesis using assms by (simp add: currEntry_def getCurrIndex_def currFills_def nth_opt_def)
qed

lemma lob_pending_iff:
  "p \<in> lob_pending e b \<longleftrightarrow>
     (\<exists>x \<in> set (rest_entries b). \<not> is_full x \<and> p = lo_Price (fst x))
     \<or> (\<exists>ord \<in> set (restingOrderIterator b). \<not> is_paused e ord \<and> Fillable ord \<noteq> 0 \<and> p = lo_Price ord)
     \<or> (\<exists>x \<in> set (trans_entries b). \<not> is_full x \<and> \<not> is_paused e (fst x) \<and> p = lo_Price (fst x))"
  by (auto simp: lob_pending_def open_orders_def)

lemma rest_best:
  assumes "lob_base e buy b" "rest_entries b \<noteq> []"
  shows "x \<in> set (rest_entries b) \<Longrightarrow> \<not> is_full x \<Longrightarrow> x = last (rest_entries b)"
    and "ord \<in> set (restingOrderIterator b) \<Longrightarrow> good buy (lo_Price (fst (last (rest_entries b)))) (lo_Price ord)"
proof -
  have bl: "\<forall>x \<in> set (butlast (rest_entries b)). is_full x"
    and so: "by_priority buy (map fst (rest_entries b) @ restingOrderIterator b)"
    using assms(1) unfolding lob_base_def by blast+
  show "x \<in> set (rest_entries b) \<Longrightarrow> \<not> is_full x \<Longrightarrow> x = last (rest_entries b)"
    using bl set_butlast_last [OF assms(2)] by auto
  have "fst (last (rest_entries b)) \<in> set (map fst (rest_entries b))" using last_in_set [OF assms(2)] by simp
  then show "ord \<in> set (restingOrderIterator b) \<Longrightarrow> good buy (lo_Price (fst (last (rest_entries b)))) (lo_Price ord)"
    using so unfolding sorted_wrt_append by blast
qed

lemma trans_best:
  assumes "lob_base e buy b" "transientOrderIdx b < length (trans_entries b)"
    and x: "x \<in> set (trans_entries b)" "\<not> is_full x" "\<not> is_paused e (fst x)"
  shows "good buy (lo_Price (fst (trans_entries b ! transientOrderIdx b))) (lo_Price (fst x))"
proof -
  let ?i = "transientOrderIdx b"
  have before: "\<forall>x \<in> set (take ?i (trans_entries b)). is_full x \<or> is_paused e (fst x)"
    and so: "by_priority buy (map fst (trans_entries b))"
    using assms(1) unfolding lob_base_def by blast+
  obtain j where j: "j < length (trans_entries b)" "x = trans_entries b ! j" using x(1) by (auto simp: in_set_conv_nth)
  have "\<not> j < ?i"
  proof
    assume "j < ?i"
    then have "x \<in> set (take ?i (trans_entries b))" using j by (auto simp: in_set_conv_nth)
    then show False using before x by blast
  qed
  then consider "j = ?i" | "?i < j" by linarith
  then show ?thesis
  proof cases
    case 2
    then show ?thesis using so j by (simp add: sorted_wrt_iff_nth_less)
  qed (simp add: j)
qed

text \<open>The last resting order read, if it beats the transient orders, beats every open order; and dually.\<close>

lemma resting_is_best:
  assumes base: "lob_base e buy b" and ne: "rest_entries b \<noteq> []"
    and tr: "\<And>x. x \<in> set (trans_entries b) \<Longrightarrow> \<not> is_full x \<Longrightarrow> \<not> is_paused e (fst x) \<Longrightarrow>
      good buy (lo_Price (fst (last (rest_entries b)))) (lo_Price (fst x))"
    and p: "p \<in> lob_pending e b"
  shows "good buy (lo_Price (fst (last (rest_entries b)))) p"
  using p unfolding lob_pending_iff
proof (elim disjE bexE conjE)
  fix x assume "x \<in> set (rest_entries b)" "\<not> is_full x" "p = lo_Price (fst x)"
  then show ?thesis using rest_best(1) [OF base ne] by simp
next
  fix ord assume "ord \<in> set (restingOrderIterator b)" "p = lo_Price ord"
  then show ?thesis using rest_best(2) [OF base ne] by simp
qed (use tr in blast)

lemma transient_is_best:
  assumes base: "lob_base e buy b" and idx: "transientOrderIdx b < length (trans_entries b)"
    and re: "restingOrderIterator b \<noteq> [] \<or> (\<exists>x \<in> set (rest_entries b). \<not> is_full x) \<Longrightarrow>
      rest_entries b \<noteq> [] \<and>
      good buy (lo_Price (fst (trans_entries b ! transientOrderIdx b))) (lo_Price (fst (last (rest_entries b))))"
    and p: "p \<in> lob_pending e b"
  shows "good buy (lo_Price (fst (trans_entries b ! transientOrderIdx b))) p"
  using p unfolding lob_pending_iff
proof (elim disjE bexE conjE)
  fix x assume x: "x \<in> set (rest_entries b)" "\<not> is_full x" "p = lo_Price (fst x)"
  then show ?thesis using rest_best(1) [OF base _ x(1,2)] re by auto
next
  fix ord assume "ord \<in> set (restingOrderIterator b)" "p = lo_Price ord"
  moreover from this have "restingOrderIterator b \<noteq> []" by auto
  ultimately show ?thesis using re good_trans rest_best(2) [OF base] by blast
qed (use trans_best [OF base idx] in blast)

lemma current_resting_open:
  assumes base: "lob_base e buy b" and ne: "rest_entries b \<noteq> []" and cur: "currState b = Some CurrResting"
  shows "currEntry b = Some (last (rest_entries b))" "entry_ok (last (rest_entries b))"
    "\<not> is_paused e (fst (last (rest_entries b)))"
    "\<not> is_full (last (rest_entries b)) \<Longrightarrow> lo_Price (fst (last (rest_entries b))) \<in> lob_pending e b"
  using base currEntry_resting_eq [OF _ cur ne] last_in_set [OF ne] lob_pending_iff
  unfolding lob_base_def by blast+

lemma current_transient_open:
  assumes base: "lob_base e buy b" and idx: "transientOrderIdx b < length (trans_entries b)"
    and cur: "currState b = Some CurrTransient" and x: "x = trans_entries b ! transientOrderIdx b" "\<not> is_paused e (fst x)"
  shows "currEntry b = Some x" "entry_ok x" "\<not> is_full x \<Longrightarrow> lo_Price (fst x) \<in> lob_pending e b"
proof -
  have m: "x \<in> set (trans_entries b)" using idx x(1) by simp
  show "currEntry b = Some x" using base currEntry_transient_eq [OF _ cur idx] x(1) unfolding lob_base_def by blast
  show "entry_ok x" using base m unfolding lob_base_def by blast
  show "\<not> is_full x \<Longrightarrow> lo_Price (fst x) \<in> lob_pending e b" using m x(2) lob_pending_iff by blast
qed

text \<open>
  An advance of a book without a current order returns; if it finds none then no order is open, and
  if the order it finds is open then no open order has priority over it.
\<close>

definition shows_best :: "RiskEngine option \<Rightarrow> bool \<Rightarrow> SpotLimitOrderbook \<Rightarrow> bool" where
  "shows_best e buy b \<longleftrightarrow> (\<exists>x. currEntry b = Some x \<and> entry_ok x \<and> \<not> is_paused e (fst x)
     \<and> (\<not> is_full x \<longrightarrow> lo_Price (fst x) \<in> lob_pending e b
         \<and> (\<forall>p \<in> lob_pending e b. good buy (lo_Price (fst x)) p)))"

lemma advanceNewOrder_spec:
  assumes base: "lob_base e buy b" and cur: "currState b = None"
  obtains b' where "advanceNewOrder e b = Some b'" "lob_base e buy b'" "same_view e b b'"
    "if currState b' = None then lob_pending e b' = {} else shows_best e buy b'"
proof -
  obtain b1 r where r: "getRestingOrder e b = Some (b1, r)" "lob_base e buy b1" "same_view e b b1"
    "case r of None \<Rightarrow> restingOrderIterator b1 = [] \<and> (\<forall>x \<in> set (rest_entries b1). is_full x)
     | Some ord \<Rightarrow> rest_entries b1 \<noteq> [] \<and> fst (last (rest_entries b1)) = ord"
    using getRestingOrder_spec [OF base] .
  obtain b2 t where t: "getTransientOrder e b1 = Some (b2, t)" "lob_base e buy b2" "same_view e b1 b2"
    "restingOrderbookFills b2 = restingOrderbookFills b1" "restingOrderIterator b2 = restingOrderIterator b1"
    "case t of None \<Rightarrow> (\<forall>x \<in> set (trans_entries b2). is_full x \<or> is_paused e (fst x))
     | Some ord \<Rightarrow> transientOrderIdx b2 < length (trans_entries b2) \<and> \<not> is_paused e ord
         \<and> fst (trans_entries b2 ! transientOrderIdx b2) = ord \<and> \<not> is_full (trans_entries b2 ! transientOrderIdx b2)"
    using getTransientOrder_spec [OF r(2)] .
  have rest: "case r of None \<Rightarrow> restingOrderIterator b2 = [] \<and> (\<forall>x \<in> set (rest_entries b2). is_full x)
     | Some ord \<Rightarrow> rest_entries b2 \<noteq> [] \<and> fst (last (rest_entries b2)) = ord"
    using r(4) unfolding t(4,5) .
  have buy: "isBuy b2 = buy" using t(2) by (simp add: lob_base_def)
  obtain b' where b': "advanceNewOrder e b = Some b'"
    using r(1) t(1) cur by (simp add: advanceNewOrder_def)
  from b' cur show ?thesis
  proof (cases rule: advanceNewOrder_cases)
    case (1 b1' b2' c r' t')
    have eqs: "b1' = b1" "r' = r" "b2' = b2" "t' = t" using 1(1,2) r(1) t(1) by auto
    note c = 1(3-6) [unfolded eqs]
    have base': "lob_base e buy b'" using t(2) c(1) by simp
    have view: "rest_entries b' = rest_entries b2" "trans_entries b' = trans_entries b2" "currState b' = c"
      "transientOrderIdx b' = transientOrderIdx b2" "restingOrderIterator b' = restingOrderIterator b2"
      using c(1) by simp_all
    have "shows_best e buy b'" if s: "c = Some CurrResting"
    proof -
      obtain ro where ro: "r = Some ro" using c(3) [OF s] by blast
      have ne: "rest_entries b' \<noteq> []" using rest ro view by simp
      have "good buy (lo_Price (fst (last (rest_entries b')))) (lo_Price (fst x))"
        if x: "x \<in> set (trans_entries b')" "\<not> is_full x" "\<not> is_paused e (fst x)" for x
      proof -
        obtain tr where tr: "t = Some tr" using t(6) x view by (cases t) auto
        have "good buy (lo_Price ro) (lo_Price tr)" using c(3) [OF s] ro tr buy by (auto simp: good_def split: if_splits)
        also have "good buy (lo_Price tr) (lo_Price (fst x))" using trans_best [OF base' _ x] view t(6) tr by simp
        finally show ?thesis using rest ro view by simp
      qed
      from resting_is_best [OF base' ne this] current_resting_open [OF base' ne] show ?thesis
        using s view unfolding shows_best_def by blast
    qed
    moreover have "shows_best e buy b'" if s: "c = Some CurrTransient"
    proof -
      obtain tr where tr: "t = Some tr" using c(4) [OF s] by blast
      let ?x = "trans_entries b' ! transientOrderIdx b'"
      have x: "transientOrderIdx b' < length (trans_entries b')" "\<not> is_paused e (fst ?x)"
        using t(6) tr view by auto
      have "rest_entries b' \<noteq> [] \<and> good buy (lo_Price (fst ?x)) (lo_Price (fst (last (rest_entries b'))))"
        if "restingOrderIterator b' \<noteq> [] \<or> (\<exists>x \<in> set (rest_entries b'). \<not> is_full x)"
        using that rest view c(4) [OF s] tr t(6) buy by (auto simp: good_def split: option.splits if_splits)
      from transient_is_best [OF base' x(1) this] current_transient_open [OF base' x(1) _ refl x(2)] show ?thesis
        using s view x(2) unfolding shows_best_def by blast
    qed
    moreover have "lob_pending e b' = {}" if "c = None"
      using rest t(6) c(2) that view by (auto simp: lob_pending_iff)
    ultimately have res: "if currState b' = None then lob_pending e b' = {} else shows_best e buy b'"
      using view(3) by (cases c) (auto intro: curr_fills.exhaust)
    have "same_view e b b'" using same_view_trans [OF r(3) t(3)] c(1) by (simp add: same_view_def)
    then show ?thesis using that [OF b' base' _ res] by blast
  qed
qed

section \<open>Peek\<close>

lemma same_view_currState [simp]: "same_view e b (b'\<lparr>currState := c\<rparr>) \<longleftrightarrow> same_view e b b'"
  "same_view e (b\<lparr>currState := c\<rparr>) b' \<longleftrightarrow> same_view e b b'"
  by (simp_all add: same_view_def)

lemma shows_best_current:
  assumes base: "lob_base e buy b" and best: "shows_best e buy b" and x: "currEntry b = Some (ord, q)" "q \<noteq> Fillable ord"
  shows "lob_current e buy b"
proof -
  have b: "entry_ok (ord, q)" "\<not> is_paused e ord" "lo_Price ord \<in> lob_pending e b" "\<forall>p \<in> lob_pending e b. good buy (lo_Price ord) p"
    using best x by (auto simp: shows_best_def)
  have "\<forall>p \<in> lob_touched b. \<forall>q \<in> lob_pending e b. good buy p q" using base unfolding lob_base_def by blast
  then show ?thesis using b x unfolding lob_current_def by auto
qed

lemma lob_inv_no_current: "lob_base e buy b \<Longrightarrow> currState b = None \<Longrightarrow> lob_inv e buy b"
  by (simp add: lob_inv_def lob_current_def)

lemma peek_current:
  assumes "advanceNewOrder e b = Some b'" "currState b' \<noteq> None" "currEntry b' = Some (ord, q)" "q \<noteq> Fillable ord"
  shows "SpotLimit_Peek e b = Some (b', Some \<lparr>lvl_Price = lo_Price ord, lvl_Quantity = Fillable ord - q\<rparr>)"
    and "lob_ready b' \<lparr>lvl_Price = lo_Price ord, lvl_Quantity = Fillable ord - q\<rparr>"
  using assms by (auto simp: SpotLimit_Peek.simps [of e b] lob_ready_def)

lemma peek_skip:
  assumes "advanceNewOrder e b = Some b'" "currState b' = Some s" "currEntry b' = Some (ord, Fillable ord)"
  shows "SpotLimit_Peek e b = SpotLimit_Peek e (b'\<lparr>currState := None\<rparr>)"
  by (subst SpotLimit_Peek.simps) (simp add: assms)

lemma SpotLimit_Peek_spec:
  "lob_inv e buy b \<Longrightarrow> \<exists>b' r. SpotLimit_Peek e b = Some (b', r) \<and> lob_inv e buy b' \<and> same_view e b b'
     \<and> (case r of None \<Rightarrow> lob_pending e b' = {} | Some l \<Rightarrow> lob_ready b' l)"
proof (induction "length (restingOrderIterator b)" arbitrary: b rule: less_induct)
  case less
  show ?case
  proof (cases "currState b")
    case (Some s)
    then obtain ord q where x: "currEntry b = Some (ord, q)" "q < Fillable ord"
      using less.prems unfolding lob_inv_def lob_current_def by blast
    have "advanceNewOrder e b = Some b" using Some by (simp add: advanceNewOrder_def)
    from peek_current [OF this _ x(1)] show ?thesis using less.prems x(2) Some by simp
  next
    case None
    have "lob_base e buy b" using less.prems by (simp add: lob_inv_def)
    then obtain b' where a: "advanceNewOrder e b = Some b'" "lob_base e buy b'" "same_view e b b'"
      "if currState b' = None then lob_pending e b' = {} else shows_best e buy b'"
      using advanceNewOrder_spec None by blast
    show ?thesis
    proof (cases "currState b'")
      case n: None
      then have "SpotLimit_Peek e b = Some (b', None)" using a(1) by (subst SpotLimit_Peek.simps) simp
      then show ?thesis using a(3,4) n lob_inv_no_current [OF a(2) n] by simp
    next
      case (Some s)
      then have sb: "shows_best e buy b'" using a(4) by simp
      then obtain ord q where x: "currEntry b' = Some (ord, q)" unfolding shows_best_def by fast
      show ?thesis
      proof (cases "q = Fillable ord")
        case True
        have "length (restingOrderIterator (b'\<lparr>currState := None\<rparr>)) < length (restingOrderIterator b)"
          using advance_progress [OF a(1) None x] True by simp
        moreover have "lob_inv e buy (b'\<lparr>currState := None\<rparr>)"
          by (rule lob_inv_no_current) (simp_all add: a(2))
        ultimately obtain b'' r where
          b'': "SpotLimit_Peek e (b'\<lparr>currState := None\<rparr>) = Some (b'', r)" "lob_inv e buy b''" "same_view e b' b''"
          "case r of None \<Rightarrow> lob_pending e b'' = {} | Some l \<Rightarrow> lob_ready b'' l"
          using less.hyps [of "b'\<lparr>currState := None\<rparr>"] unfolding same_view_currState by blast
        then show ?thesis using peek_skip [OF a(1) Some] x True same_view_trans [OF a(3) b''(3)] by simp
      next
        case nf: False
        have "lob_inv e buy b'" using a(2) shows_best_current [OF a(2) sb x nf] by (simp add: lob_inv_def)
        then show ?thesis using peek_current [OF a(1) _ x nf] Some a(3) by simp
      qed
    qed
  qed
qed

section \<open>Fill\<close>

text \<open>Adding a fill to one entry of a fill table.\<close>

lemma bump_entry:
  fixes xs :: "(SpotLimitOrder \<times> dec) list"
  assumes i: "i < length xs" "xs ! i = (ord, q0)" and ys: "ys = xs[i := (ord, q0 + q)]"
  shows bump_fst: "map fst ys = map fst xs"
    and bump_sum: "sum_list (map snd ys) = sum_list (map snd xs) + q"
    and bump_set: "x \<in> set ys \<Longrightarrow> x = (ord, q0 + q) \<or> x \<in> set xs"
proof -
  show "map fst ys = map fst xs" using i unfolding ys by (simp add: map_update list_update_same_conv)
  show "sum_list (map snd ys) = sum_list (map snd xs) + q"
    using i unfolding ys by (simp add: map_update sum_list_update)
  show "x \<in> set ys \<Longrightarrow> x = (ord, q0 + q) \<or> x \<in> set xs"
    using set_update_subset_insert unfolding ys by fast
qed

lemma bump_touched:
  fixes xs :: "(SpotLimitOrder \<times> dec) list"
  assumes i: "i < length xs" "xs ! i = (ord, q0)" and ys: "ys = xs[i := (ord, q0 + q)]" and q: "0 < q" "0 \<le> q0"
  shows "touched_of ys = insert (lo_Price ord) (touched_of xs)"
proof (rule set_eqI)
  fix p
  have new: "(ord, q0 + q) \<in> set ys" using i unfolding ys by (simp add: set_update_memI)
  have old: "x \<in> set ys \<or> x = (ord, q0)" if "x \<in> set xs" for x
  proof -
    obtain j where j: "j < length xs" "x = xs ! j" using \<open>x \<in> set xs\<close> by (auto simp: in_set_conv_nth)
    show ?thesis
    proof (cases "j = i")
      case False
      then have "x = ys ! j" "j < length ys" using j unfolding ys by simp_all
      then show ?thesis by (auto simp: in_set_conv_nth)
    qed (use j i in simp)
  qed
  show "p \<in> touched_of ys \<longleftrightarrow> p \<in> insert (lo_Price ord) (touched_of xs)"
  proof
    assume "p \<in> touched_of ys"
    then show "p \<in> insert (lo_Price ord) (touched_of xs)"
      using bump_set [OF i ys] unfolding touched_of_def by force
  next
    assume "p \<in> insert (lo_Price ord) (touched_of xs)"
    then show "p \<in> touched_of ys"
      using old new q unfolding touched_of_def by force
  qed
qed

lemma bump_unfilled:
  fixes xs :: "(SpotLimitOrder \<times> dec) list"
  assumes i: "i < length xs" "xs ! i = (ord, q0)" and ys: "ys = xs[i := (ord, q0 + q)]" and nf: "q0 \<noteq> Fillable ord"
  shows "length (filter (\<lambda>x. \<not> is_full x) ys) + (if q0 + q = Fillable ord then 1 else 0) = length (filter (\<lambda>x. \<not> is_full x) xs)"
proof -
  have xs: "xs = take i xs @ (ord, q0) # drop (Suc i) xs" using i id_take_nth_drop by metis
  have ys': "ys = take i xs @ (ord, q0 + q) # drop (Suc i) xs" unfolding ys using i by (simp add: upd_conv_take_nth_drop)
  show ?thesis by (subst xs, subst ys') (simp add: nf)
qed

text \<open>Where a fill lands: on the last resting entry or on the transient entry at the index.\<close>

lemma currEntry_Some_resting:
  assumes "currState b = Some CurrResting" "currEntry b = Some x" "lens_ok (restingOrderbookFills b)"
  shows "rest_entries b \<noteq> [] \<and> last (rest_entries b) = x"
proof -
  have ne: "rest_entries b \<noteq> []"
    using assms by (cases "restingOrderbookFills b") (auto simp: currEntry_def getCurrIndex_def split: if_splits)
  then show ?thesis using currEntry_resting_eq [OF assms(3,1) ne] assms(2) by simp
qed

lemma currEntry_Some_transient:
  assumes "currState b = Some CurrTransient" "currEntry b = Some x" "lens_ok (transientOrderbookFills b)"
  shows "transientOrderIdx b < length (trans_entries b) \<and> trans_entries b ! transientOrderIdx b = x"
proof -
  have l: "transientOrderIdx b < length (trans_entries b)"
    using assms by (cases "transientOrderbookFills b")
      (auto simp: currEntry_def getCurrIndex_def currFills_def nth_opt_def split: if_splits)
  then show ?thesis using currEntry_transient_eq [OF assms(3,1) l] assms(2) by simp
qed

lemma SpotLimit_Fill_eq:
  assumes "currEntry b = Some (ord, q0)"
  obtains f idx where "currFills b = Some f" "getCurrIndex b = Some idx" "idx < length (FillQuantities f)"
    "SpotLimit_Fill D b q = Some ((setCurrFills b (f\<lparr>FillQuantities := (FillQuantities f)[idx := q0 + q]\<rparr>))
       \<lparr>notional := notional b + dec_mul D q (lo_Price ord), totalQuantity := totalQuantity b + q,
        currState := (if q0 + q = Fillable ord then None else currState b)\<rparr>)"
proof -
  obtain idx f where i: "getCurrIndex b = Some idx" "currFills b = Some f" "idx < length (fills_Orders f)"
    "idx < length (FillQuantities f)" "fills_Orders f ! idx = ord" "FillQuantities f ! idx = q0"
    using assms by (auto simp: currEntry_def bind_eq_Some_conv)
  have s: "notional (setCurrFills b g) = notional b" "totalQuantity (setCurrFills b g) = totalQuantity b"
    "currState (setCurrFills b g) = currState b" for g
    by (auto simp: setCurrFills_def split: option.splits curr_fills.splits)
  have "nth_opt (FillQuantities f) idx = Some q0" "nth_opt (fills_Orders f) idx = Some ord" using i by simp_all
  then have "SpotLimit_Fill D b q = Some ((setCurrFills b (f\<lparr>FillQuantities := (FillQuantities f)[idx := q0 + q]\<rparr>))
       \<lparr>notional := notional b + dec_mul D q (lo_Price ord), totalQuantity := totalQuantity b + q,
        currState := (if q0 + q = Fillable ord then None else currState b)\<rparr>)"
    unfolding SpotLimit_Fill_def i by (simp add: i s Let_def del: nth_opt_eq_Some)
  then show ?thesis by (rule that [OF i(2,1,4)])
qed

definition bumps :: "SpotLimitOrder \<Rightarrow> dec \<Rightarrow> dec \<Rightarrow> nat \<Rightarrow> (SpotLimitOrder \<times> dec) list \<Rightarrow> (SpotLimitOrder \<times> dec) list \<Rightarrow> bool" where
  "bumps ord q0 q i xs ys \<longleftrightarrow> i < length xs \<and> xs ! i = (ord, q0) \<and> ys = xs[i := (ord, q0 + q)]"

lemma Fill_tables:
  assumes e: "currEntry b = Some (ord, q0)"
    and lens: "lens_ok (restingOrderbookFills b)" "lens_ok (transientOrderbookFills b)"
  obtains b' where "SpotLimit_Fill D b q = Some b'" "totalQuantity b' = totalQuantity b + q" "isBuy b' = isBuy b"
    "restingOrderIterator b' = restingOrderIterator b" "transientOrderIdx b' = transientOrderIdx b"
    "currState b' = (if q0 + q = Fillable ord then None else currState b)"
    "lens_ok (restingOrderbookFills b')" "lens_ok (transientOrderbookFills b')"
    "restingOrderbookFills b' = None \<longleftrightarrow> restingOrderbookFills b = None"
    "currState b = Some CurrResting \<and> trans_entries b' = trans_entries b
       \<and> bumps ord q0 q (length (rest_entries b) - 1) (rest_entries b) (rest_entries b')
     \<or> currState b = Some CurrTransient \<and> rest_entries b' = rest_entries b
       \<and> bumps ord q0 q (transientOrderIdx b) (trans_entries b) (trans_entries b')"
proof -
  obtain f idx where f: "currFills b = Some f" "getCurrIndex b = Some idx" "idx < length (FillQuantities f)" and
    F: "SpotLimit_Fill D b q = Some ((setCurrFills b (f\<lparr>FillQuantities := (FillQuantities f)[idx := q0 + q]\<rparr>))
       \<lparr>notional := notional b + dec_mul D q (lo_Price ord), totalQuantity := totalQuantity b + q,
        currState := (if q0 + q = Fillable ord then None else currState b)\<rparr>)"
    using SpotLimit_Fill_eq [OF e] .
  obtain s where s: "currState b = Some s" using f(1) by (cases "currState b") (auto simp: currFills_def)
  show ?thesis
  proof (cases s)
    case CurrResting
    then have r: "restingOrderbookFills b = Some f" using f(1) s by (simp add: currFills_def)
    have l: "rest_entries b \<noteq> []" "last (rest_entries b) = (ord, q0)"
      using currEntry_Some_resting [OF _ e lens(1)] s CurrResting by auto
    have idx: "idx = length (rest_entries b) - 1"
      using f(2) s CurrResting r lens by (auto simp: getCurrIndex_def split: if_splits)
    have "bumps ord q0 q idx (rest_entries b) (zip (fills_Orders f) ((FillQuantities f)[idx := q0 + q]))"
      using l r lens f(3) idx zip_update [of "fills_Orders f" idx ord "FillQuantities f" "q0 + q"]
      by (auto simp: bumps_def last_conv_nth)
    then show ?thesis using lens r s CurrResting idx
      by (intro that [OF F]) (simp_all add: setCurrFills_def)
  next
    case CurrTransient
    then have r: "transientOrderbookFills b = Some f" using f(1) s by (simp add: currFills_def)
    have l: "transientOrderIdx b < length (trans_entries b)" "trans_entries b ! transientOrderIdx b = (ord, q0)"
      using currEntry_Some_transient [OF _ e lens(2)] s CurrTransient by auto
    have idx: "idx = transientOrderIdx b" using f(2) s CurrTransient by (simp add: getCurrIndex_def)
    have "bumps ord q0 q idx (trans_entries b) (zip (fills_Orders f) ((FillQuantities f)[idx := q0 + q]))"
      using l r lens f(3) idx zip_update [of "fills_Orders f" idx ord "FillQuantities f" "q0 + q"]
      by (auto simp: bumps_def)
    then show ?thesis using lens r s CurrTransient idx
      by (intro that [OF F]) (simp_all add: setCurrFills_def)
  qed
qed

lemma bumps_facts:
  assumes "bumps ord q0 q i xs ys"
  shows "map fst ys = map fst xs" "sum_list (map snd ys) = sum_list (map snd xs) + q"
    "x \<in> set ys \<Longrightarrow> x = (ord, q0 + q) \<or> x \<in> set xs"
    "0 < q \<Longrightarrow> 0 \<le> q0 \<Longrightarrow> touched_of ys = insert (lo_Price ord) (touched_of xs)"
    "q0 \<noteq> Fillable ord \<Longrightarrow> length (filter (\<lambda>x. \<not> is_full x) ys) + (if q0 + q = Fillable ord then 1 else 0)
       = length (filter (\<lambda>x. \<not> is_full x) xs)"
    "length ys = length xs"
  using assms bump_entry [of i xs ord q0 ys q] bump_touched [of i xs ord q0 ys q] bump_unfilled [of i xs ord q0 ys q]
  unfolding bumps_def by (blast, blast, blast, blast, blast, simp)

lemma bumps_all:
  assumes "bumps ord q0 q i xs ys" "\<forall>x \<in> set xs. P x" "P (ord, q0 + q)"
  shows "\<forall>x \<in> set ys. P x"
  using bumps_facts(3) [OF assms(1)] assms(2,3) by blast

text \<open>The changed table is one of the two; the other is untouched.\<close>

definition table_step :: "SpotLimitOrder \<Rightarrow> dec \<Rightarrow> dec \<Rightarrow> SpotLimitOrderbook \<Rightarrow> SpotLimitOrderbook \<Rightarrow> bool" where
  "table_step ord q0 q b b' \<longleftrightarrow>
     currState b = Some CurrResting \<and> trans_entries b' = trans_entries b
       \<and> bumps ord q0 q (length (rest_entries b) - 1) (rest_entries b) (rest_entries b')
     \<or> currState b = Some CurrTransient \<and> rest_entries b' = rest_entries b
       \<and> bumps ord q0 q (transientOrderIdx b) (trans_entries b) (trans_entries b')"

lemma table_step_cases:
  assumes "table_step ord q0 q b b'"
  obtains (rest) i where "trans_entries b' = trans_entries b" "bumps ord q0 q i (rest_entries b) (rest_entries b')"
  | (trans) i where "rest_entries b' = rest_entries b" "bumps ord q0 q i (trans_entries b) (trans_entries b')"
  using assms unfolding table_step_def by blast

lemma table_step_views:
  assumes t: "table_step ord q0 q b b'" and q: "0 < q" "0 \<le> q0" "q0 \<noteq> Fillable ord"
    and same: "restingOrderIterator b' = restingOrderIterator b" "isBuy b' = isBuy b"
  shows "map fst (rest_entries b') = map fst (rest_entries b)" "map fst (trans_entries b') = map fst (trans_entries b)"
    and "sum_list (map snd (rest_entries b')) + sum_list (map snd (trans_entries b')) =
      sum_list (map snd (rest_entries b)) + sum_list (map snd (trans_entries b)) + q"
    and "lob_touched b' = insert (lo_Price ord) (lob_touched b)"
    and "lob_left b' + (if q0 + q = Fillable ord then 1 else 0) = lob_left b"
    and "lob_book e b' = lob_book e b"
    and "lo_Price ord \<in> lob_pending e b \<Longrightarrow> lob_pending e b' \<subseteq> lob_pending e b"
proof -
  show m: "map fst (rest_entries b') = map fst (rest_entries b)" "map fst (trans_entries b') = map fst (trans_entries b)"
    using t by (cases rule: table_step_cases; simp add: bumps_facts(1))+
  show "sum_list (map snd (rest_entries b')) + sum_list (map snd (trans_entries b')) =
      sum_list (map snd (rest_entries b)) + sum_list (map snd (trans_entries b)) + q"
    using t by (cases rule: table_step_cases) (simp_all add: bumps_facts(2))
  show "lob_touched b' = insert (lo_Price ord) (lob_touched b)"
    using t by (cases rule: table_step_cases) (simp_all add: lob_touched_def bumps_facts(4) [OF _ q(1,2)])
  show "lob_left b' + (if q0 + q = Fillable ord then 1 else 0) = lob_left b"
    using t
  proof (cases rule: table_step_cases)
    case (rest i)
    show ?thesis using bumps_facts(5) [OF rest(2) q(3)] rest(1) same unfolding lob_left_def by simp
  next
    case (trans i)
    show ?thesis using bumps_facts(5) [OF trans(2) q(3)] trans(1) same unfolding lob_left_def by simp
  qed
  show "lob_book e b' = lob_book e b" using m same by (simp add: lob_book_def)
  show "lob_pending e b' \<subseteq> lob_pending e b" if pe: "lo_Price ord \<in> lob_pending e b"
  proof
    fix p assume "p \<in> lob_pending e b'"
    then consider x where "x \<in> set (rest_entries b')" "\<not> is_full x" "p = lo_Price (fst x)"
      | ord' where "ord' \<in> set (restingOrderIterator b)" "\<not> is_paused e ord'" "Fillable ord' \<noteq> 0" "p = lo_Price ord'"
      | x where "x \<in> set (trans_entries b')" "\<not> is_full x" "\<not> is_paused e (fst x)" "p = lo_Price (fst x)"
      unfolding lob_pending_iff same by blast
    then show "p \<in> lob_pending e b"
    proof cases
      case (1 x)
      from t have "x \<in> set (rest_entries b) \<or> fst x = ord"
        by (cases rule: table_step_cases) (use 1 bumps_facts(3) in fastforce)+
      then show ?thesis using 1 pe lob_pending_iff by blast
    next
      case 2
      then show ?thesis using lob_pending_iff by blast
    next
      case (3 x)
      from t have "x \<in> set (trans_entries b) \<or> fst x = ord"
        by (cases rule: table_step_cases) (use 3 bumps_facts(3) in fastforce)+
      then show ?thesis using 3 pe lob_pending_iff by blast
    qed
  qed
qed

lemma table_step_base:
  assumes base: "lob_base e buy b" and t: "table_step ord q0 q b b'"
    and q: "0 < q" "0 \<le> q0" "q0 + q \<le> Fillable ord" and n: "q0 \<noteq> Fillable ord"
    and same: "restingOrderIterator b' = restingOrderIterator b" "isBuy b' = isBuy b"
      "transientOrderIdx b' = transientOrderIdx b" "totalQuantity b' = totalQuantity b + q"
      "lens_ok (restingOrderbookFills b')" "lens_ok (transientOrderbookFills b')"
      "restingOrderbookFills b' = None \<longleftrightarrow> restingOrderbookFills b = None"
    and best: "lo_Price ord \<in> lob_pending e b" "\<forall>p \<in> lob_pending e b. good buy (lo_Price ord) p"
  shows "lob_base e buy b'"
proof -
  note v = table_step_views [OF t q(1,2) n same(1,2)]
  have ok: "entry_ok (ord, q0 + q)" using q by simp
  have m: "set (map fst (rest_entries b')) = set (map fst (rest_entries b))" using v(1) by simp
  have "\<forall>x \<in> set (rest_entries b'). entry_ok x" "\<forall>x \<in> set (trans_entries b'). entry_ok x"
    using t base ok by (cases rule: table_step_cases; auto simp: lob_base_def dest: bumps_facts(3))+
  moreover have "\<forall>x \<in> set (rest_entries b'). \<not> is_paused e (fst x)"
  proof
    fix x assume "x \<in> set (rest_entries b')"
    then have "fst x \<in> fst ` set (rest_entries b)" using m by auto
    then show "\<not> is_paused e (fst x)" using base by (auto simp: lob_base_def)
  qed
  moreover have "butlast (rest_entries b') = butlast (rest_entries b)"
    using t by (auto simp: table_step_def bumps_def butlast_list_update)
  moreover have "take (transientOrderIdx b) (trans_entries b') = take (transientOrderIdx b) (trans_entries b)"
    "length (trans_entries b') = length (trans_entries b)"
    using t by (auto simp: table_step_def bumps_def)
  moreover have "\<forall>p \<in> lob_touched b'. \<forall>q \<in> lob_pending e b'. good buy p q"
  proof -
    have "\<forall>p \<in> lob_touched b. \<forall>q \<in> lob_pending e b. good buy p q" using base unfolding lob_base_def by blast
    then show ?thesis using best(2) v(7) [OF best(1)] unfolding v(4) by blast
  qed
  ultimately show ?thesis using base same v(1-3) by (simp add: lob_base_def)
qed

lemma currEntry_pending:
  assumes base: "lob_base e buy b" and e: "currEntry b = Some (ord, q)" "q \<noteq> Fillable ord" "\<not> is_paused e ord"
  shows "lo_Price ord \<in> lob_pending e b" "0 \<le> q"
proof -
  have lens: "lens_ok (restingOrderbookFills b)" "lens_ok (transientOrderbookFills b)"
    and ok: "\<forall>x \<in> set (rest_entries b). entry_ok x" "\<forall>x \<in> set (trans_entries b). entry_ok x"
    using base unfolding lob_base_def by blast+
  obtain s where s: "currState b = Some s" using e(1) by (cases "currState b") (auto simp: currEntry_def getCurrIndex_def)
  have m: "(ord, q) \<in> set (rest_entries b) \<or> (ord, q) \<in> set (trans_entries b)"
  proof (cases s)
    case CurrResting
    then show ?thesis using currEntry_Some_resting [OF _ e(1) lens(1)] s last_in_set [of "rest_entries b"] by simp
  next
    case CurrTransient
    then show ?thesis using currEntry_Some_transient [OF _ e(1) lens(2)] s
        nth_mem [of "transientOrderIdx b" "trans_entries b"] by simp
  qed
  then show "0 \<le> q" using ok by auto
  have "\<not> is_full (ord, q)" using e(2) by simp
  then show "lo_Price ord \<in> lob_pending e b" using m e(3) lob_pending_iff by (metis fst_conv)
qed

lemma table_step_currEntry:
  assumes t: "table_step ord q0 q b b'" and c: "currState b' = currState b"
    and s: "transientOrderIdx b' = transientOrderIdx b"
      "lens_ok (restingOrderbookFills b')" "lens_ok (transientOrderbookFills b')"
  shows "currEntry b' = Some (ord, q0 + q)"
  using t unfolding table_step_def bumps_def
proof (elim disjE conjE)
  assume r: "currState b = Some CurrResting" "length (rest_entries b) - 1 < length (rest_entries b)"
    "rest_entries b' = (rest_entries b)[length (rest_entries b) - 1 := (ord, q0 + q)]"
  moreover from this have "rest_entries b \<noteq> []" by auto
  ultimately have "rest_entries b' \<noteq> []" "last (rest_entries b') = (ord, q0 + q)"
    by (simp_all add: last_list_update)
  then show ?thesis using currEntry_resting_eq [OF s(2)] c r(1) by simp
next
  assume "currState b = Some CurrTransient" "transientOrderIdx b < length (trans_entries b)"
    "trans_entries b' = (trans_entries b)[transientOrderIdx b := (ord, q0 + q)]"
  then show ?thesis using currEntry_transient_eq [OF s(3)] c s(1) by simp
qed

lemma SpotLimit_Fill_spec:
  assumes inv: "lob_inv e buy b" and ready: "lob_ready b l" and q: "0 < q" "q \<le> lvl_Quantity l"
  obtains b' where "SpotLimit_Fill D b q = Some b'" "lob_inv e buy b'" "totalQuantity b' = totalQuantity b + q"
    "lob_touched b' = insert (lvl_Price l) (lob_touched b)" "lob_book e b' = lob_book e b"
    "lob_left b' + (if q = lvl_Quantity l then 1 else 0) = lob_left b"
proof -
  have base: "lob_base e buy b" using inv by (simp add: lob_inv_def)
  obtain ord q0 where e: "currEntry b = Some (ord, q0)" "q0 < Fillable ord" "\<not> is_paused e ord"
    "\<forall>p \<in> lob_pending e b. good buy (lo_Price ord) p" "\<forall>p \<in> lob_touched b. good buy p (lo_Price ord)"
    using inv ready unfolding lob_inv_def lob_current_def lob_ready_def by blast
  then have l: "lvl_Price l = lo_Price ord" "lvl_Quantity l = Fillable ord - q0"
    using ready unfolding lob_ready_def by auto
  have n: "q0 \<noteq> Fillable ord" and q': "q0 + q \<le> Fillable ord" using e(2) q(2) l by simp_all
  note pe = currEntry_pending [OF base e(1) n e(3)]
  have lens: "lens_ok (restingOrderbookFills b)" "lens_ok (transientOrderbookFills b)"
    using base unfolding lob_base_def by blast+
  obtain b' where b': "SpotLimit_Fill D b q = Some b'" "totalQuantity b' = totalQuantity b + q" "isBuy b' = isBuy b"
    "restingOrderIterator b' = restingOrderIterator b" "transientOrderIdx b' = transientOrderIdx b"
    "currState b' = (if q0 + q = Fillable ord then None else currState b)"
    "lens_ok (restingOrderbookFills b')" "lens_ok (transientOrderbookFills b')"
    "restingOrderbookFills b' = None \<longleftrightarrow> restingOrderbookFills b = None"
    and t: "table_step ord q0 q b b'"
    using Fill_tables [OF e(1) lens] unfolding table_step_def by blast
  note v = table_step_views [OF t q(1) pe(2) n b'(4,3)]
  have base': "lob_base e buy b'"
    using table_step_base [OF base t q(1) pe(2) q' n b'(4,3,5,2,7,8,9) pe(1) e(4)] .
  have "lob_current e buy b'"
  proof (cases "q0 + q = Fillable ord")
    case True
    then show ?thesis using b'(6) by (simp add: lob_current_def)
  next
    case False
    then have "currEntry b' = Some (ord, q0 + q)" using table_step_currEntry [OF t _ b'(5,7,8)] b'(6) by simp
    moreover have "\<forall>p \<in> lob_pending e b'. good buy (lo_Price ord) p" using e(4) v(7) [OF pe(1)] by blast
    moreover have "\<forall>p \<in> lob_touched b'. good buy p (lo_Price ord)" using e(5) unfolding v(4) by simp
    ultimately show ?thesis using q' False e(3) unfolding lob_current_def by auto
  qed
  then have "lob_inv e buy b'" using base' by (simp add: lob_inv_def)
  moreover have "lob_left b' + (if q = lvl_Quantity l then 1 else 0) = lob_left b"
  proof -
    have "q = lvl_Quantity l \<longleftrightarrow> q0 + q = Fillable ord" using l by auto
    then show ?thesis using v(5) by simp
  qed
  ultimately show ?thesis using that [OF b'(1) _ b'(2)] v(4,6) l(1) by simp
qed

section \<open>The limit book is an order book\<close>

interpretation limit: orderbook "SpotLimit_Peek e" "SpotLimit_Fill D" SpotLimit_GetTotalQuantityFilled
  "lob_inv e buy" buy lob_touched "lob_pending e" lob_left lob_ready "lob_book e" for e D buy
proof
  fix b l q
  show "lob_inv e buy b \<Longrightarrow> \<exists>b' r. SpotLimit_Peek e b = Some (b', r) \<and> lob_inv e buy b'
      \<and> SpotLimit_GetTotalQuantityFilled b' = SpotLimit_GetTotalQuantityFilled b
      \<and> lob_touched b' = lob_touched b \<and> lob_left b' \<le> lob_left b \<and> lob_book e b' = lob_book e b
      \<and> (case r of None \<Rightarrow> lob_pending e b' = {} | Some l \<Rightarrow> lob_ready b' l)"
    using SpotLimit_Peek_spec [of e buy b] unfolding same_view_def SpotLimit_GetTotalQuantityFilled_def by blast
  show "0 < lvl_Quantity l
      \<and> (\<forall>p \<in> lob_touched b. good buy p (lvl_Price l)) \<and> (\<forall>p \<in> lob_pending e b. good buy (lvl_Price l) p)"
    if inv: "lob_inv e buy b" and rd: "lob_ready b l"
  proof -
    obtain s ord q where "currState b = Some s" "currEntry b = Some (ord, q)"
      "l = \<lparr>lvl_Price = lo_Price ord, lvl_Quantity = Fillable ord - q\<rparr>"
      using rd unfolding lob_ready_def by blast
    then show ?thesis using inv unfolding lob_inv_def lob_current_def by auto
  qed
  show "\<exists>b'. SpotLimit_Fill D b q = Some b' \<and> lob_inv e buy b'
      \<and> SpotLimit_GetTotalQuantityFilled b' = SpotLimit_GetTotalQuantityFilled b + q
      \<and> lob_touched b' = insert (lvl_Price l) (lob_touched b) \<and> lob_book e b' = lob_book e b
      \<and> lob_left b' \<le> lob_left b \<and> (q = lvl_Quantity l \<longrightarrow> lob_left b' < lob_left b)"
    if h: "lob_inv e buy b" "lob_ready b l" "0 < q" "q \<le> lvl_Quantity l"
  proof -
    obtain b' where b': "SpotLimit_Fill D b q = Some b'" "lob_inv e buy b'" "totalQuantity b' = totalQuantity b + q"
      "lob_touched b' = insert (lvl_Price l) (lob_touched b)" "lob_book e b' = lob_book e b"
      "lob_left b' + (if q = lvl_Quantity l then 1 else 0) = lob_left b"
      using SpotLimit_Fill_spec [OF h] .
    then have "lob_left b' \<le> lob_left b \<and> (q = lvl_Quantity l \<longrightarrow> lob_left b' < lob_left b)"
      by (auto split: if_splits)
    then show ?thesis using b'(1-5) unfolding SpotLimit_GetTotalQuantityFilled_def by blast
  qed
qed

section \<open>The market book is an order book\<close>

definition mob_open :: "SpotMarketOrderbook \<Rightarrow> nat set" where
  "mob_open b = {i. i < length (mob_orders b) \<and> mob_fillQuantities b ! i \<noteq> mo_Quantity (mob_orders b ! i)}"

definition mob_pending :: "SpotMarketOrderbook \<Rightarrow> dec set" where
  "mob_pending b = (\<lambda>i. mo_Price (mob_orders b ! i)) ` mob_open b"

definition mob_touched :: "SpotMarketOrderbook \<Rightarrow> dec set" where
  "mob_touched b = (\<lambda>i. mo_Price (mob_orders b ! i)) ` {i. i < length (mob_orders b) \<and> 0 < mob_fillQuantities b ! i}"

definition mob_left :: "SpotMarketOrderbook \<Rightarrow> nat" where
  "mob_left b = card (mob_open b)"

definition mob_inv :: "bool \<Rightarrow> SpotMarketOrderbook \<Rightarrow> bool" where
  "mob_inv buy b \<longleftrightarrow> length (mob_fillQuantities b) = length (mob_orders b)
     \<and> mob_orderIdx b \<le> length (mob_orders b)
     \<and> (\<forall>i < length (mob_orders b). 0 \<le> mob_fillQuantities b ! i \<and> mob_fillQuantities b ! i \<le> mo_Quantity (mob_orders b ! i))
     \<and> (\<forall>i < mob_orderIdx b. mob_fillQuantities b ! i = mo_Quantity (mob_orders b ! i))
     \<and> (\<forall>i < length (mob_orders b). mob_orderIdx b < i \<longrightarrow> mob_fillQuantities b ! i = 0)
     \<and> sorted_wrt (\<lambda>x y. good buy (mo_Price x) (mo_Price y)) (mob_orders b)
     \<and> mob_totalQuantity b = sum_list (mob_fillQuantities b)"

definition mob_ready :: "SpotMarketOrderbook \<Rightarrow> PriceLevel \<Rightarrow> bool" where
  "mob_ready b l \<longleftrightarrow> mob_orderIdx b \<in> mob_open b
     \<and> lvl_Price l = mo_Price (mob_orders b ! mob_orderIdx b)
     \<and> lvl_Quantity l = mo_Quantity (mob_orders b ! mob_orderIdx b) - mob_fillQuantities b ! mob_orderIdx b"

lemma mob_open_finite [simp]: "finite (mob_open b)"
  by (simp add: mob_open_def)

lemma mob_view_idx [simp]:
  "mob_open (b\<lparr>mob_orderIdx := i\<rparr>) = mob_open b" "mob_touched (b\<lparr>mob_orderIdx := i\<rparr>) = mob_touched b"
  "mob_pending (b\<lparr>mob_orderIdx := i\<rparr>) = mob_pending b" "mob_left (b\<lparr>mob_orderIdx := i\<rparr>) = mob_left b"
  by (simp_all add: mob_open_def mob_touched_def mob_pending_def mob_left_def)

lemma SpotMarket_Peek_spec:
  "mob_inv buy b \<Longrightarrow> \<exists>i r. SpotMarket_Peek b = Some (b\<lparr>mob_orderIdx := i\<rparr>, r) \<and> mob_inv buy (b\<lparr>mob_orderIdx := i\<rparr>)
     \<and> (case r of None \<Rightarrow> mob_open b = {} | Some l \<Rightarrow> mob_ready (b\<lparr>mob_orderIdx := i\<rparr>) l)"
proof (induction "length (mob_orders b) - mob_orderIdx b" arbitrary: b rule: less_induct)
  case less
  let ?i = "mob_orderIdx b"
  have same: "b\<lparr>mob_orderIdx := ?i\<rparr> = b" by simp
  show ?case
  proof (cases "?i < length (mob_orders b)")
    case False
    then have "?i = length (mob_orders b)" using less.prems by (simp add: mob_inv_def)
    then have "SpotMarket_Peek b = Some (b, None)" "mob_open b = {}"
      using less.prems by (auto simp: SpotMarket_Peek.simps [of b] SpotMarket_Done_def mob_open_def mob_inv_def)
    then show ?thesis using less.prems same by (intro exI [of _ ?i] exI [of _ None]) simp
  next
    case True
    let ?q = "mob_fillQuantities b ! ?i" and ?o = "mob_orders b ! ?i"
    have step: "SpotMarket_Peek b = (if ?q = mo_Quantity ?o then SpotMarket_Peek (b\<lparr>mob_orderIdx := ?i + 1\<rparr>)
        else Some (b, Some \<lparr>lvl_Price = mo_Price ?o, lvl_Quantity = mo_Quantity ?o - ?q\<rparr>))"
      using True less.prems
      by (subst SpotMarket_Peek.simps) (simp add: SpotMarket_Done_def mob_inv_def nth_opt_def)
    show ?thesis
    proof (cases "?q = mo_Quantity ?o")
      case full: True
      let ?b = "b\<lparr>mob_orderIdx := ?i + 1\<rparr>"
      have "mob_inv buy ?b" using less.prems True full by (auto simp: mob_inv_def less_Suc_eq)
      then obtain i r where "SpotMarket_Peek ?b = Some (?b\<lparr>mob_orderIdx := i\<rparr>, r)" "mob_inv buy (?b\<lparr>mob_orderIdx := i\<rparr>)"
        "case r of None \<Rightarrow> mob_open ?b = {} | Some l \<Rightarrow> mob_ready (?b\<lparr>mob_orderIdx := i\<rparr>) l"
        using less.hyps [of ?b] True by (auto simp: diff_less_mono2)
      then show ?thesis using step full by (intro exI [of _ i] exI [of _ r]) (cases r; simp)
    next
      case False
      then show ?thesis using step True less.prems same
        by (intro exI [of _ ?i] exI [of _ "Some \<lparr>lvl_Price = mo_Price ?o, lvl_Quantity = mo_Quantity ?o - ?q\<rparr>"])
          (simp add: mob_ready_def mob_open_def)
    qed
  qed
qed

lemma mob_ready_level:
  assumes inv: "mob_inv buy b" and rd: "mob_ready b l"
  shows "0 < lvl_Quantity l \<and> (\<forall>p \<in> mob_touched b. good buy p (lvl_Price l)) \<and> (\<forall>p \<in> mob_pending b. good buy (lvl_Price l) p)"
proof -
  let ?i = "mob_orderIdx b"
  have so: "good buy (mo_Price (mob_orders b ! i)) (mo_Price (mob_orders b ! j))" if "i \<le> j" "j < length (mob_orders b)" for i j
    using inv that by (cases "i = j") (auto simp: mob_inv_def sorted_wrt_iff_nth_less)
  have i: "?i < length (mob_orders b)" using rd by (simp add: mob_ready_def mob_open_def)
  have "i \<le> ?i" if "i < length (mob_orders b)" "0 < mob_fillQuantities b ! i" for i
    using inv that unfolding mob_inv_def by (metis less_irrefl not_le)
  then have "\<forall>p \<in> mob_touched b. good buy p (lvl_Price l)"
    using rd so i by (auto simp: mob_touched_def mob_ready_def)
  moreover have "?i \<le> i" if "i \<in> mob_open b" for i
    using inv that unfolding mob_inv_def mob_open_def by (metis (mono_tags, lifting) mem_Collect_eq not_le)
  then have "\<forall>p \<in> mob_pending b. good buy (lvl_Price l) p"
    using rd so by (auto simp: mob_pending_def mob_ready_def mob_open_def)
  moreover have "mob_fillQuantities b ! ?i \<le> mo_Quantity (mob_orders b ! ?i)"
    using inv i by (simp add: mob_inv_def)
  ultimately show ?thesis using rd by (auto simp: mob_ready_def mob_open_def)
qed

lemma SpotMarket_Fill_spec:
  assumes inv: "mob_inv buy b" and rd: "mob_ready b l" and q: "0 < q" "q \<le> lvl_Quantity l"
  obtains b' where "SpotMarket_Fill D b q = Some b'" "mob_inv buy b'" "mob_totalQuantity b' = mob_totalQuantity b + q"
    "mob_touched b' = insert (lvl_Price l) (mob_touched b)" "mob_orders b' = mob_orders b"
    "mob_open b' = (if q = lvl_Quantity l then mob_open b - {mob_orderIdx b} else mob_open b)"
proof -
  let ?i = "mob_orderIdx b" and ?fq = "mob_fillQuantities b"
  define b' where "b' = b\<lparr>mob_fillQuantities := ?fq[?i := ?fq ! ?i + q],
      mob_notional := mob_notional b + dec_mul D q (mo_Price (mob_orders b ! ?i)),
      mob_totalQuantity := mob_totalQuantity b + q\<rparr>"
  have i: "?i < length (mob_orders b)" "?i < length ?fq" using inv rd by (auto simp: mob_ready_def mob_open_def mob_inv_def)
  have F: "SpotMarket_Fill D b q = Some b'" using i by (simp add: SpotMarket_Fill_def nth_opt_def b'_def)
  have fq': "mob_fillQuantities b' ! j = (if j = ?i then ?fq ! ?i + q else ?fq ! j)" for j
    using i by (simp add: b'_def)
  have o': "mob_orders b' = mob_orders b" "mob_orderIdx b' = ?i" "length (mob_fillQuantities b') = length ?fq"
    "mob_totalQuantity b' = mob_totalQuantity b + q" by (simp_all add: b'_def)
  have nn: "0 \<le> ?fq ! ?i" using inv i by (simp add: mob_inv_def)
  have s: "sum_list (mob_fillQuantities b') = sum_list ?fq + q"
    using i by (simp add: b'_def sum_list_update)
  have "mob_inv buy b'" using inv rd q i unfolding mob_inv_def o' s
    by (auto simp: fq' mob_ready_def)
  moreover have "mob_touched b' = insert (lvl_Price l) (mob_touched b)"
  proof -
    have "{j. j < length (mob_orders b) \<and> 0 < mob_fillQuantities b' ! j} = insert ?i {j. j < length (mob_orders b) \<and> 0 < ?fq ! j}"
      using nn q i by (auto simp: fq')
    then show ?thesis using rd by (simp add: mob_touched_def o' mob_ready_def)
  qed
  moreover have "mob_open b' = (if q = lvl_Quantity l then mob_open b - {?i} else mob_open b)"
    using rd i by (auto simp: mob_open_def o' fq' mob_ready_def)
  ultimately show ?thesis using that [OF F] o' by blast
qed

interpretation market: orderbook SpotMarket_Peek "SpotMarket_Fill D" SpotMarket_GetTotalQuantityFilled
  "mob_inv buy" buy mob_touched mob_pending mob_left mob_ready mob_orders for D buy
proof
  fix b l q
  show "\<exists>b' r. SpotMarket_Peek b = Some (b', r) \<and> mob_inv buy b'
      \<and> SpotMarket_GetTotalQuantityFilled b' = SpotMarket_GetTotalQuantityFilled b
      \<and> mob_touched b' = mob_touched b \<and> mob_left b' \<le> mob_left b \<and> mob_orders b' = mob_orders b
      \<and> (case r of None \<Rightarrow> mob_pending b' = {} | Some l \<Rightarrow> mob_ready b' l)" if inv: "mob_inv buy b"
  proof -
    obtain i r where p: "SpotMarket_Peek b = Some (b\<lparr>mob_orderIdx := i\<rparr>, r)" "mob_inv buy (b\<lparr>mob_orderIdx := i\<rparr>)"
      "case r of None \<Rightarrow> mob_open b = {} | Some l \<Rightarrow> mob_ready (b\<lparr>mob_orderIdx := i\<rparr>) l"
      using SpotMarket_Peek_spec [OF inv] by blast
    then have "case r of None \<Rightarrow> mob_pending (b\<lparr>mob_orderIdx := i\<rparr>) = {} | Some l \<Rightarrow> mob_ready (b\<lparr>mob_orderIdx := i\<rparr>) l"
      by (cases r) (simp_all add: mob_pending_def)
    then show ?thesis using p by (intro exI [of _ "b\<lparr>mob_orderIdx := i\<rparr>"] exI [of _ r])
        (simp add: SpotMarket_GetTotalQuantityFilled_def)
  qed
  show "mob_inv buy b \<Longrightarrow> mob_ready b l \<Longrightarrow> 0 < lvl_Quantity l
      \<and> (\<forall>p \<in> mob_touched b. good buy p (lvl_Price l)) \<and> (\<forall>p \<in> mob_pending b. good buy (lvl_Price l) p)"
    by (rule mob_ready_level)
  show "\<exists>b'. SpotMarket_Fill D b q = Some b' \<and> mob_inv buy b'
      \<and> SpotMarket_GetTotalQuantityFilled b' = SpotMarket_GetTotalQuantityFilled b + q
      \<and> mob_touched b' = insert (lvl_Price l) (mob_touched b) \<and> mob_orders b' = mob_orders b
      \<and> mob_left b' \<le> mob_left b \<and> (q = lvl_Quantity l \<longrightarrow> mob_left b' < mob_left b)"
    if h: "mob_inv buy b" "mob_ready b l" "0 < q" "q \<le> lvl_Quantity l"
  proof -
    obtain b' where b': "SpotMarket_Fill D b q = Some b'" "mob_inv buy b'" "mob_totalQuantity b' = mob_totalQuantity b + q"
      "mob_touched b' = insert (lvl_Price l) (mob_touched b)" "mob_orders b' = mob_orders b"
      "mob_open b' = (if q = lvl_Quantity l then mob_open b - {mob_orderIdx b} else mob_open b)"
      using SpotMarket_Fill_spec [OF h] .
    have "mob_orderIdx b \<in> mob_open b" using h(2) by (simp add: mob_ready_def)
    then have "mob_left b' \<le> mob_left b \<and> (q = lvl_Quantity l \<longrightarrow> mob_left b' < mob_left b)"
      using b'(6) card_Diff1_less [of "mob_open b" "mob_orderIdx b"] unfolding mob_left_def by auto
    then show ?thesis using b' unfolding SpotMarket_GetTotalQuantityFilled_def by blast
  qed
qed

end
