(* ===== verification/Batch_Auction.thy ===== *)
theory Batch_Auction
  imports Spot_Book_Laws
begin

text \<open>
  The frequent batch auction: the clearing price strategies (\<^verbatim>\<open>exchange/fba/clearing_price.go\<close>), the
  matching loop (\<^verbatim>\<open>Match\<close> of \<^verbatim>\<open>exchange/fba/executor.go\<close> and \<^verbatim>\<open>MatchSpotOrderbooks\<close> of
  \<^verbatim>\<open>exchange/keeper/spot/order_matching.go\<close>), and the construction of the books of a spot market
  (\<^verbatim>\<open>exchange/fba/spot_executor.go\<close>). The Go interface of an order book is a record of its methods;
  the loop is a \<open>partial_function\<close>, and the locale \<open>batch_auction\<close> proves that it returns for any two
  books that keep the contract of \<open>Orderbook_Spec\<close>.
\<close>

section \<open>Clearing price strategies\<close>

definition midpointPrice :: "dec_ops \<Rightarrow> dec \<Rightarrow> dec \<Rightarrow> dec" where
  "midpointPrice D lastBuyPrice lastSellPrice = dec_quo D (lastBuyPrice + lastSellPrice) (LegacyNewDec 2)"

definition selectPriceByReference :: "dec \<Rightarrow> dec \<Rightarrow> dec \<Rightarrow> dec" where
  "selectPriceByReference lastBuyPrice lastSellPrice referencePrice =
     (if lastBuyPrice \<le> referencePrice then lastBuyPrice
      else if referencePrice \<le> lastSellPrice then lastSellPrice
      else referencePrice)"

record SpotClearingPriceStrategy =
  spot_midMarketPrice :: "dec option"

definition Spot_Calculate :: "dec_ops \<Rightarrow> SpotClearingPriceStrategy \<Rightarrow> dec \<Rightarrow> dec \<Rightarrow> dec \<Rightarrow> dec" where
  "Spot_Calculate D s lastBuyPrice lastSellPrice clearingQuantity =
     (if \<not> 0 < clearingQuantity then 0
      else case spot_midMarketPrice s of
          Some mid \<Rightarrow> selectPriceByReference lastBuyPrice lastSellPrice mid
        | None \<Rightarrow> midpointPrice D lastBuyPrice lastSellPrice)"

text \<open>\<open>markPrice\<close> is the nil decimal when it is \<^term>\<open>None\<close>.\<close>

record DerivativeClearingPriceStrategy =
  markPrice :: "dec option"
  deriv_midMarketPrice :: "dec option"

definition calculateRegular :: "DerivativeClearingPriceStrategy \<Rightarrow> dec \<Rightarrow> dec \<Rightarrow> dec \<Rightarrow> dec" where
  "calculateRegular s mid lastBuyPrice lastSellPrice =
     (if lastBuyPrice \<le> mid then lastBuyPrice
      else if mid \<le> lastSellPrice then lastSellPrice
      else case markPrice s of
          Some mark \<Rightarrow> selectPriceByReference lastBuyPrice lastSellPrice mark
        | None \<Rightarrow> mid)"

definition Derivative_Calculate :: "dec_ops \<Rightarrow> DerivativeClearingPriceStrategy \<Rightarrow> dec \<Rightarrow> dec \<Rightarrow> dec \<Rightarrow> dec" where
  "Derivative_Calculate D s lastBuyPrice lastSellPrice clearingQuantity =
     (if \<not> 0 < clearingQuantity then 0
      else case (deriv_midMarketPrice s, markPrice s) of
          (None, None) \<Rightarrow> midpointPrice D lastBuyPrice lastSellPrice
        | (None, Some mark) \<Rightarrow> selectPriceByReference lastBuyPrice lastSellPrice mark
        | (Some mid, _) \<Rightarrow> calculateRegular s mid lastBuyPrice lastSellPrice)"

section \<open>The matching loop\<close>

record 'b Orderbook =
  ob_Peek :: "'b \<Rightarrow> ('b \<times> PriceLevel option) option"
  ob_Fill :: "'b \<Rightarrow> dec \<Rightarrow> 'b option"
  ob_GetTotalQuantityFilled :: "'b \<Rightarrow> dec"

record MatchResult =
  ClearingPrice :: dec
  ClearingQuantity :: dec
  LastBuyPrice :: dec
  LastSellPrice :: dec

definition EmptyMatchResult :: MatchResult where
  "EmptyMatchResult = \<lparr>ClearingPrice = 0, ClearingQuantity = 0, LastBuyPrice = 0, LastSellPrice = 0\<rparr>"

partial_function (option) matchLoop ::
  "'b Orderbook \<Rightarrow> 's Orderbook \<Rightarrow> 'b \<Rightarrow> 's \<Rightarrow> dec \<Rightarrow> dec \<Rightarrow> ('b \<times> 's \<times> dec \<times> dec) option" where
  "matchLoop BO SO b s lastBuyPrice lastSellPrice = do {
     (b, buyOrder) \<leftarrow> ob_Peek BO b;
     (s, sellOrder) \<leftarrow> ob_Peek SO s;
     (case (buyOrder, sellOrder) of
        (Some bl, Some sl) \<Rightarrow>
          (let unitSpread = lvl_Price sl - lvl_Price bl;
               matchQuantityIncrement = min (lvl_Quantity bl) (lvl_Quantity sl)
           in if 0 < unitSpread \<or> matchQuantityIncrement = 0
              then Some (b, s, lastBuyPrice, lastSellPrice)
              else do {
                b \<leftarrow> ob_Fill BO b matchQuantityIncrement;
                s \<leftarrow> ob_Fill SO s matchQuantityIncrement;
                matchLoop BO SO b s (lvl_Price bl) (lvl_Price sl)
              })
      | _ \<Rightarrow> Some (b, s, lastBuyPrice, lastSellPrice))
   }"

definition Match ::
  "'b Orderbook \<Rightarrow> 's Orderbook \<Rightarrow> 'b \<Rightarrow> 's \<Rightarrow> (dec \<Rightarrow> dec \<Rightarrow> dec \<Rightarrow> dec) \<Rightarrow> ('b \<times> 's \<times> MatchResult) option" where
  "Match BO SO buyOrderbook sellOrderbook Calculate = do {
     (b, s, lastBuyPrice, lastSellPrice) \<leftarrow> matchLoop BO SO buyOrderbook sellOrderbook 0 0;
     let clearingQuantity = ob_GetTotalQuantityFilled SO s;
     let clearingPrice = Calculate lastBuyPrice lastSellPrice clearingQuantity;
     Some (b, s, \<lparr>ClearingPrice = clearingPrice, ClearingQuantity = clearingQuantity,
                  LastBuyPrice = lastBuyPrice, LastSellPrice = lastSellPrice\<rparr>)
   }"

text \<open>\<^verbatim>\<open>MatchSpotOrderbooks\<close> is the same loop without the record of the last prices.\<close>

partial_function (option) MatchSpotOrderbooks ::
  "'b Orderbook \<Rightarrow> 's Orderbook \<Rightarrow> 'b \<Rightarrow> 's \<Rightarrow> ('b \<times> 's) option" where
  "MatchSpotOrderbooks BO SO b s = do {
     (b, buyOrder) \<leftarrow> ob_Peek BO b;
     (s, sellOrder) \<leftarrow> ob_Peek SO s;
     (case (buyOrder, sellOrder) of
        (Some bl, Some sl) \<Rightarrow>
          (let unitSpread = lvl_Price sl - lvl_Price bl;
               matchQuantityIncrement = min (lvl_Quantity bl) (lvl_Quantity sl)
           in if 0 < unitSpread \<or> matchQuantityIncrement = 0
              then Some (b, s)
              else do {
                b \<leftarrow> ob_Fill BO b matchQuantityIncrement;
                s \<leftarrow> ob_Fill SO s matchQuantityIncrement;
                MatchSpotOrderbooks BO SO b s
              })
      | _ \<Rightarrow> Some (b, s))
   }"

definition limit_Orderbook :: "RiskEngine option \<Rightarrow> dec_ops \<Rightarrow> SpotLimitOrderbook Orderbook" where
  "limit_Orderbook e D = \<lparr>ob_Peek = SpotLimit_Peek e, ob_Fill = SpotLimit_Fill D,
     ob_GetTotalQuantityFilled = SpotLimit_GetTotalQuantityFilled\<rparr>"

definition market_Orderbook :: "dec_ops \<Rightarrow> SpotMarketOrderbook Orderbook" where
  "market_Orderbook D = \<lparr>ob_Peek = SpotMarket_Peek, ob_Fill = SpotMarket_Fill D,
     ob_GetTotalQuantityFilled = SpotMarket_GetTotalQuantityFilled\<rparr>"

section \<open>Spot executors\<close>

definition filterPausedSpotLimitOrders :: "RiskEngine option \<Rightarrow> SpotLimitOrder list \<Rightarrow> SpotLimitOrder list" where
  "filterPausedSpotLimitOrders e orders = filter (\<lambda>ord. \<not> is_paused e ord) orders"

definition filterPausedSpotMarketOrders :: "RiskEngine option \<Rightarrow> SpotMarketOrder list \<Rightarrow> SpotMarketOrder list" where
  "filterPausedSpotMarketOrders e orders =
     filter (\<lambda>ord. CheckCrossMarginEmergencyPause e (SubaccountId (mo_OrderInfo ord)) = Inr ()) orders"

text \<open>
  \<^verbatim>\<open>SpotBatchAuctionExecutor.Execute\<close> up to the processing of the result: build both books from the
  resting orders of the store (in iteration order) and the transient orders, and match them unless
  one is nil. \<open>midMarketPrice\<close> is what the keeper returns for the market.
\<close>

definition buildOrderbooks ::
  "RiskEngine option \<Rightarrow> SpotLimitOrder list \<Rightarrow> SpotLimitOrder list \<Rightarrow> SpotLimitOrder list \<Rightarrow> SpotLimitOrder list
   \<Rightarrow> SpotLimitOrderbook option \<times> SpotLimitOrderbook option" where
  "buildOrderbooks e restingBuys transientBuys restingSells transientSells =
     (NewSpotLimitOrderbook restingBuys (filterPausedSpotLimitOrders e transientBuys) True,
      NewSpotLimitOrderbook restingSells (filterPausedSpotLimitOrders e transientSells) False)"

definition SpotExecute_match ::
  "RiskEngine option \<Rightarrow> dec_ops \<Rightarrow> dec option \<Rightarrow> SpotLimitOrderbook option \<times> SpotLimitOrderbook option
   \<Rightarrow> (SpotLimitOrderbook option \<times> SpotLimitOrderbook option \<times> MatchResult) option" where
  "SpotExecute_match e D midMarketPrice books =
     (case books of
        (Some b, Some s) \<Rightarrow> do {
          (b, s, r) \<leftarrow> Match (limit_Orderbook e D) (limit_Orderbook e D) b s
            (Spot_Calculate D \<lparr>spot_midMarketPrice = midMarketPrice\<rparr>);
          Some (Some b, Some s, r)
        }
      | (b, s) \<Rightarrow> Some (b, s, EmptyMatchResult))"

section \<open>Matching any two order books\<close>

lemma selectPriceByReference_bounds:
  assumes "s \<le> b"
  shows "s \<le> selectPriceByReference b s r \<and> selectPriceByReference b s r \<le> b"
  using assms by (auto simp: selectPriceByReference_def)

lemma midpointPrice_bounds:
  assumes "legacy_dec D" "s \<le> b"
  shows "s \<le> midpointPrice D b s \<and> midpointPrice D b s \<le> b"
  using legacy_dec.midpoint_bounds [OF assms] by (simp add: midpointPrice_def)

locale batch_auction =
  buys: orderbook "ob_Peek BO" "ob_Fill BO" "ob_GetTotalQuantityFilled BO" binv True btouched bpending bleft bready bbook +
  sells: orderbook "ob_Peek SO" "ob_Fill SO" "ob_GetTotalQuantityFilled SO" sinv False stouched spending sleft sready sbook
  for BO :: "'b Orderbook" and binv btouched bpending bleft bready and bbook :: "'b \<Rightarrow> 'o"
    and SO :: "'s Orderbook" and sinv stouched spending sleft sready and sbook :: "'s \<Rightarrow> 'r"
begin

text \<open>What holds of the two books after any number of rounds, with the prices of the last round.\<close>

definition round_inv :: "'b \<Rightarrow> 's \<Rightarrow> dec \<Rightarrow> dec \<Rightarrow> bool" where
  "round_inv b s lb ls \<longleftrightarrow> binv b \<and> sinv s
     \<and> (if btouched b = {} \<and> stouched s = {} then True
        else ls \<le> lb \<and> (\<forall>p \<in> btouched b. lb \<le> p) \<and> (\<forall>p \<in> stouched s. p \<le> ls))"

text \<open>No order that can still be matched on one side crosses one of the other side.\<close>

definition uncrossed :: "'b \<Rightarrow> 's \<Rightarrow> bool" where
  "uncrossed b s \<longleftrightarrow> (\<forall>p \<in> bpending b. \<forall>q \<in> spending s. p < q)"

abbreviation traded :: "'b \<Rightarrow> 's \<Rightarrow> dec" where
  "traded b s \<equiv> ob_GetTotalQuantityFilled BO b - ob_GetTotalQuantityFilled SO s"

lemma peek_both:
  assumes "round_inv b s lb ls"
  obtains b1 rb s1 rs where "ob_Peek BO b = Some (b1, rb)" "ob_Peek SO s = Some (s1, rs)" "round_inv b1 s1 lb ls"
    "bleft b1 \<le> bleft b" "sleft s1 \<le> sleft s" "bbook b1 = bbook b" "sbook s1 = sbook s" "traded b1 s1 = traded b s"
    "case rb of None \<Rightarrow> bpending b1 = {} | Some l \<Rightarrow> bready b1 l"
    "case rs of None \<Rightarrow> spending s1 = {} | Some l \<Rightarrow> sready s1 l"
proof -
  note inv = assms [unfolded round_inv_def]
  obtain b1 rb where b1: "ob_Peek BO b = Some (b1, rb)" "binv b1"
    "ob_GetTotalQuantityFilled BO b1 = ob_GetTotalQuantityFilled BO b" "btouched b1 = btouched b"
    "bleft b1 \<le> bleft b" "bbook b1 = bbook b" "case rb of None \<Rightarrow> bpending b1 = {} | Some l \<Rightarrow> bready b1 l"
    using buys.peek_ok inv by blast
  obtain s1 rs where s1: "ob_Peek SO s = Some (s1, rs)" "sinv s1"
    "ob_GetTotalQuantityFilled SO s1 = ob_GetTotalQuantityFilled SO s" "stouched s1 = stouched s"
    "sleft s1 \<le> sleft s" "sbook s1 = sbook s" "case rs of None \<Rightarrow> spending s1 = {} | Some l \<Rightarrow> sready s1 l"
    using sells.peek_ok inv by blast
  have "round_inv b1 s1 lb ls" using inv b1 s1 by (simp add: round_inv_def)
  then show ?thesis using that [OF b1(1) s1(1)] b1(3,5-7) s1(3,5-7) by simp
qed

lemma fill_both:
  assumes r: "round_inv b s lb ls" and l: "bready b bl" "sready s sl" and cross: "lvl_Price sl \<le> lvl_Price bl"
    and q: "q = min (lvl_Quantity bl) (lvl_Quantity sl)"
  obtains b' s' where "ob_Fill BO b q = Some b'" "ob_Fill SO s q = Some s'"
    "round_inv b' s' (lvl_Price bl) (lvl_Price sl)" "bleft b' + sleft s' < bleft b + sleft s"
    "bbook b' = bbook b" "sbook s' = sbook s" "traded b' s' = traded b s" "q \<noteq> 0"
proof -
  have inv: "binv b" "sinv s" using r by (simp_all add: round_inv_def)
  note bl = buys.ready_level [OF inv(1) l(1)] and sl = sells.ready_level [OF inv(2) l(2)]
  have q': "0 < q" "q \<le> lvl_Quantity bl" "q \<le> lvl_Quantity sl" using bl sl q by auto
  obtain b' where b': "ob_Fill BO b q = Some b'" "binv b'"
    "ob_GetTotalQuantityFilled BO b' = ob_GetTotalQuantityFilled BO b + q"
    "btouched b' = insert (lvl_Price bl) (btouched b)" "bbook b' = bbook b" "bleft b' \<le> bleft b"
    "q = lvl_Quantity bl \<longrightarrow> bleft b' < bleft b"
    using buys.fill_ok [OF inv(1) l(1) q'(1,2)] by blast
  obtain s' where s': "ob_Fill SO s q = Some s'" "sinv s'"
    "ob_GetTotalQuantityFilled SO s' = ob_GetTotalQuantityFilled SO s + q"
    "stouched s' = insert (lvl_Price sl) (stouched s)" "sbook s' = sbook s" "sleft s' \<le> sleft s"
    "q = lvl_Quantity sl \<longrightarrow> sleft s' < sleft s"
    using sells.fill_ok [OF inv(2) l(2) q'(1,3)] by blast
  have "round_inv b' s' (lvl_Price bl) (lvl_Price sl)"
    using b'(2,4) s'(2,4) cross bl sl by (auto simp: round_inv_def good_def)
  moreover have "bleft b' + sleft s' < bleft b + sleft s"
    using b'(6,7) s'(6,7) q by (auto simp: min_def split: if_splits)
  ultimately show ?thesis using that [OF b'(1) s'(1)] b'(3,5) s'(3,5) q'(1) by simp
qed

lemma matchLoop_spec:
  assumes "round_inv b s lb ls"
  shows "\<exists>b' s' lb' ls'. matchLoop BO SO b s lb ls = Some (b', s', lb', ls') \<and> round_inv b' s' lb' ls'
    \<and> uncrossed b' s' \<and> bbook b' = bbook b \<and> sbook s' = sbook s \<and> traded b' s' = traded b s
    \<and> MatchSpotOrderbooks BO SO b s = Some (b', s')"
  using assms
proof (induction "bleft b + sleft s" arbitrary: b s lb ls rule: less_induct)
  case less
  note unfold = matchLoop.simps [of BO SO b s] MatchSpotOrderbooks.simps [of BO SO b s]
  obtain b1 rb s1 rs where p: "ob_Peek BO b = Some (b1, rb)" "ob_Peek SO s = Some (s1, rs)" "round_inv b1 s1 lb ls"
    "bleft b1 \<le> bleft b" "sleft s1 \<le> sleft s" "bbook b1 = bbook b" "sbook s1 = sbook s" "traded b1 s1 = traded b s"
    "case rb of None \<Rightarrow> bpending b1 = {} | Some l \<Rightarrow> bready b1 l"
    "case rs of None \<Rightarrow> spending s1 = {} | Some l \<Rightarrow> sready s1 l"
    using peek_both [OF less.prems] .
  have inv: "binv b1" "sinv s1" using p(3) by (simp_all add: round_inv_def)
  show ?case
  proof (cases "rb = None \<or> rs = None")
    case True
    then have "uncrossed b1 s1" using p(9,10) by (auto simp: uncrossed_def)
    moreover have "matchLoop BO SO b s lb ls = Some (b1, s1, lb, ls)" "MatchSpotOrderbooks BO SO b s = Some (b1, s1)"
      using True p(1,2) by (auto simp: unfold split: option.splits)
    ultimately show ?thesis using p(3,6-8) by simp
  next
    case False
    then obtain bl sl where l: "rb = Some bl" "rs = Some sl" by auto
    then have rd: "bready b1 bl" "sready s1 sl" using p(9,10) by simp_all
    show ?thesis
    proof (cases "lvl_Price bl < lvl_Price sl")
      case True
      then have "uncrossed b1 s1" using buys.ready_level [OF inv(1) rd(1)] sells.ready_level [OF inv(2) rd(2)]
        by (fastforce simp: uncrossed_def good_def)
      moreover have "matchLoop BO SO b s lb ls = Some (b1, s1, lb, ls)" "MatchSpotOrderbooks BO SO b s = Some (b1, s1)"
        using True l p(1,2) by (simp_all add: unfold)
      ultimately show ?thesis using p(3,6-8) by simp
    next
      case cross: False
      define q where "q = min (lvl_Quantity bl) (lvl_Quantity sl)"
      obtain b2 s2 where f: "ob_Fill BO b1 q = Some b2" "ob_Fill SO s1 q = Some s2"
        "round_inv b2 s2 (lvl_Price bl) (lvl_Price sl)" "bleft b2 + sleft s2 < bleft b1 + sleft s1"
        "bbook b2 = bbook b1" "sbook s2 = sbook s1" "traded b2 s2 = traded b1 s1" "q \<noteq> 0"
        using fill_both [OF p(3) rd _ q_def] cross by auto
      have rec: "matchLoop BO SO b s lb ls = matchLoop BO SO b2 s2 (lvl_Price bl) (lvl_Price sl)"
        "MatchSpotOrderbooks BO SO b s = MatchSpotOrderbooks BO SO b2 s2"
        using cross l p(1,2) f(1,2,8) by (simp_all add: unfold Let_def flip: q_def)
      have "bleft b2 + sleft s2 < bleft b + sleft s" using f(4) p(4,5) by linarith
      from less.hyps [OF this f(3)] show ?thesis unfolding rec using f(5-7) p(6-8) by simp
    qed
  qed
qed

lemma Match_spec:
  assumes "binv b" "sinv s" "btouched b = {}" "stouched s = {}"
    and "ob_GetTotalQuantityFilled BO b = 0" "ob_GetTotalQuantityFilled SO s = 0"
  obtains b' s' r where "Match BO SO b s calc = Some (b', s', r)" "MatchSpotOrderbooks BO SO b s = Some (b', s')"
    "binv b'" "sinv s'" "bbook b' = bbook b" "sbook s' = sbook s" "uncrossed b' s'"
    "ob_GetTotalQuantityFilled BO b' = ClearingQuantity r" "ob_GetTotalQuantityFilled SO s' = ClearingQuantity r"
    "ClearingPrice r = calc (LastBuyPrice r) (LastSellPrice r) (ClearingQuantity r)"
    "btouched b' \<noteq> {} \<or> stouched s' \<noteq> {} \<longrightarrow> LastSellPrice r \<le> LastBuyPrice r"
    "\<forall>p \<in> btouched b'. LastBuyPrice r \<le> p" "\<forall>p \<in> stouched s'. p \<le> LastSellPrice r"
proof -
  have "round_inv b s 0 0" using assms by (simp add: round_inv_def)
  from matchLoop_spec [OF this] obtain b' s' lb ls where
    m: "matchLoop BO SO b s 0 0 = Some (b', s', lb, ls)" "round_inv b' s' lb ls" "uncrossed b' s'"
      "bbook b' = bbook b" "sbook s' = sbook s" "traded b' s' = traded b s"
      "MatchSpotOrderbooks BO SO b s = Some (b', s')" by blast
  define r where "r = \<lparr>ClearingPrice = calc lb ls (ob_GetTotalQuantityFilled SO s'),
    ClearingQuantity = ob_GetTotalQuantityFilled SO s', LastBuyPrice = lb, LastSellPrice = ls\<rparr>"
  have M: "Match BO SO b s calc = Some (b', s', r)" using m(1) by (simp add: Match_def r_def Let_def)
  show ?thesis
    by (rule that [OF M m(7)]) (use m assms in \<open>auto simp: r_def round_inv_def split: if_splits\<close>)
qed

end

section \<open>The auctions of a spot market\<close>

interpretation spot_auction: batch_auction "limit_Orderbook e D" "lob_inv e True" lob_touched "lob_pending e" lob_left lob_ready "lob_book e"
  "limit_Orderbook e D" "lob_inv e False" lob_touched "lob_pending e" lob_left lob_ready "lob_book e" for e D
  by (intro batch_auction.intro) (simp_all add: limit_Orderbook_def limit.orderbook_axioms)

interpretation market_buys: batch_auction "market_Orderbook D" "mob_inv True" mob_touched mob_pending mob_left mob_ready mob_orders
  "limit_Orderbook e D" "lob_inv e False" lob_touched "lob_pending e" lob_left lob_ready "lob_book e" for e D
  by (intro batch_auction.intro)
    (simp_all add: limit_Orderbook_def market_Orderbook_def limit.orderbook_axioms market.orderbook_axioms)

interpretation market_sells: batch_auction "limit_Orderbook e D" "lob_inv e True" lob_touched "lob_pending e" lob_left lob_ready "lob_book e"
  "market_Orderbook D" "mob_inv False" mob_touched mob_pending mob_left mob_ready mob_orders for e D
  by (intro batch_auction.intro)
    (simp_all add: limit_Orderbook_def market_Orderbook_def limit.orderbook_axioms market.orderbook_axioms)

text \<open>Inputs of one side: orders in price priority with non-negative fillable quantities.\<close>

definition auction_input :: "bool \<Rightarrow> SpotLimitOrder list \<Rightarrow> SpotLimitOrder list \<Rightarrow> bool" where
  "auction_input buy resting transient \<longleftrightarrow> by_priority buy resting \<and> by_priority buy transient
     \<and> (\<forall>ord \<in> set resting \<union> set transient. 0 \<le> Fillable ord)"

definition book_fills :: "SpotLimitOrderbook option \<Rightarrow> (SpotLimitOrder \<times> dec) list" where
  "book_fills bo = (case bo of None \<Rightarrow> [] | Some b \<Rightarrow> rest_entries b @ trans_entries b)"

definition book_open :: "RiskEngine option \<Rightarrow> SpotLimitOrderbook option \<Rightarrow> SpotLimitOrder list" where
  "book_open e bo = (case bo of None \<Rightarrow> [] | Some b \<Rightarrow> open_orders e b)"

definition book_orders :: "RiskEngine option \<Rightarrow> SpotLimitOrderbook option \<Rightarrow> SpotLimitOrder list \<times> SpotLimitOrder list" where
  "book_orders e bo = (case bo of None \<Rightarrow> ([], []) | Some b \<Rightarrow> snd (lob_book e b))"

lemma zip_replicate_map: "zip xs (replicate (length xs) c) = map (\<lambda>x. (x, c)) xs"
  by (induction xs) auto

lemma touched_ofI: "x \<in> set xs \<Longrightarrow> 0 < snd x \<Longrightarrow> lo_Price (fst x) \<in> touched_of xs"
  by (auto simp: touched_of_def)

lemma new_book:
  assumes "NewSpotLimitOrderbook resting transient buy = Some b"
  shows "rest_entries b = []" "trans_entries b = map (\<lambda>x. (x, 0)) transient" "restingOrderIterator b = resting"
    "isBuy b = buy" "totalQuantity b = 0" "transientOrderIdx b = 0" "currState b = None"
    "restingOrderbookFills b = None \<longrightarrow> resting = []"
    "lens_ok (restingOrderbookFills b)" "lens_ok (transientOrderbookFills b)" "lob_touched b = {}"
  using assms by (auto simp: NewSpotLimitOrderbook_def lob_touched_def touched_of_def zip_replicate_map
      split: if_splits)

lemma new_book_inv:
  assumes n: "NewSpotLimitOrderbook resting (filterPausedSpotLimitOrders e transient) buy = Some b"
    and input: "auction_input buy resting transient"
  shows "lob_inv e buy b" "book_orders e (Some b) = (filterPausedSpotLimitOrders e transient, filterPausedSpotLimitOrders e resting)"
    "\<forall>x \<in> set (book_fills (Some b)). snd x = 0"
proof -
  note b = new_book [OF n]
  show "lob_inv e buy b"
    by (rule lob_inv_no_current)
      (use b input in \<open>auto simp: lob_base_def auction_input_def filterPausedSpotLimitOrders_def sorted_wrt_filter comp_def sum_list_0\<close>)
  show "book_orders e (Some b) = (filterPausedSpotLimitOrders e transient, filterPausedSpotLimitOrders e resting)"
    using b by (simp add: book_orders_def lob_book_def filterPausedSpotLimitOrders_def comp_def)
  show "\<forall>x \<in> set (book_fills (Some b)). snd x = 0" using b by (auto simp: book_fills_def)
qed

lemma lob_inv_fills:
  assumes "lob_inv e buy b"
  shows "sum_list (map snd (book_fills (Some b))) = totalQuantity b" "x \<in> set (book_fills (Some b)) \<Longrightarrow> entry_ok x"
    "lob_touched b = touched_of (book_fills (Some b))"
  using assms by (auto simp: lob_inv_def lob_base_def book_fills_def lob_touched_def touched_of_def)

lemma touched_total:
  assumes inv: "lob_inv e buy b" and t: "lob_touched b \<noteq> {}"
  shows "0 < totalQuantity b"
proof -
  obtain x where x: "x \<in> set (book_fills (Some b))" "0 < snd x" using t lob_inv_fills(3) [OF inv] by (auto simp: touched_of_def)
  have "snd x \<le> sum_list (map snd (book_fills (Some b)))"
    using lob_inv_fills(2) [OF inv] x(1) by (intro member_le_sum_list) (auto simp: entry_ok_def)
  then show ?thesis using x(2) lob_inv_fills(1) [OF inv] by simp
qed

lemma Spot_Calculate_bounds:
  assumes "legacy_dec D" "s \<le> b" "0 < q"
  shows "s \<le> Spot_Calculate D st b s q \<and> Spot_Calculate D st b s q \<le> b"
  using assms midpointPrice_bounds selectPriceByReference_bounds
  by (auto simp: Spot_Calculate_def split: option.splits)

lemma calculateRegular_bounds:
  assumes "s \<le> b"
  shows "s \<le> calculateRegular st mid b s \<and> calculateRegular st mid b s \<le> b"
  using assms selectPriceByReference_bounds by (auto simp: calculateRegular_def split: option.splits)

text \<open>Everything the properties below need of one auction with both books present.\<close>

lemma spot_match:
  assumes b: "lob_inv e True b" "lob_touched b = {}" "totalQuantity b = 0"
    and s: "lob_inv e False s" "lob_touched s = {}" "totalQuantity s = 0"
  obtains b' s' r where "SpotExecute_match e D mid (Some b, Some s) = Some (Some b', Some s', r)"
    "lob_inv e True b'" "lob_inv e False s'" "lob_book e b' = lob_book e b" "lob_book e s' = lob_book e s"
    "totalQuantity b' = ClearingQuantity r" "totalQuantity s' = ClearingQuantity r"
    "\<forall>p \<in> lob_pending e b'. \<forall>q \<in> lob_pending e s'. p < q"
    "legacy_dec D \<longrightarrow> (\<forall>p \<in> lob_touched b'. ClearingPrice r \<le> p) \<and> (\<forall>p \<in> lob_touched s'. p \<le> ClearingPrice r)"
proof -
  let ?calc = "Spot_Calculate D \<lparr>spot_midMarketPrice = mid\<rparr>"
  have t: "ob_GetTotalQuantityFilled (limit_Orderbook e D) x = totalQuantity x" for x
    by (simp add: limit_Orderbook_def SpotLimit_GetTotalQuantityFilled_def)
  have t0: "ob_GetTotalQuantityFilled (limit_Orderbook e D) b = 0" "ob_GetTotalQuantityFilled (limit_Orderbook e D) s = 0"
    using b(3) s(3) t by simp_all
  obtain b' s' r where m: "Match (limit_Orderbook e D) (limit_Orderbook e D) b s ?calc = Some (b', s', r)"
    "MatchSpotOrderbooks (limit_Orderbook e D) (limit_Orderbook e D) b s = Some (b', s')"
    "lob_inv e True b'" "lob_inv e False s'" "lob_book e b' = lob_book e b" "lob_book e s' = lob_book e s"
    "spot_auction.uncrossed e b' s'"
    "ob_GetTotalQuantityFilled (limit_Orderbook e D) b' = ClearingQuantity r"
    "ob_GetTotalQuantityFilled (limit_Orderbook e D) s' = ClearingQuantity r"
    "ClearingPrice r = ?calc (LastBuyPrice r) (LastSellPrice r) (ClearingQuantity r)"
    "lob_touched b' \<noteq> {} \<or> lob_touched s' \<noteq> {} \<longrightarrow> LastSellPrice r \<le> LastBuyPrice r"
    "\<forall>p \<in> lob_touched b'. LastBuyPrice r \<le> p" "\<forall>p \<in> lob_touched s'. p \<le> LastSellPrice r"
    using spot_auction.Match_spec [where calc = ?calc, OF b(1) s(1) b(2) s(2) t0] .
  have pos: "0 < ClearingQuantity r" if "lob_touched b' \<noteq> {} \<or> lob_touched s' \<noteq> {}"
    using that touched_total [OF m(3)] touched_total [OF m(4)] m(8,9) t by auto
  have c: "LastSellPrice r \<le> ClearingPrice r" "ClearingPrice r \<le> LastBuyPrice r"
    if "legacy_dec D" "lob_touched b' \<noteq> {} \<or> lob_touched s' \<noteq> {}"
    using Spot_Calculate_bounds [OF that(1) mp [OF m(11) that(2)] pos [OF that(2)]] m(10) by simp_all
  show ?thesis
  proof (rule that)
    show "SpotExecute_match e D mid (Some b, Some s) = Some (Some b', Some s', r)"
      using m(1) by (simp add: SpotExecute_match_def)
    show "legacy_dec D \<longrightarrow> (\<forall>p \<in> lob_touched b'. ClearingPrice r \<le> p) \<and> (\<forall>p \<in> lob_touched s'. p \<le> ClearingPrice r)"
    proof (intro impI conjI ballI)
      fix p assume l: "legacy_dec D"
      show "p \<in> lob_touched b' \<Longrightarrow> ClearingPrice r \<le> p" using c(2) [OF l] m(12) by force
      show "p \<in> lob_touched s' \<Longrightarrow> p \<le> ClearingPrice r" using c(1) [OF l] m(13) by force
    qed
    show "\<forall>p \<in> lob_pending e b'. \<forall>q \<in> lob_pending e s'. p < q"
      using m(7) by (simp add: spot_auction.uncrossed_def)
    show "totalQuantity b' = ClearingQuantity r" "totalQuantity s' = ClearingQuantity r" using m(8,9) t by simp_all
  qed (rule m)+
qed

lemma empty_match:
  "\<not> (\<exists>b s. books = (Some b, Some s)) \<Longrightarrow> SpotExecute_match e D mid books = Some (fst books, snd books, EmptyMatchResult)"
  by (cases books) (auto simp: SpotExecute_match_def split: option.splits)

text \<open>A book that is not matched keeps its zero fills.\<close>

lemma unmatched_side:
  assumes n: "bo = NewSpotLimitOrderbook resting (filterPausedSpotLimitOrders e transient) buy"
    and input: "auction_input buy resting transient"
  shows "sum_list (map snd (book_fills bo)) = 0" "\<forall>x \<in> set (book_fills bo). entry_ok x \<and> snd x = 0"
    "book_orders e bo = (filterPausedSpotLimitOrders e transient, filterPausedSpotLimitOrders e resting)"
proof -
  have z: "(\<forall>x \<in> set xs. snd x = 0) \<Longrightarrow> sum_list (map snd xs) = 0" for xs :: "(SpotLimitOrder \<times> dec) list"
    by (induction xs) auto
  have "sum_list (map snd (book_fills bo)) = 0 \<and> (\<forall>x \<in> set (book_fills bo). entry_ok x \<and> snd x = 0)
    \<and> book_orders e bo = (filterPausedSpotLimitOrders e transient, filterPausedSpotLimitOrders e resting)"
  proof (cases bo)
    case None
    then have "resting = []" "filterPausedSpotLimitOrders e transient = []"
      using n by (auto simp: NewSpotLimitOrderbook_def split: if_splits)
    then show ?thesis using None by (simp add: book_fills_def book_orders_def filterPausedSpotLimitOrders_def)
  next
    case (Some b)
    then have b: "NewSpotLimitOrderbook resting (filterPausedSpotLimitOrders e transient) buy = Some b" using n by simp
    note f = new_book_inv [OF b input]
    show ?thesis using f(2,3) z [OF f(3)] lob_inv_fills(2) [OF f(1)] Some by simp
  qed
  then show "sum_list (map snd (book_fills bo)) = 0" "\<forall>x \<in> set (book_fills bo). entry_ok x \<and> snd x = 0"
    "book_orders e bo = (filterPausedSpotLimitOrders e transient, filterPausedSpotLimitOrders e resting)" by blast+
qed

text \<open>The auction from the orders of the store.\<close>

lemma spot_execute:
  assumes input: "auction_input True restingBuys transientBuys" "auction_input False restingSells transientSells"
  obtains b s r where
    "SpotExecute_match e D mid (buildOrderbooks e restingBuys transientBuys restingSells transientSells) = Some (b, s, r)"
    "sum_list (map snd (book_fills b)) = ClearingQuantity r" "sum_list (map snd (book_fills s)) = ClearingQuantity r"
    "\<forall>x \<in> set (book_fills b) \<union> set (book_fills s). entry_ok x"
    "book_orders e b = (filterPausedSpotLimitOrders e transientBuys, filterPausedSpotLimitOrders e restingBuys)"
    "book_orders e s = (filterPausedSpotLimitOrders e transientSells, filterPausedSpotLimitOrders e restingSells)"
    "legacy_dec D \<longrightarrow> (\<forall>p \<in> touched_of (book_fills b). ClearingPrice r \<le> p) \<and> (\<forall>p \<in> touched_of (book_fills s). p \<le> ClearingPrice r)"
    "\<forall>x \<in> set (book_open e b). \<forall>y \<in> set (book_open e s). lo_Price x < lo_Price y"
proof -
  obtain bo so where bo: "bo = NewSpotLimitOrderbook restingBuys (filterPausedSpotLimitOrders e transientBuys) True"
    and so: "so = NewSpotLimitOrderbook restingSells (filterPausedSpotLimitOrders e transientSells) False" by blast
  have books: "buildOrderbooks e restingBuys transientBuys restingSells transientSells = (bo, so)"
    using bo so by (simp add: buildOrderbooks_def)
  show ?thesis
  proof (cases "\<exists>b s. bo = Some b \<and> so = Some s")
    case False
    then have E: "SpotExecute_match e D mid (bo, so) = Some (bo, so, EmptyMatchResult)" using empty_match [of "(bo, so)"] by auto
    note ub = unmatched_side [OF bo input(1)] and us = unmatched_side [OF so input(2)]
    have t: "touched_of (book_fills bo) = {}" "touched_of (book_fills so) = {}" using ub(2) us(2) by (auto simp: touched_of_def)
    have n: "book_open e bo = [] \<or> book_open e so = []" using False by (cases bo; cases so) (auto simp: book_open_def)
    show ?thesis
      by (rule that [of bo so EmptyMatchResult]) (use books E ub us t n in \<open>auto simp: EmptyMatchResult_def\<close>)
  next
    case True
    then obtain b s where bs: "bo = Some b" "so = Some s" by blast
    note nb = new_book [OF bo [unfolded bs, symmetric]] and ns = new_book [OF so [unfolded bs, symmetric]]
    note ib = new_book_inv [OF bo [unfolded bs, symmetric] input(1)] and js = new_book_inv [OF so [unfolded bs, symmetric] input(2)]
    obtain b' s' r where m: "SpotExecute_match e D mid (Some b, Some s) = Some (Some b', Some s', r)"
      "lob_inv e True b'" "lob_inv e False s'" "lob_book e b' = lob_book e b" "lob_book e s' = lob_book e s"
      "totalQuantity b' = ClearingQuantity r" "totalQuantity s' = ClearingQuantity r"
      "\<forall>p \<in> lob_pending e b'. \<forall>q \<in> lob_pending e s'. p < q"
      "legacy_dec D \<longrightarrow> (\<forall>p \<in> lob_touched b'. ClearingPrice r \<le> p) \<and> (\<forall>p \<in> lob_touched s'. p \<le> ClearingPrice r)"
      using spot_match [OF ib(1) nb(11,5) js(1) ns(11,5)] .
    note fb = lob_inv_fills [OF m(2)] and fs = lob_inv_fills [OF m(3)]
    show ?thesis
    proof (rule that [of "Some b'" "Some s'" r])
      show "legacy_dec D \<longrightarrow> (\<forall>p \<in> touched_of (book_fills (Some b')). ClearingPrice r \<le> p)
          \<and> (\<forall>p \<in> touched_of (book_fills (Some s')). p \<le> ClearingPrice r)"
        using m(9) fb(3) fs(3) by simp
      show "\<forall>x \<in> set (book_open e (Some b')). \<forall>y \<in> set (book_open e (Some s')). lo_Price x < lo_Price y"
        using m(8) by (simp add: book_open_def lob_pending_def)
    qed (use m fb fs ib(2) js(2) books bs in \<open>auto simp: book_orders_def\<close>)
  qed
qed

lemma new_market_book:
  assumes "NewSpotMarketOrderbook orders = Some b" "sorted_wrt (\<lambda>x y. good buy (mo_Price x) (mo_Price y)) orders"
    and "\<forall>ord \<in> set orders. 0 \<le> mo_Quantity ord"
  shows "mob_inv buy b" "mob_touched b = {}" "mob_totalQuantity b = 0" "mob_orders b = orders"
  using assms by (auto simp: NewSpotMarketOrderbook_def mob_inv_def mob_touched_def sum_list_replicate split: if_splits)

section \<open>Properties\<close>

text \<open>C2: The batch auction of a spot market always returns, whatever the decimals' rounding: the
  quantity bought equals the quantity sold and is the clearing quantity, no order is filled
  beyond its fillable quantity, and the orders of the books are the unpaused orders they were
  built from.\<close>

theorem spot_auction_balanced:
  assumes "auction_input True restingBuys transientBuys" "auction_input False restingSells transientSells"
  shows "\<exists>b s r. SpotExecute_match e D mid (buildOrderbooks e restingBuys transientBuys restingSells transientSells) = Some (b, s, r)
    \<and> sum_list (map snd (book_fills b)) = ClearingQuantity r \<and> sum_list (map snd (book_fills s)) = ClearingQuantity r
    \<and> (\<forall>x \<in> set (book_fills b) \<union> set (book_fills s). 0 \<le> snd x \<and> snd x \<le> Fillable (fst x))
    \<and> book_orders e b = (filterPausedSpotLimitOrders e transientBuys, filterPausedSpotLimitOrders e restingBuys)
    \<and> book_orders e s = (filterPausedSpotLimitOrders e transientSells, filterPausedSpotLimitOrders e restingSells)"
proof -
  obtain b' s' r' where f:
    "SpotExecute_match e D mid (buildOrderbooks e restingBuys transientBuys restingSells transientSells) = Some (b', s', r')"
    "sum_list (map snd (book_fills b')) = ClearingQuantity r'" "sum_list (map snd (book_fills s')) = ClearingQuantity r'"
    "\<forall>x \<in> set (book_fills b') \<union> set (book_fills s'). entry_ok x"
    "book_orders e b' = (filterPausedSpotLimitOrders e transientBuys, filterPausedSpotLimitOrders e restingBuys)"
    "book_orders e s' = (filterPausedSpotLimitOrders e transientSells, filterPausedSpotLimitOrders e restingSells)"
    "legacy_dec D \<longrightarrow> (\<forall>p \<in> touched_of (book_fills b'). ClearingPrice r' \<le> p) \<and> (\<forall>p \<in> touched_of (book_fills s'). p \<le> ClearingPrice r')"
    "\<forall>x \<in> set (book_open e b'). \<forall>y \<in> set (book_open e s'). lo_Price x < lo_Price y"
    by (rule spot_execute [OF assms, of e D mid])
  show ?thesis using f(4)
    by (intro exI [of _ b'] exI [of _ s'] exI [of _ r'] conjI f(1-3,5,6)) (simp add: entry_ok_def)
qed

definition example_order :: "dec \<Rightarrow> dec \<Rightarrow> SpotLimitOrder" where
  "example_order price quantity =
     \<lparr>lo_OrderInfo = \<lparr>SubaccountId = ''s'', FeeRecipient = ''f'', Price = price, oi_Quantity = quantity, Cid = ''c''\<rparr>,
      lo_OrderType = OrderType_BUY, Fillable = quantity, lo_TriggerPrice = None, lo_OrderHash = ''h'', ExpirationBlock = 0\<rparr>"

lemma example_input:
  "auction_input True [example_order 11 3, example_order 9 2] [example_order 12 1]"
  "auction_input False [example_order 10 2] [example_order 8 1, example_order 11 4]"
  by (simp_all add: auction_input_def example_order_def good_def)

declare matchLoop.simps [code]

theorem spot_auction_balanced_witness:
  "\<exists>b s r. SpotExecute_match None sdk_dec None (buildOrderbooks None [example_order 11 3, example_order 9 2]
        [example_order 12 1] [example_order 10 2] [example_order 8 1, example_order 11 4]) = Some (b, s, r)
    \<and> sum_list (map snd (book_fills b)) = ClearingQuantity r \<and> sum_list (map snd (book_fills s)) = ClearingQuantity r
    \<and> ClearingQuantity r = 4"
proof -
  have "map_option (\<lambda>(b, s, r). ClearingQuantity r) (SpotExecute_match None sdk_dec None
      (buildOrderbooks None [example_order 11 3, example_order 9 2]
        [example_order 12 1] [example_order 10 2] [example_order 8 1, example_order 11 4])) = Some 4"
    by code_simp
  then show ?thesis using spot_auction_balanced [OF example_input, of None sdk_dec None] by fastforce
qed

text \<open>C3: Nobody trades at a price worse than their limit: every buy order with a positive fill has a
  price at least the clearing price, every sell order with a positive fill a price at most it.\<close>

theorem spot_auction_price_limits:
  assumes "legacy_dec D"
    and "auction_input True restingBuys transientBuys" "auction_input False restingSells transientSells"
    and "SpotExecute_match e D mid (buildOrderbooks e restingBuys transientBuys restingSells transientSells) = Some (b, s, r)"
  shows "(\<forall>x \<in> set (book_fills b). 0 < snd x \<longrightarrow> ClearingPrice r \<le> lo_Price (fst x))
    \<and> (\<forall>x \<in> set (book_fills s). 0 < snd x \<longrightarrow> lo_Price (fst x) \<le> ClearingPrice r)"
proof -
  obtain b' s' r' where f:
    "SpotExecute_match e D mid (buildOrderbooks e restingBuys transientBuys restingSells transientSells) = Some (b', s', r')"
    "sum_list (map snd (book_fills b')) = ClearingQuantity r'" "sum_list (map snd (book_fills s')) = ClearingQuantity r'"
    "\<forall>x \<in> set (book_fills b') \<union> set (book_fills s'). entry_ok x"
    "book_orders e b' = (filterPausedSpotLimitOrders e transientBuys, filterPausedSpotLimitOrders e restingBuys)"
    "book_orders e s' = (filterPausedSpotLimitOrders e transientSells, filterPausedSpotLimitOrders e restingSells)"
    "legacy_dec D \<longrightarrow> (\<forall>p \<in> touched_of (book_fills b'). ClearingPrice r' \<le> p) \<and> (\<forall>p \<in> touched_of (book_fills s'). p \<le> ClearingPrice r')"
    "\<forall>x \<in> set (book_open e b'). \<forall>y \<in> set (book_open e s'). lo_Price x < lo_Price y"
    by (rule spot_execute [OF assms(2,3), of e D mid])
  have "b' = b" "s' = s" "r' = r" using f(1) assms(4) by simp_all
  then show ?thesis using f(7) assms(1) touched_ofI by blast
qed

theorem spot_auction_price_limits_witness:
  "\<exists>b s r. SpotExecute_match None sdk_dec None (buildOrderbooks None [example_order 11 3, example_order 9 2]
        [example_order 12 1] [example_order 10 2] [example_order 8 1, example_order 11 4]) = Some (b, s, r)
    \<and> (\<forall>x \<in> set (book_fills b). 0 < snd x \<longrightarrow> ClearingPrice r \<le> lo_Price (fst x))
    \<and> (\<forall>x \<in> set (book_fills s). 0 < snd x \<longrightarrow> lo_Price (fst x) \<le> ClearingPrice r)"
proof -
  obtain b s r where m: "SpotExecute_match None sdk_dec None (buildOrderbooks None [example_order 11 3, example_order 9 2]
        [example_order 12 1] [example_order 10 2] [example_order 8 1, example_order 11 4]) = Some (b, s, r)"
    by (rule spot_execute [OF example_input, of None sdk_dec None])
  show ?thesis using spot_auction_price_limits [OF sdk.legacy_dec_axioms example_input m] m by blast
qed

text \<open>C4: The auction is maximal: after matching, no unpaused buy order with quantity left crosses an
  unpaused sell order with quantity left.\<close>

theorem spot_auction_uncrossed:
  assumes "auction_input True restingBuys transientBuys" "auction_input False restingSells transientSells"
    and "SpotExecute_match e D mid (buildOrderbooks e restingBuys transientBuys restingSells transientSells) = Some (b, s, r)"
  shows "\<forall>x \<in> set (book_open e b). \<forall>y \<in> set (book_open e s). lo_Price x < lo_Price y"
proof -
  obtain b' s' r' where f:
    "SpotExecute_match e D mid (buildOrderbooks e restingBuys transientBuys restingSells transientSells) = Some (b', s', r')"
    "sum_list (map snd (book_fills b')) = ClearingQuantity r'" "sum_list (map snd (book_fills s')) = ClearingQuantity r'"
    "\<forall>x \<in> set (book_fills b') \<union> set (book_fills s'). entry_ok x"
    "book_orders e b' = (filterPausedSpotLimitOrders e transientBuys, filterPausedSpotLimitOrders e restingBuys)"
    "book_orders e s' = (filterPausedSpotLimitOrders e transientSells, filterPausedSpotLimitOrders e restingSells)"
    "legacy_dec D \<longrightarrow> (\<forall>p \<in> touched_of (book_fills b'). ClearingPrice r' \<le> p) \<and> (\<forall>p \<in> touched_of (book_fills s'). p \<le> ClearingPrice r')"
    "\<forall>x \<in> set (book_open e b'). \<forall>y \<in> set (book_open e s'). lo_Price x < lo_Price y"
    by (rule spot_execute [OF assms(1,2), of e D mid])
  have "b' = b" "s' = s" using f(1) assms(3) by simp_all
  then show ?thesis using f(8) by simp
qed

theorem spot_auction_uncrossed_witness:
  "\<exists>b s r. SpotExecute_match None sdk_dec None (buildOrderbooks None [example_order 11 3, example_order 9 2]
        [example_order 12 1] [example_order 10 2] [example_order 8 1, example_order 11 4]) = Some (b, s, r)
    \<and> (\<forall>x \<in> set (book_open None b). \<forall>y \<in> set (book_open None s). lo_Price x < lo_Price y)"
proof -
  obtain b s r where m: "SpotExecute_match None sdk_dec None (buildOrderbooks None [example_order 11 3, example_order 9 2]
        [example_order 12 1] [example_order 10 2] [example_order 8 1, example_order 11 4]) = Some (b, s, r)"
    by (rule spot_execute [OF example_input, of None sdk_dec None])
  show ?thesis using spot_auction_uncrossed [OF example_input m] m by blast
qed

text \<open>C35: The clearing price lies between the last matched sell and buy prices, for spot and for
  derivative markets, with or without a mid-market price and a mark price.\<close>

theorem clearing_price_between_last_prices:
  assumes "legacy_dec D" "lastSell \<le> lastBuy" "0 < quantity"
  shows "lastSell \<le> Spot_Calculate D st lastBuy lastSell quantity \<and> Spot_Calculate D st lastBuy lastSell quantity \<le> lastBuy
    \<and> lastSell \<le> Derivative_Calculate D dst lastBuy lastSell quantity \<and> Derivative_Calculate D dst lastBuy lastSell quantity \<le> lastBuy"
proof -
  have "lastSell \<le> Derivative_Calculate D dst lastBuy lastSell quantity \<and> Derivative_Calculate D dst lastBuy lastSell quantity \<le> lastBuy"
    using assms(3) midpointPrice_bounds [OF assms(1,2)] selectPriceByReference_bounds [OF assms(2)] calculateRegular_bounds [OF assms(2)]
    by (simp add: Derivative_Calculate_def split: option.split)
  then show ?thesis using Spot_Calculate_bounds [OF assms] by blast
qed

theorem clearing_price_between_last_prices_witness:
  "8 * dec_one \<le> Derivative_Calculate sdk_dec \<lparr>markPrice = None, deriv_midMarketPrice = None\<rparr> (11 * dec_one) (8 * dec_one) dec_one
   \<and> Derivative_Calculate sdk_dec \<lparr>markPrice = None, deriv_midMarketPrice = None\<rparr> (11 * dec_one) (8 * dec_one) dec_one \<le> 11 * dec_one"
  using clearing_price_between_last_prices [OF sdk.legacy_dec_axioms, of "8 * dec_one" "11 * dec_one" dec_one] by simp

text \<open>C28: Market orders against the resting book: matching a non-empty list of market orders (in price
  priority) with the limit book of the other side returns. The fills written to the market orders, one by one, add up to
  the fills written to the resting orders, and to the totals that both books report; no market order is filled
  beyond its quantity, and no resting order beyond its fillable quantity.\<close>

theorem market_orders_match_resting_book:
  assumes "auction_input (\<not> isMarketBuy) resting []" "NewSpotLimitOrderbook resting [] (\<not> isMarketBuy) = Some lb"
    and "NewSpotMarketOrderbook orders = Some mb" "sorted_wrt (\<lambda>x y. good isMarketBuy (mo_Price x) (mo_Price y)) orders"
    and "\<forall>ord \<in> set orders. 0 \<le> mo_Quantity ord"
  shows "\<exists>mb' lb'. (if isMarketBuy then MatchSpotOrderbooks (market_Orderbook D) (limit_Orderbook e D) mb lb = Some (mb', lb')
       else MatchSpotOrderbooks (limit_Orderbook e D) (market_Orderbook D) lb mb = Some (lb', mb'))
    \<and> SpotMarket_GetTotalQuantityFilled mb' = SpotLimit_GetTotalQuantityFilled lb'
    \<and> sum_list (mob_fillQuantities mb') = SpotMarket_GetTotalQuantityFilled mb'
    \<and> sum_list (map snd (book_fills (Some lb'))) = SpotLimit_GetTotalQuantityFilled lb'
    \<and> mob_orders mb' = orders \<and> length (mob_fillQuantities mb') = length orders
    \<and> (\<forall>i < length orders. 0 \<le> mob_fillQuantities mb' ! i \<and> mob_fillQuantities mb' ! i \<le> mo_Quantity (orders ! i))
    \<and> (\<forall>x \<in> set (book_fills (Some lb')). 0 \<le> snd x \<and> snd x \<le> Fillable (fst x))"
proof -
  have b: "NewSpotLimitOrderbook resting (filterPausedSpotLimitOrders e []) (\<not> isMarketBuy) = Some lb"
    using assms(2) by (simp add: filterPausedSpotLimitOrders_def)
  note nb = new_book [OF b] and ib = new_book_inv [OF b assms(1)]
  note mb = new_market_book [OF assms(3,4,5)]
  have t: "ob_GetTotalQuantityFilled (limit_Orderbook e D) x = SpotLimit_GetTotalQuantityFilled x"
    "ob_GetTotalQuantityFilled (market_Orderbook D) y = SpotMarket_GetTotalQuantityFilled y"
    "SpotLimit_GetTotalQuantityFilled lb = 0" "SpotMarket_GetTotalQuantityFilled mb = 0" for x y
    using nb(5) mb(3) by (simp_all add: limit_Orderbook_def market_Orderbook_def
        SpotLimit_GetTotalQuantityFilled_def SpotMarket_GetTotalQuantityFilled_def)
  obtain mb' lb' where m: "if isMarketBuy then MatchSpotOrderbooks (market_Orderbook D) (limit_Orderbook e D) mb lb = Some (mb', lb')
       else MatchSpotOrderbooks (limit_Orderbook e D) (market_Orderbook D) lb mb = Some (lb', mb')"
    "mob_inv isMarketBuy mb'" "lob_inv e (\<not> isMarketBuy) lb'" "mob_orders mb' = mob_orders mb"
    "SpotMarket_GetTotalQuantityFilled mb' = SpotLimit_GetTotalQuantityFilled lb'"
  proof (cases isMarketBuy)
    case True
    from market_buys.Match_spec [where calc = "\<lambda>_ _ _. 0", of mb e lb D] show ?thesis
      using mb ib(1) nb(11) True that unfolding t by (metis (full_types))
  next
    case False
    from market_sells.Match_spec [where calc = "\<lambda>_ _ _. 0", of e lb mb D] show ?thesis
      using mb ib(1) nb(11) False that unfolding t by (metis (full_types))
  qed
  have "\<forall>x \<in> set (book_fills (Some lb')). 0 \<le> snd x \<and> snd x \<le> Fillable (fst x)"
    using lob_inv_fills(2) [OF m(3)] by (simp add: entry_ok_def)
  moreover have "\<forall>i < length orders. 0 \<le> mob_fillQuantities mb' ! i \<and> mob_fillQuantities mb' ! i \<le> mo_Quantity (orders ! i)"
    using m(2,4) mb(4) by (simp add: mob_inv_def)
  moreover have "sum_list (mob_fillQuantities mb') = SpotMarket_GetTotalQuantityFilled mb'" "length (mob_fillQuantities mb') = length orders"
    "sum_list (map snd (book_fills (Some lb'))) = SpotLimit_GetTotalQuantityFilled lb'"
    using m(2,4) mb(4) lob_inv_fills(1) [OF m(3)]
    by (simp_all add: mob_inv_def SpotMarket_GetTotalQuantityFilled_def SpotLimit_GetTotalQuantityFilled_def)
  ultimately show ?thesis using m(1,4,5) mb(4) by (intro exI [of _ mb'] exI [of _ lb']) simp
qed

definition example_market_order :: "dec \<Rightarrow> dec \<Rightarrow> SpotMarketOrder" where
  "example_market_order price quantity =
     \<lparr>mo_OrderInfo = \<lparr>SubaccountId = ''s'', FeeRecipient = ''f'', Price = price, oi_Quantity = quantity, Cid = ''c''\<rparr>,
      BalanceHold = price * quantity, mo_OrderHash = ''h'', mo_OrderType = OrderType_BUY, mo_TriggerPrice = None\<rparr>"

theorem market_orders_match_resting_book_witness:
  "\<exists>mb lb mb' lb'. NewSpotLimitOrderbook [example_order 10 2, example_order 12 5] [] False = Some lb
    \<and> NewSpotMarketOrderbook [example_market_order 11 3] = Some mb
    \<and> MatchSpotOrderbooks (market_Orderbook sdk_dec) (limit_Orderbook None sdk_dec) mb lb = Some (mb', lb')
    \<and> sum_list (mob_fillQuantities mb') = sum_list (map snd (book_fills (Some lb')))"
proof -
  obtain lb where l: "NewSpotLimitOrderbook [example_order 10 2, example_order 12 5] [] (\<not> True) = Some lb"
    by (auto simp: NewSpotLimitOrderbook_def)
  obtain mb where m: "NewSpotMarketOrderbook [example_market_order 11 3] = Some mb"
    by (auto simp: NewSpotMarketOrderbook_def)
  have i: "auction_input (\<not> True) [example_order 10 2, example_order 12 5] []"
    by (simp add: auction_input_def example_order_def good_def)
  show ?thesis
    using market_orders_match_resting_book [OF i l m, of sdk_dec None] l m by (auto simp: example_market_order_def)
qed

end
