(* ===== verification/Subaccount_Deposits.thy ===== *)
theory Subaccount_Deposits
  imports Dec_Arith
begin

text \<open>
  Subaccount deposits of the exchange module: the deposit store (\<^verbatim>\<open>exchange/keeper/base/deposit.go\<close>),
  the deposit deltas (\<^verbatim>\<open>exchange/types/deposit.go\<close>), the operations of
  \<^verbatim>\<open>exchange/keeper/subaccount/keeper.go\<close> that move funds between deposits and bank balances, and the
  transfer messages of \<^verbatim>\<open>exchange/keeper/msg_server_accounts.go\<close>.

  The bank keeper is the parameter \<open>bank_ops\<close>; a send returns the new bank state or an error, in
  which case nothing was written. The permissions keeper and the cross-margin maintenance check that
  guard some operations are fields of the environment. Senders and subaccount ids arrive decoded.
  Events, the creation of recipient accounts and risk-snapshot eviction are left out; a nil decimal
  inside a deposit reads as zero.

  The laws of the bank are the locale \<open>funds\<close>. The result is that the messages and the internal
  operations keep the gap between the module's bank balance and the sum of all deposits.
\<close>

section \<open>Deposits and deltas\<close>

record Deposit =
  AvailableBalance :: dec
  TotalBalance :: dec

definition NewDeposit :: Deposit where
  "NewDeposit = \<lparr>AvailableBalance = 0, TotalBalance = 0\<rparr>"

definition Deposit_IsEmpty :: "Deposit \<Rightarrow> bool" where
  "Deposit_IsEmpty d \<longleftrightarrow> AvailableBalance d = 0 \<and> TotalBalance d = 0"

definition Deposit_IsNegative :: "Deposit \<Rightarrow> bool" where
  "Deposit_IsNegative d \<longleftrightarrow> AvailableBalance d < 0 \<or> TotalBalance d < 0"

record DepositDelta =
  AvailableBalanceDelta :: dec
  TotalBalanceDelta :: dec

definition NewUniformDepositDelta :: "dec \<Rightarrow> DepositDelta" where
  "NewUniformDepositDelta delta = \<lparr>AvailableBalanceDelta = delta, TotalBalanceDelta = delta\<rparr>"

definition NewDepositDelta :: DepositDelta where
  "NewDepositDelta = NewUniformDepositDelta 0"

definition AddAvailableBalance :: "DepositDelta \<Rightarrow> dec \<Rightarrow> DepositDelta" where
  "AddAvailableBalance d amount = d\<lparr>AvailableBalanceDelta := AvailableBalanceDelta d + amount\<rparr>"

definition Delta_IsEmpty :: "DepositDelta option \<Rightarrow> bool" where
  "Delta_IsEmpty d = (case d of None \<Rightarrow> True | Some d \<Rightarrow> TotalBalanceDelta d = 0 \<and> AvailableBalanceDelta d = 0)"

text \<open>The map from subaccounts to deltas; the order in which a Go map is walked is fixed by sorting
  the keys.\<close>

type_synonym DepositDeltas = "(subaccount_id \<times> DepositDelta) list"

definition NewDepositDeltas :: DepositDeltas where
  "NewDepositDeltas = []"

definition GetSortedSubaccountKeys :: "DepositDeltas \<Rightarrow> subaccount_id list" where
  "GetSortedSubaccountKeys d = sort (map fst d)"

definition ApplyDelta :: "DepositDeltas \<Rightarrow> subaccount_id \<Rightarrow> dec \<Rightarrow> dec \<Rightarrow> DepositDeltas" where
  "ApplyDelta d subaccountID totalBalanceDelta availableBalanceDelta =
     (let delta = (case map_of d subaccountID of None \<Rightarrow> NewDepositDelta | Some delta \<Rightarrow> delta)
      in AList.update subaccountID
           \<lparr>AvailableBalanceDelta = AvailableBalanceDelta delta + availableBalanceDelta,
            TotalBalanceDelta = TotalBalanceDelta delta + totalBalanceDelta\<rparr> d)"

definition ApplyDepositDelta :: "DepositDeltas \<Rightarrow> subaccount_id \<Rightarrow> DepositDelta \<Rightarrow> DepositDeltas" where
  "ApplyDepositDelta d subaccountID delta =
     ApplyDelta d subaccountID (TotalBalanceDelta delta) (AvailableBalanceDelta delta)"

definition ApplyUniformDelta :: "DepositDeltas \<Rightarrow> subaccount_id \<Rightarrow> dec \<Rightarrow> DepositDeltas" where
  "ApplyUniformDelta d subaccountID delta = ApplyDelta d subaccountID delta delta"

section \<open>Environment and state\<close>

datatype bank_error = BankError

record 'b bank_ops =
  GetBalance :: "'b \<Rightarrow> address \<Rightarrow> denom \<Rightarrow> int"
  GetSupply :: "'b \<Rightarrow> denom \<Rightarrow> int"
  GetModuleAddress :: "string \<Rightarrow> address"
  SendCoinsFromModuleToAccount :: "'b \<Rightarrow> string \<Rightarrow> address \<Rightarrow> denom \<Rightarrow> int \<Rightarrow> bank_error + 'b"
  SendCoinsFromAccountToModule :: "'b \<Rightarrow> address \<Rightarrow> string \<Rightarrow> denom \<Rightarrow> int \<Rightarrow> bank_error + 'b"

text \<open>The exchange module's store of deposits, the transient copies written for the block's deposit
  events, and the bank.\<close>

record 'b exchange_state =
  deposits :: "((subaccount_id \<times> denom) \<times> Deposit) list"
  transient_deposits :: "((subaccount_id \<times> denom) \<times> Deposit) list"
  bank :: 'b

record 'b exchange_env =
  env_dec :: dec_ops
  env_bank :: "'b bank_ops"
  IsEnforcedRestrictionsDenom :: "denom \<Rightarrow> bool"
  SendRestrictionOk :: "address \<Rightarrow> address \<Rightarrow> denom \<Rightarrow> int \<Rightarrow> bool"
  CrossMarginMaintenanceOk :: "'b exchange_state \<Rightarrow> subaccount_id \<Rightarrow> denom \<Rightarrow> dec \<Rightarrow> bool"

datatype deposit_error = ErrInsufficientFunds | ErrBankSend | ErrInsufficientDeposit | ErrRestrictedSend
  | ErrInvalidAmount | ErrBadSubaccountID | ErrInvalidCoins | ErrCrossMargin | PanicNegativeCoin

definition exchange_module :: string where
  "exchange_module = ''exchange''"

definition AuctionSubaccountID :: subaccount_id where
  "AuctionSubaccountID = replicate 32 (CHR 0x11)"

definition ZeroSubaccountID :: subaccount_id where
  "ZeroSubaccountID = replicate 32 (CHR 0x00)"

definition IsDefaultSubaccountID :: "subaccount_id \<Rightarrow> bool" where
  "IsDefaultSubaccountID subaccountID \<longleftrightarrow> drop 20 subaccountID = replicate 12 (CHR 0x00)"

definition SubaccountIDToSdkAddress :: "subaccount_id \<Rightarrow> address" where
  "SubaccountIDToSdkAddress subaccountID = take 20 subaccountID"

section \<open>The deposit store\<close>

definition GetDeposit :: "'b exchange_state \<Rightarrow> subaccount_id \<Rightarrow> denom \<Rightarrow> Deposit" where
  "GetDeposit s subaccountID d = (case map_of (deposits s) (subaccountID, d) of None \<Rightarrow> NewDeposit | Some dep \<Rightarrow> dep)"

definition SetDeposit :: "'b exchange_state \<Rightarrow> subaccount_id \<Rightarrow> denom \<Rightarrow> Deposit \<Rightarrow> 'b exchange_state" where
  "SetDeposit s subaccountID d dep =
     s\<lparr>transient_deposits := AList.update (subaccountID, d) dep (transient_deposits s),
       deposits := (if Deposit_IsEmpty dep then AList.delete (subaccountID, d) (deposits s)
                    else AList.update (subaccountID, d) dep (deposits s))\<rparr>"

definition deposit_add :: "Deposit \<Rightarrow> dec \<Rightarrow> dec \<Rightarrow> Deposit" where
  "deposit_add dep availableDelta totalDelta =
     \<lparr>AvailableBalance = AvailableBalance dep + availableDelta, TotalBalance = TotalBalance dep + totalDelta\<rparr>"

section \<open>Funds between deposits and bank\<close>

text \<open>\<^verbatim>\<open>sdk.NewCoin\<close> panics on a negative amount.\<close>

definition ChargeBank ::
  "'b exchange_env \<Rightarrow> 'b exchange_state \<Rightarrow> address \<Rightarrow> denom \<Rightarrow> int \<Rightarrow> deposit_error + 'b exchange_state" where
  "ChargeBank E s account d amount =
     (if amount = 0 then Inr s
      else if amount < 0 then Inl PanicNegativeCoin
      else if GetBalance (env_bank E) (bank s) account d < amount then Inl ErrInsufficientFunds
      else case SendCoinsFromAccountToModule (env_bank E) (bank s) account exchange_module d amount of
          Inl _ \<Rightarrow> Inl ErrBankSend
        | Inr b \<Rightarrow> Inr (s\<lparr>bank := b\<rparr>))"

definition SetDepositOrSendToBank ::
  "'b exchange_env \<Rightarrow> 'b exchange_state \<Rightarrow> subaccount_id \<Rightarrow> denom \<Rightarrow> Deposit \<Rightarrow> bool \<Rightarrow> 'b exchange_state" where
  "SetDepositOrSendToBank E s subaccountID d dep isPreventingBankCharge =
     (let D = env_dec E; amountToSendToBank = dec_truncate D (AvailableBalance dep)
      in if 0 < amountToSendToBank \<and> IsDefaultSubaccountID subaccountID then
           (let truncatedTotalBalance = max (dec_truncate D (TotalBalance dep)) 0;
                amountToSendToBank = min amountToSendToBank truncatedTotalBalance
            in case SendCoinsFromModuleToAccount (env_bank E) (bank s) exchange_module
                      (SubaccountIDToSdkAddress subaccountID) d amountToSendToBank of
                 Inl _ \<Rightarrow> SetDeposit s subaccountID d dep
               | Inr b \<Rightarrow> SetDeposit (s\<lparr>bank := b\<rparr>) subaccountID d
                   (deposit_add dep (- LegacyNewDec amountToSendToBank) (- LegacyNewDec amountToSendToBank)))
         else if \<not> isPreventingBankCharge \<and> (AvailableBalance dep < 0 \<or> TotalBalance dep < 0)
              \<and> IsDefaultSubaccountID subaccountID then
           (let amountToCharge = min (AvailableBalance dep) (TotalBalance dep);
                amountToChargeFromBank = dec_truncate D (dec_ceil D \<bar>amountToCharge\<bar>)
            in case ChargeBank E s (SubaccountIDToSdkAddress subaccountID) d amountToChargeFromBank of
                 Inl _ \<Rightarrow> SetDeposit s subaccountID d dep
               | Inr s' \<Rightarrow> SetDeposit s' subaccountID d
                   (deposit_add dep (LegacyNewDec amountToChargeFromBank) (LegacyNewDec amountToChargeFromBank)))
         else SetDeposit s subaccountID d dep)"

definition IncrementAvailableBalanceOrBank ::
  "'b exchange_env \<Rightarrow> 'b exchange_state \<Rightarrow> subaccount_id \<Rightarrow> denom \<Rightarrow> dec \<Rightarrow> 'b exchange_state" where
  "IncrementAvailableBalanceOrBank E s subaccountID d amount =
     (if amount = 0 then s
      else SetDepositOrSendToBank E s subaccountID d (deposit_add (GetDeposit s subaccountID d) amount 0) False)"

definition UpdateDepositWithDelta ::
  "'b exchange_env \<Rightarrow> 'b exchange_state \<Rightarrow> subaccount_id \<Rightarrow> denom \<Rightarrow> DepositDelta option \<Rightarrow> 'b exchange_state" where
  "UpdateDepositWithDelta E s subaccountID d depositDelta =
     (case depositDelta of None \<Rightarrow> s
      | Some delta \<Rightarrow>
          if Delta_IsEmpty depositDelta then s
          else SetDepositOrSendToBank E s subaccountID d
                 (deposit_add (GetDeposit s subaccountID d) (AvailableBalanceDelta delta) (TotalBalanceDelta delta)) False)"

definition UpdateDepositWithDeltaWithoutBankCharge ::
  "'b exchange_env \<Rightarrow> 'b exchange_state \<Rightarrow> subaccount_id \<Rightarrow> denom \<Rightarrow> DepositDelta option \<Rightarrow> 'b exchange_state" where
  "UpdateDepositWithDeltaWithoutBankCharge E s subaccountID d depositDelta =
     (case depositDelta of None \<Rightarrow> s
      | Some delta \<Rightarrow>
          if Delta_IsEmpty depositDelta then s
          else SetDepositOrSendToBank E s subaccountID d
                 (deposit_add (GetDeposit s subaccountID d) (AvailableBalanceDelta delta) (TotalBalanceDelta delta)) True)"

definition HasSufficientFunds :: "'b exchange_env \<Rightarrow> 'b exchange_state \<Rightarrow> subaccount_id \<Rightarrow> denom \<Rightarrow> dec \<Rightarrow> bool" where
  "HasSufficientFunds E s subaccountID d amount =
     (if IsDefaultSubaccountID subaccountID then
        dec_truncate (env_dec E) (dec_ceil (env_dec E) amount)
          \<le> GetBalance (env_bank E) (bank s) (SubaccountIDToSdkAddress subaccountID) d
      else amount \<le> AvailableBalance (GetDeposit s subaccountID d) \<and> amount \<le> TotalBalance (GetDeposit s subaccountID d))"

definition GetSpendableFunds :: "'b exchange_env \<Rightarrow> 'b exchange_state \<Rightarrow> subaccount_id \<Rightarrow> denom \<Rightarrow> dec" where
  "GetSpendableFunds E s subaccountID d =
     (if \<not> IsDefaultSubaccountID subaccountID then AvailableBalance (GetDeposit s subaccountID d)
      else LegacyNewDec (GetBalance (env_bank E) (bank s) (SubaccountIDToSdkAddress subaccountID) d)
             + AvailableBalance (GetDeposit s subaccountID d))"

definition ChargeAvailableDeposits ::
  "'b exchange_env \<Rightarrow> 'b exchange_state \<Rightarrow> subaccount_id \<Rightarrow> denom \<Rightarrow> dec \<Rightarrow> deposit_error + 'b exchange_state" where
  "ChargeAvailableDeposits E s subaccountID d amount =
     (let dep = GetDeposit s subaccountID d
      in if Deposit_IsEmpty dep then Inl ErrInsufficientDeposit
         else if AvailableBalance dep < amount then Inl ErrInsufficientDeposit
         else if IsEnforcedRestrictionsDenom E d
              \<and> \<not> SendRestrictionOk E (SubaccountIDToSdkAddress subaccountID)
                    (GetModuleAddress (env_bank E) exchange_module) d (dec_truncate (env_dec E) amount)
         then Inl ErrRestrictedSend
         else Inr (SetDeposit s subaccountID d (dep\<lparr>AvailableBalance := AvailableBalance dep - amount\<rparr>)))"

definition chargeBankAndIncrementTotalDeposits ::
  "'b exchange_env \<Rightarrow> 'b exchange_state \<Rightarrow> subaccount_id \<Rightarrow> denom \<Rightarrow> dec \<Rightarrow> deposit_error + 'b exchange_state" where
  "chargeBankAndIncrementTotalDeposits E s subaccountID d amount =
     (let intAmount = dec_truncate (env_dec E) (dec_ceil (env_dec E) amount);
          decAmount = LegacyNewDec intAmount
      in ebind (ChargeBank E s (SubaccountIDToSdkAddress subaccountID) d intAmount) (\<lambda>s.
           Inr (UpdateDepositWithDelta E s subaccountID d
                  (Some \<lparr>AvailableBalanceDelta = decAmount - amount, TotalBalanceDelta = decAmount\<rparr>))))"

definition ChargeAccount ::
  "'b exchange_env \<Rightarrow> 'b exchange_state \<Rightarrow> subaccount_id \<Rightarrow> denom \<Rightarrow> dec \<Rightarrow> deposit_error + 'b exchange_state" where
  "ChargeAccount E s subaccountID d amount =
     (if amount = 0 then Inr s
      else if amount < 0 then Inl ErrInvalidAmount
      else if IsDefaultSubaccountID subaccountID then chargeBankAndIncrementTotalDeposits E s subaccountID d amount
      else ChargeAvailableDeposits E s subaccountID d amount)"

definition IncrementDepositOrSendToBank ::
  "'b exchange_env \<Rightarrow> 'b exchange_state \<Rightarrow> subaccount_id \<Rightarrow> denom \<Rightarrow> dec \<Rightarrow> 'b exchange_state" where
  "IncrementDepositOrSendToBank E s subaccountID d amount =
     SetDepositOrSendToBank E s subaccountID d (deposit_add (GetDeposit s subaccountID d) amount amount) False"

definition IncrementDepositWithCoinOrSendToBank ::
  "'b exchange_env \<Rightarrow> 'b exchange_state \<Rightarrow> subaccount_id \<Rightarrow> denom \<Rightarrow> int \<Rightarrow> 'b exchange_state" where
  "IncrementDepositWithCoinOrSendToBank E s subaccountID d amount =
     IncrementDepositOrSendToBank E s subaccountID d (LegacyNewDec amount)"

definition IncrementDepositForNonDefaultSubaccount ::
  "'b exchange_state \<Rightarrow> subaccount_id \<Rightarrow> denom \<Rightarrow> dec \<Rightarrow> deposit_error + 'b exchange_state" where
  "IncrementDepositForNonDefaultSubaccount s subaccountID d amount =
     (if IsDefaultSubaccountID subaccountID then Inl ErrBadSubaccountID
      else Inr (SetDeposit s subaccountID d (deposit_add (GetDeposit s subaccountID d) amount amount)))"

definition DecrementDeposit ::
  "'b exchange_state \<Rightarrow> subaccount_id \<Rightarrow> denom \<Rightarrow> dec \<Rightarrow> deposit_error + 'b exchange_state" where
  "DecrementDeposit s subaccountID d amount =
     (if amount = 0 then Inr s else
      let dep = GetDeposit s subaccountID d
      in if Deposit_IsEmpty dep \<or> AvailableBalance dep < amount \<or> TotalBalance dep < amount
         then Inl ErrInsufficientDeposit
         else Inr (SetDeposit s subaccountID d (deposit_add dep (- amount) (- amount))))"

text \<open>The error of a failed charge comes with the amount, which its callers ignore.\<close>

definition DecrementDepositOrChargeFromBank ::
  "'b exchange_env \<Rightarrow> 'b exchange_state \<Rightarrow> subaccount_id \<Rightarrow> denom \<Rightarrow> dec \<Rightarrow> deposit_error + dec \<times> 'b exchange_state" where
  "DecrementDepositOrChargeFromBank E s subaccountID d amount =
     (if IsDefaultSubaccountID subaccountID then
        (let intAmount = dec_truncate (env_dec E) (dec_ceil (env_dec E) amount)
         in ebind (ChargeBank E s (SubaccountIDToSdkAddress subaccountID) d intAmount)
              (\<lambda>s. Inr (LegacyNewDec intAmount, s)))
      else ebind (DecrementDeposit s subaccountID d amount) (\<lambda>s. Inr (amount, s)))"

section \<open>Messages\<close>

definition IsDenomValid :: "'b exchange_env \<Rightarrow> 'b exchange_state \<Rightarrow> denom \<Rightarrow> bool" where
  "IsDenomValid E s d \<longleftrightarrow> 0 < GetSupply (env_bank E) (bank s) d"

definition ExecuteDeposit ::
  "'b exchange_env \<Rightarrow> 'b exchange_state \<Rightarrow> address \<Rightarrow> subaccount_id \<Rightarrow> denom \<Rightarrow> int \<Rightarrow> deposit_error + 'b exchange_state" where
  "ExecuteDeposit E s senderAddr subaccountID d amount =
     (if \<not> IsDenomValid E s d then Inl ErrInvalidCoins
      else case SendCoinsFromAccountToModule (env_bank E) (bank s) senderAddr exchange_module d amount of
          Inl _ \<Rightarrow> Inl ErrBankSend
        | Inr b \<Rightarrow> IncrementDepositForNonDefaultSubaccount (s\<lparr>bank := b\<rparr>) subaccountID d (LegacyNewDec amount))"

definition ExecuteWithdraw ::
  "'b exchange_env \<Rightarrow> 'b exchange_state \<Rightarrow> address \<Rightarrow> subaccount_id \<Rightarrow> denom \<Rightarrow> int \<Rightarrow> deposit_error + 'b exchange_state" where
  "ExecuteWithdraw E s withdrawDestAddr subaccountID d amount =
     (if \<not> IsDenomValid E s d then Inl ErrInvalidCoins
      else ebind (DecrementDeposit s subaccountID d (LegacyNewDec amount)) (\<lambda>s.
        case SendCoinsFromModuleToAccount (env_bank E) (bank s) exchange_module withdrawDestAddr d amount of
          Inl _ \<Rightarrow> Inl ErrBankSend
        | Inr b \<Rightarrow> Inr (s\<lparr>bank := b\<rparr>)))"

definition Withdraw ::
  "'b exchange_env \<Rightarrow> 'b exchange_state \<Rightarrow> address \<Rightarrow> subaccount_id \<Rightarrow> denom \<Rightarrow> int \<Rightarrow> deposit_error + 'b exchange_state" where
  "Withdraw E s withdrawAddr subaccountID d amount =
     (if \<not> CrossMarginMaintenanceOk E s subaccountID d (LegacyNewDec amount) then Inl ErrCrossMargin
      else ExecuteWithdraw E s withdrawAddr subaccountID d amount)"

definition SubaccountTransfer ::
  "'b exchange_env \<Rightarrow> 'b exchange_state \<Rightarrow> subaccount_id \<Rightarrow> subaccount_id \<Rightarrow> denom \<Rightarrow> int \<Rightarrow> deposit_error + 'b exchange_state" where
  "SubaccountTransfer E s srcSubaccountID dstSubaccountID d amount =
     (if srcSubaccountID \<noteq> dstSubaccountID \<and> \<not> CrossMarginMaintenanceOk E s srcSubaccountID d (LegacyNewDec amount)
      then Inl ErrCrossMargin
      else ebind (DecrementDeposit s srcSubaccountID d (LegacyNewDec amount)) (\<lambda>s.
        IncrementDepositForNonDefaultSubaccount s dstSubaccountID d (LegacyNewDec amount)))"

definition ExternalTransfer ::
  "'b exchange_env \<Rightarrow> 'b exchange_state \<Rightarrow> address \<Rightarrow> subaccount_id \<Rightarrow> subaccount_id \<Rightarrow> denom \<Rightarrow> int \<Rightarrow> deposit_error + 'b exchange_state" where
  "ExternalTransfer E s sender srcSubaccountID dstSubaccountID d amount =
     (if IsEnforcedRestrictionsDenom E d
         \<and> \<not> SendRestrictionOk E sender (SubaccountIDToSdkAddress dstSubaccountID) d amount
      then Inl ErrRestrictedSend
      else if srcSubaccountID = dstSubaccountID then
        (let dep = GetDeposit s srcSubaccountID d
         in if Deposit_IsEmpty dep \<or> AvailableBalance dep < LegacyNewDec amount \<or> TotalBalance dep < LegacyNewDec amount
            then Inl ErrInsufficientDeposit else Inr s)
      else if \<not> CrossMarginMaintenanceOk E s srcSubaccountID d (LegacyNewDec amount) then Inl ErrCrossMargin
      else ebind (DecrementDeposit s srcSubaccountID d (LegacyNewDec amount)) (\<lambda>s.
        if IsDefaultSubaccountID dstSubaccountID
        then Inr (IncrementDepositOrSendToBank E s dstSubaccountID d (LegacyNewDec amount))
        else IncrementDepositForNonDefaultSubaccount s dstSubaccountID d (LegacyNewDec amount)))"

section \<open>Solvency: the gap between the module's balance and the deposits\<close>

definition module_address :: "'b exchange_env \<Rightarrow> address" where
  "module_address E = GetModuleAddress (env_bank E) exchange_module"

definition user_subaccount :: "'b exchange_env \<Rightarrow> subaccount_id \<Rightarrow> bool" where
  "user_subaccount E subaccountID \<longleftrightarrow> SubaccountIDToSdkAddress subaccountID \<noteq> module_address E"

definition total_in :: "denom \<Rightarrow> subaccount_id \<times> denom \<Rightarrow> Deposit \<Rightarrow> dec" where
  "total_in d k dep = (if snd k = d then TotalBalance dep else 0)"

definition deposit_sum :: "'b exchange_state \<Rightarrow> denom \<Rightarrow> dec" where
  "deposit_sum s d = store_sum (total_in d) (deposits s)"

definition gap :: "'b exchange_env \<Rightarrow> 'b exchange_state \<Rightarrow> denom \<Rightarrow> dec" where
  "gap E s d = LegacyNewDec (GetBalance (env_bank E) (bank s) (module_address E) d) - deposit_sum s d"

text \<open>What a subaccount owns of a denom: the total balance of its deposit and, for a default subaccount, its account in the bank.\<close>

definition owned_funds :: "'b exchange_env \<Rightarrow> 'b exchange_state \<Rightarrow> subaccount_id \<Rightarrow> denom \<Rightarrow> dec" where
  "owned_funds E s sub d = (if IsDefaultSubaccountID sub then LegacyNewDec (GetBalance (env_bank E) (bank s) (SubaccountIDToSdkAddress sub) d) else 0)
     + TotalBalance (GetDeposit s sub d)"

definition store_ok :: "'b exchange_state \<Rightarrow> bool" where
  "store_ok s \<longleftrightarrow> distinct (map fst (deposits s))"

lemma store_ok_bank [simp]: "store_ok (s\<lparr>bank := b\<rparr>) = store_ok s"
  by (simp add: store_ok_def)

lemma GetDeposit_bank [simp]: "GetDeposit (s\<lparr>bank := b\<rparr>) sub d = GetDeposit s sub d"
  by (simp add: GetDeposit_def)

lemma store_ok_SetDeposit [simp]: "store_ok s \<Longrightarrow> store_ok (SetDeposit s sub d dep)"
  by (simp add: store_ok_def SetDeposit_def distinct_store)

lemma bank_SetDeposit [simp]: "bank (SetDeposit s sub d dep) = bank s"
  by (simp add: SetDeposit_def)

lemma empty_deposit: "Deposit_IsEmpty dep \<Longrightarrow> dep = NewDeposit"
  by (simp add: Deposit_IsEmpty_def NewDeposit_def)

lemma GetDeposit_SetDeposit:
  "GetDeposit (SetDeposit s sub d dep) sub' d' = (if sub' = sub \<and> d' = d then dep else GetDeposit s sub' d')"
  by (auto simp: GetDeposit_def SetDeposit_def update_conv' delete_conv' dest: empty_deposit split: option.splits)

lemma total_at: "store_at (total_in d') (deposits s) (sub, d) = (if d' = d then TotalBalance (GetDeposit s sub d) else 0)"
  by (auto simp: store_at_def total_in_def GetDeposit_def NewDeposit_def split: option.splits)

lemma deposit_sum_SetDeposit:
  assumes "store_ok s"
  shows "deposit_sum (SetDeposit s sub d dep) d'
    = deposit_sum s d' + (if d' = d then TotalBalance dep - TotalBalance (GetDeposit s sub d) else 0)"
proof -
  have "Deposit_IsEmpty dep \<Longrightarrow> TotalBalance dep = 0" by (simp add: Deposit_IsEmpty_def)
  then show ?thesis using assms
    by (auto simp: deposit_sum_def SetDeposit_def store_ok_def store_sum_update store_sum_delete total_at total_in_def)
qed

lemma gap_SetDeposit:
  "store_ok s \<Longrightarrow> gap E (SetDeposit s sub d dep) d'
    = gap E s d' - (if d' = d then TotalBalance dep - TotalBalance (GetDeposit s sub d) else 0)"
  by (simp add: gap_def deposit_sum_SetDeposit)

lemma deposit_sum_bank [simp]: "deposit_sum (s\<lparr>bank := b\<rparr>) d = deposit_sum s d"
  by (simp add: deposit_sum_def)

lemma deposit_add_simps [simp]:
  "TotalBalance (deposit_add dep a t) = TotalBalance dep + t"
  "AvailableBalance (deposit_add dep a t) = AvailableBalance dep + a"
  by (simp_all add: deposit_add_def)

text \<open>What the exchange relies on of the bank: a send that succeeds moves the amount. (A send
  restriction that redirects the coins to a third account is not such a send.)\<close>

locale funds = legacy_dec "env_dec E" for E :: "'b exchange_env" +
  assumes module_pays: "SendCoinsFromModuleToAccount (env_bank E) b m a d n = Inr b'
      \<Longrightarrow> a \<noteq> GetModuleAddress (env_bank E) m \<Longrightarrow> 0 \<le> n
      \<Longrightarrow> GetBalance (env_bank E) b' (GetModuleAddress (env_bank E) m) d'
            = GetBalance (env_bank E) b (GetModuleAddress (env_bank E) m) d' - (if d' = d then n else 0)
        \<and> GetBalance (env_bank E) b' a d' = GetBalance (env_bank E) b a d' + (if d' = d then n else 0)"
    and account_pays: "SendCoinsFromAccountToModule (env_bank E) b a m d n = Inr b'
      \<Longrightarrow> a \<noteq> GetModuleAddress (env_bank E) m \<Longrightarrow> 0 \<le> n
      \<Longrightarrow> GetBalance (env_bank E) b' (GetModuleAddress (env_bank E) m) d'
            = GetBalance (env_bank E) b (GetModuleAddress (env_bank E) m) d' + (if d' = d then n else 0)
        \<and> GetBalance (env_bank E) b' a d' = GetBalance (env_bank E) b a d' - (if d' = d then n else 0)"
begin

lemma gap_module_pays:
  assumes "SendCoinsFromModuleToAccount (env_bank E) (bank s) exchange_module a d n = Inr b'"
    "a \<noteq> module_address E" "0 \<le> n"
  shows "gap E (s\<lparr>bank := b'\<rparr>) d' = gap E s d' - (if d' = d then LegacyNewDec n else 0)"
  using module_pays [OF assms(1) _ assms(3), of d'] assms(2)
  by (auto simp: gap_def module_address_def LegacyNewDec_def)

lemma gap_account_pays:
  assumes "SendCoinsFromAccountToModule (env_bank E) (bank s) a exchange_module d n = Inr b'"
    "a \<noteq> module_address E" "0 \<le> n"
  shows "gap E (s\<lparr>bank := b'\<rparr>) d' = gap E s d' + (if d' = d then LegacyNewDec n else 0)"
  using account_pays [OF assms(1) _ assms(3), of d'] assms(2)
  by (auto simp: gap_def module_address_def LegacyNewDec_def)

lemma ChargeBank_cases:
  assumes "ChargeBank E s a d n = Inr s'"
  obtains "n = 0" "s' = s"
  | b where "0 < n" "SendCoinsFromAccountToModule (env_bank E) (bank s) a exchange_module d n = Inr b" "s' = s\<lparr>bank := b\<rparr>"
  using assms by (auto simp: ChargeBank_def split: if_splits sum.splits)

lemma ChargeBank_spec:
  assumes "ChargeBank E s a d n = Inr s'" "a \<noteq> module_address E"
  shows "gap E s' d' = gap E s d' + (if d' = d then LegacyNewDec n else 0)"
    and "GetBalance (env_bank E) (bank s') a d = GetBalance (env_bank E) (bank s) a d - n"
    and "deposits s' = deposits s" "store_ok s' = store_ok s" "GetDeposit s' sub d' = GetDeposit s sub d'"
  using assms
  by (auto elim!: ChargeBank_cases simp: gap_account_pays LegacyNewDec_def account_pays [THEN conjunct2] module_address_def)

lemma SetDepositOrSendToBank_cases:
  obtains (plain) "SetDepositOrSendToBank E s sub d dep p = SetDeposit s sub d dep"
  | (sent) n b where "IsDefaultSubaccountID sub" "0 \<le> n"
      "SendCoinsFromModuleToAccount (env_bank E) (bank s) exchange_module (SubaccountIDToSdkAddress sub) d n = Inr b"
      "SetDepositOrSendToBank E s sub d dep p
         = SetDeposit (s\<lparr>bank := b\<rparr>) sub d (deposit_add dep (- LegacyNewDec n) (- LegacyNewDec n))"
  | (charged) n s' where "IsDefaultSubaccountID sub" "ChargeBank E s (SubaccountIDToSdkAddress sub) d n = Inr s'"
      "SetDepositOrSendToBank E s sub d dep p = SetDeposit s' sub d (deposit_add dep (LegacyNewDec n) (LegacyNewDec n))"
proof (cases "0 < dec_truncate (env_dec E) (AvailableBalance dep) \<and> IsDefaultSubaccountID sub")
  case True
  define n where "n = min (dec_truncate (env_dec E) (AvailableBalance dep)) (max (dec_truncate (env_dec E) (TotalBalance dep)) 0)"
  have "0 \<le> n" using True by (simp add: n_def)
  moreover have "SetDepositOrSendToBank E s sub d dep p =
      (case SendCoinsFromModuleToAccount (env_bank E) (bank s) exchange_module (SubaccountIDToSdkAddress sub) d n of
         Inl _ \<Rightarrow> SetDeposit s sub d dep
       | Inr b \<Rightarrow> SetDeposit (s\<lparr>bank := b\<rparr>) sub d (deposit_add dep (- LegacyNewDec n) (- LegacyNewDec n)))"
    unfolding SetDepositOrSendToBank_def Let_def n_def if_P [OF True] by (rule refl)
  ultimately show ?thesis using True plain sent
    by (cases "SendCoinsFromModuleToAccount (env_bank E) (bank s) exchange_module (SubaccountIDToSdkAddress sub) d n") auto
next
  case False
  define n where "n = dec_truncate (env_dec E) (dec_ceil (env_dec E) \<bar>min (AvailableBalance dep) (TotalBalance dep)\<bar>)"
  have eq: "SetDepositOrSendToBank E s sub d dep p =
      (if \<not> p \<and> (AvailableBalance dep < 0 \<or> TotalBalance dep < 0) \<and> IsDefaultSubaccountID sub
       then case ChargeBank E s (SubaccountIDToSdkAddress sub) d n of
         Inl _ \<Rightarrow> SetDeposit s sub d dep
       | Inr s' \<Rightarrow> SetDeposit s' sub d (deposit_add dep (LegacyNewDec n) (LegacyNewDec n))
       else SetDeposit s sub d dep)"
    unfolding SetDepositOrSendToBank_def Let_def n_def if_not_P [OF False] by (rule refl)
  show ?thesis using eq plain charged
    by (cases "ChargeBank E s (SubaccountIDToSdkAddress sub) d n") (auto split: if_splits)
qed

lemma SetDepositOrSendToBank_store_ok [inv_intros]:
  "store_ok s \<Longrightarrow> store_ok (SetDepositOrSendToBank E s sub d dep p)"
  by (cases rule: SetDepositOrSendToBank_cases [of s sub d dep p]) (auto elim!: ChargeBank_cases)

lemma SetDepositOrSendToBank_gap:
  assumes "store_ok s" "user_subaccount E sub"
  shows "gap E (SetDepositOrSendToBank E s sub d dep p) d'
    = gap E s d' - (if d' = d then TotalBalance dep - TotalBalance (GetDeposit s sub d) else 0)"
proof (cases rule: SetDepositOrSendToBank_cases [of s sub d dep p])
  case plain
  then show ?thesis using assms by (simp add: gap_SetDeposit)
next
  case (sent n b)
  then show ?thesis using assms gap_module_pays [OF sent(3)]
    by (simp add: gap_SetDeposit user_subaccount_def)
next
  case (charged n s')
  then show ?thesis using assms ChargeBank_spec [OF charged(2)]
    by (simp add: gap_SetDeposit user_subaccount_def)
qed

lemma SetDepositOrSendToBank_spendable:
  assumes "user_subaccount E sub"
  shows "GetSpendableFunds E (SetDepositOrSendToBank E s sub d dep p) sub d
    = GetSpendableFunds E (SetDeposit s sub d dep) sub d"
proof (cases rule: SetDepositOrSendToBank_cases [of s sub d dep p])
  case plain
  then show ?thesis by simp
next
  case (sent n b)
  then show ?thesis using assms module_pays [OF sent(3), of d]
    by (simp add: GetSpendableFunds_def GetDeposit_SetDeposit user_subaccount_def module_address_def LegacyNewDec_def)
next
  case (charged n s')
  then show ?thesis using assms ChargeBank_spec(2) [OF charged(2)]
    by (simp add: GetSpendableFunds_def GetDeposit_SetDeposit user_subaccount_def LegacyNewDec_def algebra_simps)
qed

lemma UpdateDepositWithDelta_gap:
  assumes "store_ok s" "user_subaccount E sub"
  shows "gap E (UpdateDepositWithDelta E s sub d (Some delta)) d' = gap E s d' - (if d' = d then TotalBalanceDelta delta else 0)"
  using assms by (auto simp: UpdateDepositWithDelta_def Delta_IsEmpty_def SetDepositOrSendToBank_gap)

lemma UpdateDepositWithDelta_store_ok [inv_intros]:
  "store_ok s \<Longrightarrow> store_ok (UpdateDepositWithDelta E s sub d delta)"
  by (auto simp: UpdateDepositWithDelta_def inv_intros split: option.splits)

lemma IncrementAvailable_gap:
  assumes "store_ok s" "user_subaccount E sub"
  shows "gap E (IncrementAvailableBalanceOrBank E s sub d amount) d' = gap E s d'
    \<and> store_ok (IncrementAvailableBalanceOrBank E s sub d amount)"
  using assms by (auto simp: IncrementAvailableBalanceOrBank_def SetDepositOrSendToBank_gap inv_intros)

lemma IncrementDeposit_gap:
  assumes "store_ok s" "user_subaccount E sub"
  shows "gap E (IncrementDepositOrSendToBank E s sub d amount) d' = gap E s d' - (if d' = d then amount else 0)
    \<and> store_ok (IncrementDepositOrSendToBank E s sub d amount)"
  using assms by (auto simp: IncrementDepositOrSendToBank_def SetDepositOrSendToBank_gap inv_intros)

lemma IncrementNonDefault_gap:
  assumes "IncrementDepositForNonDefaultSubaccount s sub d amount = Inr s'" "store_ok s"
  shows "gap E s' d' = gap E s d' - (if d' = d then amount else 0) \<and> store_ok s'"
  using assms by (auto simp: IncrementDepositForNonDefaultSubaccount_def gap_SetDeposit split: if_splits)

lemma DecrementDeposit_gap:
  assumes "DecrementDeposit s sub d amount = Inr s'" "store_ok s"
  shows "gap E s' d' = gap E s d' + (if d' = d then amount else 0) \<and> store_ok s'"
  using assms by (auto simp: DecrementDeposit_def Let_def gap_SetDeposit split: if_splits)

lemma ChargeAccount_gap:
  assumes "ChargeAccount E s sub d amount = Inr s'" "store_ok s" "user_subaccount E sub"
  shows "gap E s' d' = gap E s d' \<and> store_ok s'"
proof (cases "amount = 0")
  case True
  then show ?thesis using assms by (simp add: ChargeAccount_def)
next
  case nonzero: False
  show ?thesis
  proof (cases "IsDefaultSubaccountID sub")
    case True
    then have "chargeBankAndIncrementTotalDeposits E s sub d amount = Inr s'"
      using nonzero assms(1) by (simp add: ChargeAccount_def split: if_splits)
    then obtain t where t: "ChargeBank E s (SubaccountIDToSdkAddress sub) d (dec_truncate (env_dec E) (dec_ceil (env_dec E) amount)) = Inr t"
      and s': "s' = UpdateDepositWithDelta E t sub d (Some \<lparr>AvailableBalanceDelta = dec_ceil (env_dec E) amount - amount,
        TotalBalanceDelta = dec_ceil (env_dec E) amount\<rparr>)"
      by (auto simp: chargeBankAndIncrementTotalDeposits_def Let_def ceil_whole)
    have "gap E t d' = gap E s d' + (if d' = d then dec_ceil (env_dec E) amount else 0)" "store_ok t"
      using ChargeBank_spec(1) [OF t, of d'] ChargeBank_spec(4) [OF t] assms by (simp_all add: user_subaccount_def ceil_whole)
    then show ?thesis unfolding s' using assms
      by (simp add: UpdateDepositWithDelta_gap inv_intros)
  next
    case False
    then have "ChargeAvailableDeposits E s sub d amount = Inr s'"
      using nonzero assms(1) by (simp add: ChargeAccount_def split: if_splits)
    then show ?thesis using assms
      by (auto simp: ChargeAvailableDeposits_def Let_def gap_SetDeposit split: if_splits)
  qed
qed

lemma ExecuteDeposit_gap:
  assumes "ExecuteDeposit E s a sub d n = Inr s'" "0 \<le> n" "a \<noteq> module_address E" "store_ok s"
  shows "gap E s' d' = gap E s d' \<and> store_ok s'"
proof -
  obtain b where b: "SendCoinsFromAccountToModule (env_bank E) (bank s) a exchange_module d n = Inr b"
    and s': "IncrementDepositForNonDefaultSubaccount (s\<lparr>bank := b\<rparr>) sub d (LegacyNewDec n) = Inr s'"
    using assms(1) by (auto simp: ExecuteDeposit_def split: if_splits sum.splits)
  show ?thesis using IncrementNonDefault_gap [OF s', of d'] gap_account_pays [OF b assms(3,2), of d'] assms(4) by simp
qed

lemma ExecuteWithdraw_gap:
  assumes "ExecuteWithdraw E s a sub d n = Inr s'" "0 \<le> n" "a \<noteq> module_address E" "store_ok s"
  shows "gap E s' d' = gap E s d' \<and> store_ok s'"
proof -
  obtain t where t: "DecrementDeposit s sub d (LegacyNewDec n) = Inr t"
    and r: "(case SendCoinsFromModuleToAccount (env_bank E) (bank t) exchange_module a d n of
               Inl _ \<Rightarrow> Inl ErrBankSend | Inr b \<Rightarrow> Inr (t\<lparr>bank := b\<rparr>)) = Inr s'"
    using assms(1) by (auto simp: ExecuteWithdraw_def split: if_split_asm)
  obtain b where b: "SendCoinsFromModuleToAccount (env_bank E) (bank t) exchange_module a d n = Inr b" and s': "s' = t\<lparr>bank := b\<rparr>"
    using r by (simp split: sum.split_asm)
  show ?thesis unfolding s' using DecrementDeposit_gap [OF t assms(4), of d'] gap_module_pays [OF b assms(3,2), of d'] by simp
qed

lemma SubaccountTransfer_gap:
  assumes "SubaccountTransfer E s src dst d n = Inr s'" "store_ok s"
  shows "gap E s' d' = gap E s d' \<and> store_ok s'"
proof -
  obtain t where t: "DecrementDeposit s src d (LegacyNewDec n) = Inr t"
    and s': "IncrementDepositForNonDefaultSubaccount t dst d (LegacyNewDec n) = Inr s'"
    using assms(1) by (auto simp: SubaccountTransfer_def split: if_splits)
  show ?thesis using DecrementDeposit_gap [OF t assms(2), of d'] IncrementNonDefault_gap [OF s', of d'] by simp
qed

lemma ExternalTransfer_gap:
  assumes "ExternalTransfer E s sender src dst d n = Inr s'" "store_ok s" "user_subaccount E dst"
  shows "gap E s' d' = gap E s d' \<and> store_ok s'"
proof (cases "src = dst")
  case True
  then show ?thesis using assms by (simp add: ExternalTransfer_def Let_def split: if_splits)
next
  case False
  have g: "\<not> (IsEnforcedRestrictionsDenom E d \<and> \<not> SendRestrictionOk E sender (SubaccountIDToSdkAddress dst) d n)"
    and "CrossMarginMaintenanceOk E s src d (LegacyNewDec n)"
    using assms(1) False by (auto simp: ExternalTransfer_def split: if_split_asm)
  then obtain t where t: "DecrementDeposit s src d (LegacyNewDec n) = Inr t"
    and s': "(if IsDefaultSubaccountID dst then Inr (IncrementDepositOrSendToBank E t dst d (LegacyNewDec n))
              else IncrementDepositForNonDefaultSubaccount t dst d (LegacyNewDec n)) = Inr s'"
    using assms(1) unfolding ExternalTransfer_def if_not_P [OF g] if_not_P [OF False] by auto
  have "gap E t d' = gap E s d' + (if d' = d then LegacyNewDec n else 0)" "store_ok t"
    using DecrementDeposit_gap [OF t assms(2), of d'] by simp_all
  then show ?thesis
    using s' assms(3) IncrementNonDefault_gap [of t dst d "LegacyNewDec n" s' d'] IncrementDeposit_gap [of t dst d "LegacyNewDec n" d']
    by (auto split: if_splits)
qed

end

text \<open>One funds movement: a message, the hold that a new order charges, or the refund of a hold.\<close>

inductive funds_step :: "'b exchange_env \<Rightarrow> 'b exchange_state \<Rightarrow> 'b exchange_state \<Rightarrow> bool" for E where
  step_deposit: "ExecuteDeposit E s a sub d n = Inr s' \<Longrightarrow> 0 \<le> n \<Longrightarrow> a \<noteq> module_address E \<Longrightarrow> funds_step E s s'"
| step_withdraw: "Withdraw E s a sub d n = Inr s' \<Longrightarrow> 0 \<le> n \<Longrightarrow> a \<noteq> module_address E \<Longrightarrow> funds_step E s s'"
| step_transfer: "SubaccountTransfer E s src dst d n = Inr s' \<Longrightarrow> funds_step E s s'"
| step_external: "ExternalTransfer E s sender src dst d n = Inr s' \<Longrightarrow> user_subaccount E dst \<Longrightarrow> funds_step E s s'"
| step_charge: "ChargeAccount E s sub d amount = Inr s' \<Longrightarrow> user_subaccount E sub \<Longrightarrow> funds_step E s s'"
| step_refund: "user_subaccount E sub \<Longrightarrow> funds_step E s (IncrementAvailableBalanceOrBank E s sub d amount)"

context funds
begin

lemma funds_step_gap:
  assumes "funds_step E s s'" "store_ok s"
  shows "gap E s' d' = gap E s d' \<and> store_ok s'"
  using assms
proof (induction rule: funds_step.induct)
  case (step_withdraw s a sub d n s')
  then show ?case using ExecuteWithdraw_gap [of s a sub d n s'] by (simp add: Withdraw_def split: if_splits)
qed (simp_all add: ExecuteDeposit_gap SubaccountTransfer_gap ExternalTransfer_gap ChargeAccount_gap IncrementAvailable_gap)

lemma funds_steps_gap:
  assumes "(funds_step E)\<^sup>*\<^sup>* s s'" "store_ok s"
  shows "gap E s' d' = gap E s d' \<and> store_ok s'"
  using assms by (induction rule: rtranclp_induct) (use funds_step_gap in \<open>auto\<close>)

lemma ChargeAccount_spendable:
  assumes "ChargeAccount E s sub d amount = Inr s'" "user_subaccount E sub"
  shows "GetSpendableFunds E s' sub d = GetSpendableFunds E s sub d - amount"
proof (cases "amount \<noteq> 0 \<and> IsDefaultSubaccountID sub")
  case True
  let ?c = "dec_ceil (env_dec E) amount"
  let ?delta = "\<lparr>AvailableBalanceDelta = ?c - amount, TotalBalanceDelta = ?c\<rparr>"
  from True assms(1) obtain t where t: "ChargeBank E s (SubaccountIDToSdkAddress sub) d (dec_truncate (env_dec E) ?c) = Inr t"
    and s': "s' = UpdateDepositWithDelta E t sub d (Some ?delta)" and pos: "0 < amount"
    by (auto simp: ChargeAccount_def chargeBankAndIncrementTotalDeposits_def Let_def ceil_whole split: if_splits)
  have "\<not> Delta_IsEmpty (Some ?delta)" using ceil_ge [of amount] pos by (simp add: Delta_IsEmpty_def)
  then have "GetSpendableFunds E s' sub d
      = GetSpendableFunds E (SetDeposit t sub d (deposit_add (GetDeposit t sub d) (?c - amount) ?c)) sub d"
    using SetDepositOrSendToBank_spendable [OF assms(2)] by (simp add: s' UpdateDepositWithDelta_def)
  then show ?thesis
    using ChargeBank_spec(2,5) [OF t] assms(2) True ceil_whole [of amount]
    by (simp add: GetSpendableFunds_def GetDeposit_SetDeposit user_subaccount_def LegacyNewDec_def algebra_simps)
next
  case False
  then show ?thesis using assms(1)
    by (auto simp: ChargeAccount_def ChargeAvailableDeposits_def Let_def GetSpendableFunds_def GetDeposit_SetDeposit
        split: if_splits)
qed

lemma IncrementAvailable_spendable:
  assumes "user_subaccount E sub"
  shows "GetSpendableFunds E (IncrementAvailableBalanceOrBank E s sub d amount) sub d = GetSpendableFunds E s sub d + amount"
proof (cases "amount = 0")
  case False
  have "GetSpendableFunds E (SetDeposit s sub d (deposit_add (GetDeposit s sub d) amount 0)) sub d
      = GetSpendableFunds E s sub d + amount"
    by (simp add: GetSpendableFunds_def GetDeposit_SetDeposit)
  then show ?thesis using False SetDepositOrSendToBank_spendable [OF assms]
    by (simp add: IncrementAvailableBalanceOrBank_def)
qed (simp add: IncrementAvailableBalanceOrBank_def)

lemma SetDepositOrSendToBank_owned:
  assumes "user_subaccount E sub"
  shows "owned_funds E (SetDepositOrSendToBank E s sub d dep p) sub d = owned_funds E (SetDeposit s sub d dep) sub d"
proof (cases rule: SetDepositOrSendToBank_cases [of s sub d dep p])
  case (sent n b)
  then show ?thesis using assms module_pays [OF sent(3), of d]
    by (simp add: owned_funds_def GetDeposit_SetDeposit user_subaccount_def module_address_def LegacyNewDec_def)
next
  case (charged n s')
  then show ?thesis using assms ChargeBank_spec(2) [OF charged(2)]
    by (simp add: owned_funds_def GetDeposit_SetDeposit user_subaccount_def LegacyNewDec_def algebra_simps)
qed simp

lemma SetDepositOrSendToBank_others:
  assumes "user_subaccount E sub" "(sub', d') \<noteq> (sub, d)"
  shows "GetDeposit (SetDepositOrSendToBank E s sub d dep p) sub' d' = GetDeposit s sub' d'"
proof (cases rule: SetDepositOrSendToBank_cases [of s sub d dep p])
  case (charged n s')
  then show ?thesis using assms ChargeBank_spec(5) [OF charged(2)] by (auto simp: GetDeposit_SetDeposit user_subaccount_def)
qed (use assms in \<open>auto simp: GetDeposit_SetDeposit\<close>)

lemma ChargeAccount_owned:
  assumes "ChargeAccount E s sub d amount = Inr s'" "user_subaccount E sub"
  shows "owned_funds E s' sub d = owned_funds E s sub d" "(sub', d') \<noteq> (sub, d) \<Longrightarrow> GetDeposit s' sub' d' = GetDeposit s sub' d'"
    "\<not> IsDefaultSubaccountID sub \<Longrightarrow> bank s' = bank s \<and> TotalBalance (GetDeposit s' sub d) = TotalBalance (GetDeposit s sub d)"
proof (atomize (full), cases "amount \<noteq> 0 \<and> IsDefaultSubaccountID sub")
  case True
  let ?c = "dec_ceil (env_dec E) amount"
  let ?delta = "\<lparr>AvailableBalanceDelta = ?c - amount, TotalBalanceDelta = ?c\<rparr>"
  from True assms(1) obtain t where t: "ChargeBank E s (SubaccountIDToSdkAddress sub) d (dec_truncate (env_dec E) ?c) = Inr t"
    and s': "s' = UpdateDepositWithDelta E t sub d (Some ?delta)" and pos: "0 < amount"
    by (auto simp: ChargeAccount_def chargeBankAndIncrementTotalDeposits_def Let_def ceil_whole split: if_splits)
  have "\<not> Delta_IsEmpty (Some ?delta)" using ceil_ge [of amount] pos by (simp add: Delta_IsEmpty_def)
  then have u: "s' = SetDepositOrSendToBank E t sub d (deposit_add (GetDeposit t sub d) (?c - amount) ?c) False"
    by (simp add: s' UpdateDepositWithDelta_def)
  note c = ChargeBank_spec(2,5) [OF t assms(2) [unfolded user_subaccount_def]]
  have "owned_funds E s' sub d = owned_funds E s sub d"
    using SetDepositOrSendToBank_owned [OF assms(2)] c True ceil_whole [of amount]
    by (simp add: u owned_funds_def GetDeposit_SetDeposit LegacyNewDec_def algebra_simps)
  then show "owned_funds E s' sub d = owned_funds E s sub d \<and> ((sub', d') \<noteq> (sub, d) \<longrightarrow> GetDeposit s' sub' d' = GetDeposit s sub' d')
      \<and> (\<not> IsDefaultSubaccountID sub \<longrightarrow> bank s' = bank s \<and> TotalBalance (GetDeposit s' sub d) = TotalBalance (GetDeposit s sub d))"
    using SetDepositOrSendToBank_others [OF assms(2)] c(2) True by (simp add: u)
next
  case False
  then show "owned_funds E s' sub d = owned_funds E s sub d \<and> ((sub', d') \<noteq> (sub, d) \<longrightarrow> GetDeposit s' sub' d' = GetDeposit s sub' d')
      \<and> (\<not> IsDefaultSubaccountID sub \<longrightarrow> bank s' = bank s \<and> TotalBalance (GetDeposit s' sub d) = TotalBalance (GetDeposit s sub d))"
    using assms(1)
    by (auto simp: ChargeAccount_def ChargeAvailableDeposits_def Let_def owned_funds_def GetDeposit_SetDeposit split: if_splits)
qed

lemma IncrementAvailable_owned:
  assumes "user_subaccount E sub"
  shows "owned_funds E (IncrementAvailableBalanceOrBank E s sub d amount) sub d = owned_funds E s sub d"
    "(sub', d') \<noteq> (sub, d) \<Longrightarrow> GetDeposit (IncrementAvailableBalanceOrBank E s sub d amount) sub' d' = GetDeposit s sub' d'"
    "\<not> IsDefaultSubaccountID sub \<Longrightarrow> bank (IncrementAvailableBalanceOrBank E s sub d amount) = bank s
      \<and> TotalBalance (GetDeposit (IncrementAvailableBalanceOrBank E s sub d amount) sub d) = TotalBalance (GetDeposit s sub d)"
proof -
  show "owned_funds E (IncrementAvailableBalanceOrBank E s sub d amount) sub d = owned_funds E s sub d"
    using SetDepositOrSendToBank_owned [OF assms, of s d "deposit_add (GetDeposit s sub d) amount 0" False]
    by (auto simp: IncrementAvailableBalanceOrBank_def owned_funds_def GetDeposit_SetDeposit)
  show "(sub', d') \<noteq> (sub, d) \<Longrightarrow> GetDeposit (IncrementAvailableBalanceOrBank E s sub d amount) sub' d' = GetDeposit s sub' d'"
    using SetDepositOrSendToBank_others [OF assms] by (simp add: IncrementAvailableBalanceOrBank_def)
  show "\<not> IsDefaultSubaccountID sub \<Longrightarrow> bank (IncrementAvailableBalanceOrBank E s sub d amount) = bank s
      \<and> TotalBalance (GetDeposit (IncrementAvailableBalanceOrBank E s sub d amount) sub d) = TotalBalance (GetDeposit s sub d)"
    by (simp add: IncrementAvailableBalanceOrBank_def SetDepositOrSendToBank_def GetDeposit_SetDeposit Let_def)
qed

end

section \<open>A bank that satisfies the laws\<close>

text \<open>A ledger of balances per account and denomination, with a fixed supply.\<close>

type_synonym ledger = "address \<times> denom \<Rightarrow> int"

definition ledger_send :: "ledger \<Rightarrow> address \<Rightarrow> address \<Rightarrow> denom \<Rightarrow> int \<Rightarrow> bank_error + ledger" where
  "ledger_send b src dst d n =
     (if n < 0 \<or> b (src, d) < n then Inl BankError
      else let b' = b((src, d) := b (src, d) - n) in Inr (b'((dst, d) := b' (dst, d) + n)))"

definition ledger_module :: "string \<Rightarrow> address" where
  "ledger_module m = ''module/'' @ m"

definition ledger_bank :: "ledger bank_ops" where
  "ledger_bank = \<lparr>GetBalance = (\<lambda>b a d. b (a, d)), GetSupply = (\<lambda>b d. 1000000), GetModuleAddress = ledger_module,
     SendCoinsFromModuleToAccount = (\<lambda>b m a. ledger_send b (ledger_module m) a),
     SendCoinsFromAccountToModule = (\<lambda>b a m. ledger_send b a (ledger_module m))\<rparr>"

definition ledger_env :: "ledger exchange_env" where
  "ledger_env = \<lparr>env_dec = sdk_dec, env_bank = ledger_bank, IsEnforcedRestrictionsDenom = (\<lambda>_. False),
     SendRestrictionOk = (\<lambda>_ _ _ _. True), CrossMarginMaintenanceOk = (\<lambda>_ _ _ _. True)\<rparr>"

lemma ledger_send_Inr:
  "ledger_send b src dst d n = Inr b' \<longleftrightarrow> 0 \<le> n \<and> n \<le> b (src, d)
     \<and> b' = (b((src, d) := b (src, d) - n))((dst, d) := (b((src, d) := b (src, d) - n)) (dst, d) + n)"
  by (auto simp: ledger_send_def Let_def not_less)

interpretation ledger: funds ledger_env
proof (unfold_locales, goal_cases)
  case 11
  then show ?case by (auto simp: ledger_env_def ledger_bank_def ledger_send_Inr)
next
  case 12
  then show ?case by (auto simp: ledger_env_def ledger_bank_def ledger_send_Inr)
qed (use sdk.legacy_dec_axioms in \<open>auto simp: ledger_env_def legacy_dec_def\<close>)

section \<open>Properties\<close>

text \<open>C5: The exchange stays as solvent as it was: along any sequence of deposits, withdrawals, internal and
  external transfers, order holds and refunds, the module's bank balance minus the sum of all
  deposits does not change, in any denomination, whether or not the automatic sweeps to and charges
  from the bank succeed.\<close>

theorem funds_movements_keep_solvency:
  assumes "funds E" "store_ok s" "(funds_step E)\<^sup>*\<^sup>* s s'"
  shows "gap E s' d = gap E s d"
  using funds.funds_steps_gap [OF assms(1,3,2)] by blast

definition example_user :: address where
  "example_user = replicate 20 (CHR ''a'')"

definition example_default :: subaccount_id where
  "example_default = example_user @ replicate 12 (CHR 0x00)"

definition example_sub :: subaccount_id where
  "example_sub = example_user @ replicate 12 (CHR ''b'')"

definition example_start :: "ledger exchange_state" where
  "example_start = \<lparr>deposits = [], transient_deposits = [],
     bank = (\<lambda>k. if k = (example_user, ''inj'') then 10 else 0)\<rparr>"

definition example_deposited :: "ledger exchange_state" where
  "example_deposited = (case ExecuteDeposit ledger_env example_start example_user example_sub ''inj'' 4 of
     Inr s \<Rightarrow> s | Inl _ \<Rightarrow> example_start)"

definition example_charged :: "ledger exchange_state" where
  "example_charged = (case ChargeAccount ledger_env example_deposited example_default ''inj'' 2500000000000000000 of
     Inr s \<Rightarrow> s | Inl _ \<Rightarrow> example_deposited)"

lemmas example_funds_defs = example_start_def example_user_def example_default_def example_sub_def ledger_env_def
  ledger_bank_def ledger_send_def ledger_module_def exchange_module_def IsDefaultSubaccountID_def SubaccountIDToSdkAddress_def

lemma example_deposit_eval:
  "ExecuteDeposit ledger_env example_start example_user example_sub ''inj'' 4 =
     Inr \<lparr>deposits = [((example_sub, ''inj''), \<lparr>AvailableBalance = LegacyNewDec 4, TotalBalance = LegacyNewDec 4\<rparr>)],
       transient_deposits = [((example_sub, ''inj''), \<lparr>AvailableBalance = LegacyNewDec 4, TotalBalance = LegacyNewDec 4\<rparr>)],
       bank = (bank example_start)((example_user, ''inj'') := 6, (ledger_module exchange_module, ''inj'') := 4)\<rparr>"
  by (simp add: ExecuteDeposit_def IsDenomValid_def example_funds_defs IncrementDepositForNonDefaultSubaccount_def Let_def
      numeral_eq_Suc GetDeposit_def NewDeposit_def deposit_add_def SetDeposit_def Deposit_IsEmpty_def LegacyNewDec_def)

lemma example_deposited_eq:
  "example_deposited = \<lparr>deposits = [((example_sub, ''inj''), \<lparr>AvailableBalance = LegacyNewDec 4, TotalBalance = LegacyNewDec 4\<rparr>)],
     transient_deposits = [((example_sub, ''inj''), \<lparr>AvailableBalance = LegacyNewDec 4, TotalBalance = LegacyNewDec 4\<rparr>)],
     bank = (bank example_start)((example_user, ''inj'') := 6, (ledger_module exchange_module, ''inj'') := 4)\<rparr>"
  by (simp add: example_deposited_def example_deposit_eval)

lemma example_deposit_ok: "ExecuteDeposit ledger_env example_start example_user example_sub ''inj'' 4 = Inr example_deposited"
  by (simp add: example_deposit_eval example_deposited_eq)

lemma example_charge_ok:
  "ChargeAccount ledger_env example_deposited example_default ''inj'' 2500000000000000000 = Inr example_charged"
proof -
  have "bank example_deposited (example_user, ''inj'') = 6"
    by (simp add: example_deposited_eq example_funds_defs numeral_eq_Suc)
  then have "ChargeBank ledger_env example_deposited example_user ''inj'' 3 \<noteq> Inl e" for e
    by (simp add: ChargeBank_def ledger_env_def ledger_bank_def ledger_send_def Let_def)
  then obtain t where "ChargeBank ledger_env example_deposited example_user ''inj'' 3 = Inr t"
    by (cases "ChargeBank ledger_env example_deposited example_user ''inj'' 3") auto
  then show ?thesis unfolding example_charged_def
    by (simp add: ChargeAccount_def chargeBankAndIncrementTotalDeposits_def example_default_def example_user_def
        IsDefaultSubaccountID_def SubaccountIDToSdkAddress_def ledger_env_def sdk_eval Let_def split: sum.splits)
qed

theorem funds_movements_keep_solvency_witness:
  "gap ledger_env example_charged ''inj'' = gap ledger_env example_start ''inj''"
proof (rule funds_movements_keep_solvency)
  have "funds_step ledger_env example_start example_deposited"
    by (rule step_deposit [OF example_deposit_ok]) (simp_all add: module_address_def example_funds_defs numeral_eq_Suc)
  moreover have "funds_step ledger_env example_deposited example_charged"
    by (rule step_charge [OF example_charge_ok]) (simp add: user_subaccount_def module_address_def example_funds_defs numeral_eq_Suc)
  ultimately show "(funds_step ledger_env)\<^sup>*\<^sup>* example_start example_charged" by simp
qed (simp_all add: ledger.funds_axioms store_ok_def example_start_def)

text \<open>C26: Placing and cancelling an order is a round trip on the funds. The hold charged for an amount lowers what the
  subaccount can spend by exactly that amount (bank dust included), and refunding the same amount restores it. Neither step
  changes what the subaccount owns in total: the total balance of its deposit and, for a default subaccount, its
  account in the bank. Neither touches another deposit, and the deposit of a subaccount that is not a default one is restored exactly,
  with the bank left alone.\<close>

theorem charge_refund_round_trip:
  assumes "funds E" "user_subaccount E sub" "ChargeAccount E s sub d amount = Inr s'"
    and "s'' = IncrementAvailableBalanceOrBank E s' sub d amount"
  shows "GetSpendableFunds E s' sub d = GetSpendableFunds E s sub d - amount \<and> GetSpendableFunds E s'' sub d = GetSpendableFunds E s sub d
    \<and> owned_funds E s' sub d = owned_funds E s sub d \<and> owned_funds E s'' sub d = owned_funds E s sub d
    \<and> ((sub', d') \<noteq> (sub, d) \<longrightarrow> GetDeposit s' sub' d' = GetDeposit s sub' d' \<and> GetDeposit s'' sub' d' = GetDeposit s sub' d')
    \<and> (\<not> IsDefaultSubaccountID sub \<longrightarrow> GetDeposit s'' sub d = GetDeposit s sub d \<and> bank s'' = bank s)"
proof -
  note spend = funds.ChargeAccount_spendable [OF assms(1,3,2)] funds.IncrementAvailable_spendable [OF assms(1,2)]
  note own = funds.ChargeAccount_owned [OF assms(1,3,2)] funds.IncrementAvailable_owned [OF assms(1,2)]
  have "GetDeposit s'' sub d = GetDeposit s sub d" if "\<not> IsDefaultSubaccountID sub"
  proof (rule Deposit.equality)
    show "AvailableBalance (GetDeposit s'' sub d) = AvailableBalance (GetDeposit s sub d)"
      using spend that by (simp add: assms(4) GetSpendableFunds_def)
  qed (use own(3,6) that in \<open>simp_all add: assms(4)\<close>)
  then show ?thesis using spend own by (simp add: assms(4))
qed

theorem charge_refund_round_trip_witness:
  "GetSpendableFunds ledger_env example_charged example_default ''inj''
     = GetSpendableFunds ledger_env example_deposited example_default ''inj'' - 2500000000000000000
   \<and> GetSpendableFunds ledger_env
       (IncrementAvailableBalanceOrBank ledger_env example_charged example_default ''inj'' 2500000000000000000) example_default ''inj''
     = GetSpendableFunds ledger_env example_deposited example_default ''inj''
   \<and> owned_funds ledger_env example_charged example_default ''inj'' = owned_funds ledger_env example_deposited example_default ''inj''"
proof -
  have "user_subaccount ledger_env example_default"
    by (simp add: user_subaccount_def module_address_def example_funds_defs numeral_eq_Suc)
  from charge_refund_round_trip [OF ledger.funds_axioms this example_charge_ok refl] show ?thesis by simp
qed



end
