(* ===== verification/Fee_Discounts.thy ===== *)
theory Fee_Discounts
  imports Subaccount_Deposits
begin

text \<open>
  Trading fees: the fee discount configuration that an executor threads through a block
  (\<^verbatim>\<open>exchange/types/v2/fee_discounts.go\<close>), the discounted fee rate of an account
  (\<^verbatim>\<open>exchange/keeper/feediscounts/keeper.go\<close>), volume records and the fee split of a fill
  (\<^verbatim>\<open>exchange/keeper/rewards/trades.go\<close>). Staking and the address codec are the parameter
  \<open>staking_ops\<close>, the byte helpers of go-ethereum \<open>eth_ops\<close>; a validator is an opaque handle. What the keeper reads from its store is the record
  \<open>fee_store\<close>. The staking info of a configuration is never nil here: every executor passes one.
  Indexing an empty tier list panics (\<^term>\<open>None\<close>). The mutexes are left out.
\<close>

section \<open>Data\<close>

type_synonym market_id = string
type_synonym validator = string

record FeeDiscountRates =
  MakerDiscountRate :: dec
  TakerDiscountRate :: dec

record FeeDiscountTierInfo =
  ti_MakerDiscountRate :: dec
  ti_TakerDiscountRate :: dec
  StakedAmount :: int
  Volume :: dec

record FeeDiscountSchedule =
  TierInfos :: "FeeDiscountTierInfo list"

record FeeDiscountTierTTL =
  Tier :: nat
  TtlTimestamp :: int

record EffectiveGrant =
  Granter :: string
  NetGrantedStake :: int
  IsValid :: bool

record ActiveGrant =
  ag_Granter :: string
  ag_Amount :: int

record VolumeRecord =
  MakerVolume :: dec
  TakerVolume :: dec

record FeeDiscountConfig =
  IsMarketQualified :: bool
  SubaccountMarketVolumeContributions :: "subaccount_id \<Rightarrow> (market_id \<Rightarrow> VolumeRecord option) option"
  AccountVolumeContributions :: "address \<Rightarrow> dec option"
  AccountFeeTiers :: "address \<Rightarrow> FeeDiscountRates option"
  Validators :: "string \<Rightarrow> validator option"
  NewAccounts :: "address \<Rightarrow> FeeDiscountTierTTL option"
  GrantCheckpoints :: "string set"
  InvalidGrants :: "string \<Rightarrow> string option"
  Schedule :: "FeeDiscountSchedule option"
  CurrBucketStartTimestamp :: int
  MaxTTLTimestamp :: int
  NextTTLTimestamp :: int
  FeeDiscountRatesCache :: "nat \<Rightarrow> FeeDiscountRates option"
  IsFirstFeeCycleFinished :: bool

record staking_ops =
  GetDelegatorDelegations :: "address \<Rightarrow> nat \<Rightarrow> (string \<times> dec) list"
  ValAddressFromBech32 :: "string \<Rightarrow> address option"
  st_Validator :: "address \<Rightarrow> validator option"
  TokensFromShares :: "validator \<Rightarrow> dec \<Rightarrow> dec"
  AccAddressFromBech32 :: "string \<Rightarrow> address option"
  AccAddressString :: "address \<Rightarrow> string"

record fee_store =
  GetFeeDiscountAccountTierInfo :: "address \<Rightarrow> FeeDiscountTierTTL option"
  GetFeeDiscountAccountVolumeInBucket :: "int \<Rightarrow> address \<Rightarrow> dec"
  GetPastBucketTotalVolume :: "address \<Rightarrow> dec"
  GetTotalGrantAmount :: "address \<Rightarrow> int"
  GetActiveGrant :: "address \<Rightarrow> ActiveGrant option"
  GetLastValidGrantDelegationCheckTime :: "address \<Rightarrow> int"
  GetFeeDiscountBucketDuration :: int
  BlockTime :: int

record eth_ops =
  BytesToAddress :: "string \<Rightarrow> address"
  BytesToHash :: "string \<Rightarrow> string"
  RightPadBytes :: "string \<Rightarrow> nat \<Rightarrow> string"

record fee_env =
  fe_dec :: dec_ops
  fe_eth :: eth_ops
  fe_staking :: staking_ops
  fe_store :: fee_store

section \<open>Tiers\<close>

text \<open>The loop stops at the first tier whose requirements are not met.\<close>

fun highestTierLevel :: "FeeDiscountTierInfo list \<Rightarrow> int \<Rightarrow> dec \<Rightarrow> nat" where
  "highestTierLevel [] stakedAmount tradingVolume = 0"
| "highestTierLevel (tier # tiers) stakedAmount tradingVolume =
     (if stakedAmount < StakedAmount tier \<or> tradingVolume < Volume tier then 0
      else Suc (highestTierLevel tiers stakedAmount tradingVolume))"

definition CalculateFeeDiscountTier ::
  "FeeDiscountSchedule \<Rightarrow> int \<Rightarrow> dec \<Rightarrow> FeeDiscountRates \<times> nat" where
  "CalculateFeeDiscountTier s stakedAmount tradingVolume =
     (let tierLevel = highestTierLevel (TierInfos s) stakedAmount tradingVolume
      in (if tierLevel = 0 then \<lparr>MakerDiscountRate = 0, TakerDiscountRate = 0\<rparr>
          else \<lparr>MakerDiscountRate = ti_MakerDiscountRate (TierInfos s ! (tierLevel - 1)),
                TakerDiscountRate = ti_TakerDiscountRate (TierInfos s ! (tierLevel - 1))\<rparr>,
          tierLevel))"

definition TierOneRequirements :: "FeeDiscountSchedule \<Rightarrow> (int \<times> dec) option" where
  "TierOneRequirements s = map_option (\<lambda>t. (StakedAmount t, Volume t)) (nth_opt (TierInfos s) 0)"

definition GetFeeDiscountRatesMap :: "FeeDiscountSchedule option \<Rightarrow> nat \<Rightarrow> FeeDiscountRates option" where
  "GetFeeDiscountRatesMap s tier =
     (case s of None \<Rightarrow> None
      | Some sched \<Rightarrow>
          if tier = 0 then Some \<lparr>MakerDiscountRate = 0, TakerDiscountRate = 0\<rparr>
          else map_option (\<lambda>t. \<lparr>MakerDiscountRate = ti_MakerDiscountRate t, TakerDiscountRate = ti_TakerDiscountRate t\<rparr>)
                 (nth_opt (TierInfos sched) (tier - 1)))"

definition NewFeeDiscountConfig ::
  "bool \<Rightarrow> FeeDiscountSchedule option \<Rightarrow> int \<Rightarrow> int \<Rightarrow> int \<Rightarrow> bool \<Rightarrow> FeeDiscountConfig" where
  "NewFeeDiscountConfig isQualified schedule currBucketStartTimestamp maxTTLTimestamp nextTTLTimestamp isFirstFeeCycleFinished =
     \<lparr>IsMarketQualified = isQualified, SubaccountMarketVolumeContributions = Map.empty, AccountVolumeContributions = Map.empty,
      AccountFeeTiers = Map.empty, Validators = Map.empty, NewAccounts = Map.empty, GrantCheckpoints = {}, InvalidGrants = Map.empty,
      Schedule = schedule, CurrBucketStartTimestamp = currBucketStartTimestamp, MaxTTLTimestamp = maxTTLTimestamp,
      NextTTLTimestamp = nextTTLTimestamp, FeeDiscountRatesCache = GetFeeDiscountRatesMap schedule,
      IsFirstFeeCycleFinished = isFirstFeeCycleFinished\<rparr>"

definition GetFeeDiscountRate :: "FeeDiscountConfig \<Rightarrow> address \<Rightarrow> bool \<Rightarrow> dec option" where
  "GetFeeDiscountRate c account isMaker =
     (case AccountFeeTiers c account of None \<Rightarrow> None
      | Some tier \<Rightarrow> Some (if isMaker then MakerDiscountRate tier else TakerDiscountRate tier))"

definition SetAccountTierInfo :: "FeeDiscountConfig \<Rightarrow> address \<Rightarrow> FeeDiscountRates \<Rightarrow> FeeDiscountConfig" where
  "SetAccountTierInfo c account rates = c\<lparr>AccountFeeTiers := (AccountFeeTiers c)(account \<mapsto> rates)\<rparr>"

definition SetNewAccountTierTTL :: "FeeDiscountConfig \<Rightarrow> address \<Rightarrow> nat \<Rightarrow> FeeDiscountConfig" where
  "SetNewAccountTierTTL c account tier =
     c\<lparr>NewAccounts := (NewAccounts c)(account \<mapsto> \<lparr>Tier = tier, TtlTimestamp = NextTTLTimestamp c\<rparr>)\<rparr>"

definition AddCheckpoint :: "FeeDiscountConfig \<Rightarrow> string \<Rightarrow> FeeDiscountConfig" where
  "AddCheckpoint c granter = c\<lparr>GrantCheckpoints := insert granter (GrantCheckpoints c)\<rparr>"

definition AddInvalidGrant :: "FeeDiscountConfig \<Rightarrow> string \<Rightarrow> string \<Rightarrow> FeeDiscountConfig" where
  "AddInvalidGrant c grantee granter = c\<lparr>InvalidGrants := (InvalidGrants c)(grantee \<mapsto> granter)\<rparr>"

section \<open>Stake\<close>

definition MaxGranterDelegations :: nat where
  "MaxGranterDelegations = 25"

definition CalculateStakedAmountWithoutCache :: "fee_env \<Rightarrow> address \<Rightarrow> nat \<Rightarrow> int" where
  "CalculateStakedAmountWithoutCache F staker maxDelegations =
     fold (\<lambda>(validatorAddr, shares) totalStaked.
        (case ValAddressFromBech32 (fe_staking F) validatorAddr of
           None \<Rightarrow> totalStaked
         | Some a \<Rightarrow> (case st_Validator (fe_staking F) a of
             None \<Rightarrow> totalStaked
           | Some v \<Rightarrow> totalStaked + dec_truncate (fe_dec F) (TokensFromShares (fe_staking F) v shares))))
      (GetDelegatorDelegations (fe_staking F) staker maxDelegations) 0"

text \<open>A failed decoding leaves a nil address, which is looked up all the same.\<close>

definition fetchValidatorAndUpdateCache ::
  "fee_env \<Rightarrow> string \<Rightarrow> FeeDiscountConfig \<Rightarrow> validator option \<times> FeeDiscountConfig" where
  "fetchValidatorAndUpdateCache F validatorAddr c =
     (let a = (case ValAddressFromBech32 (fe_staking F) validatorAddr of None \<Rightarrow> [] | Some a \<Rightarrow> a)
      in case st_Validator (fe_staking F) a of
           None \<Rightarrow> (None, c)
         | Some v \<Rightarrow> (Some v, c\<lparr>Validators := (Validators c)(validatorAddr \<mapsto> v)\<rparr>))"

text \<open>One round of the loop of \<^verbatim>\<open>CalculateStakedAmountWithCache\<close>.\<close>

definition cachedStep :: "fee_env \<Rightarrow> string \<times> dec \<Rightarrow> int \<times> FeeDiscountConfig \<Rightarrow> int \<times> FeeDiscountConfig" where
  "cachedStep F = (\<lambda>(validatorAddr, shares) (totalStaked, c).
        (let (v, c) = (case Validators c validatorAddr of
                         Some v \<Rightarrow> (Some v, c)
                       | None \<Rightarrow> fetchValidatorAndUpdateCache F validatorAddr c)
         in case v of None \<Rightarrow> (totalStaked, c)
            | Some v \<Rightarrow> (totalStaked + dec_truncate (fe_dec F) (TokensFromShares (fe_staking F) v shares), c)))"

definition CalculateStakedAmountWithCache ::
  "fee_env \<Rightarrow> address \<Rightarrow> FeeDiscountConfig \<Rightarrow> int \<times> FeeDiscountConfig" where
  "CalculateStakedAmountWithCache F trader c =
     fold (cachedStep F) (GetDelegatorDelegations (fe_staking F) trader 10) (0, c)"

definition getEffectiveGrant :: "fee_env \<Rightarrow> address \<Rightarrow> EffectiveGrant" where
  "getEffectiveGrant F grantee =
     (let stakeGrantedToOthers = GetTotalGrantAmount (fe_store F) grantee
      in case GetActiveGrant (fe_store F) grantee of
           None \<Rightarrow> \<lparr>Granter = '''', NetGrantedStake = - stakeGrantedToOthers, IsValid = True\<rparr>
         | Some g \<Rightarrow> \<lparr>Granter = ag_Granter g, NetGrantedStake = ag_Amount g - stakeGrantedToOthers, IsValid = True\<rparr>)"

text \<open>\<^verbatim>\<open>MustAccAddressFromBech32\<close> panics on an undecodable granter.\<close>

definition GetValidatedEffectiveGrant :: "fee_env \<Rightarrow> address \<Rightarrow> EffectiveGrant option" where
  "GetValidatedEffectiveGrant F grantee =
     (let effectiveGrant = getEffectiveGrant F grantee
      in if Granter effectiveGrant = '''' then Some effectiveGrant
         else do {
           granter \<leftarrow> AccAddressFromBech32 (fe_staking F) (Granter effectiveGrant);
           let lastCheck = GetLastValidGrantDelegationCheckTime (fe_store F) granter;
           if \<not> BlockTime (fe_store F) > lastCheck + GetFeeDiscountBucketDuration (fe_store F) then Some effectiveGrant
           else if GetTotalGrantAmount (fe_store F) granter
                   > CalculateStakedAmountWithoutCache F granter MaxGranterDelegations
           then Some \<lparr>Granter = Granter effectiveGrant,
                      NetGrantedStake = - GetTotalGrantAmount (fe_store F) grantee, IsValid = False\<rparr>
           else Some effectiveGrant
         })"

definition GetFeeDiscountTotalAccountVolume :: "fee_env \<Rightarrow> address \<Rightarrow> int \<Rightarrow> dec" where
  "GetFeeDiscountTotalAccountVolume F account currBucketStartTimestamp =
     GetFeeDiscountAccountVolumeInBucket (fe_store F) currBucketStartTimestamp account
       + GetPastBucketTotalVolume (fe_store F) account"

text \<open>The second half of \<^verbatim>\<open>GetAccountFeeDiscountRates\<close>, which recomputes the tier.\<close>

definition recomputeFeeDiscountRates ::
  "fee_env \<Rightarrow> address \<Rightarrow> FeeDiscountConfig \<Rightarrow> FeeDiscountSchedule
     \<Rightarrow> (FeeDiscountRates \<times> nat \<times> EffectiveGrant \<times> FeeDiscountConfig) option" where
  "recomputeFeeDiscountRates F account c sched = do {
     (_, tierOneVolume) \<leftarrow> TierOneRequirements sched;
     highestTier \<leftarrow> nth_opt (TierInfos sched) (length (TierInfos sched) - 1);
     let tradingVolume = (if IsFirstFeeCycleFinished c
                          then GetFeeDiscountTotalAccountVolume F account (CurrBucketStartTimestamp c)
                          else Volume highestTier);
     effectiveGrant \<leftarrow> GetValidatedEffectiveGrant F account;
     let (effectiveStakedAmount, c) =
       (if tradingVolume < tierOneVolume then (0, c)
        else let (personalStake, c) = CalculateStakedAmountWithCache F account c
             in (personalStake + NetGrantedStake effectiveGrant, c));
     let (rates, tierLevel) = CalculateFeeDiscountTier sched effectiveStakedAmount tradingVolume;
     Some (rates, tierLevel, effectiveGrant, c)
   }"

definition GetAccountFeeDiscountRates ::
  "fee_env \<Rightarrow> address \<Rightarrow> FeeDiscountConfig \<Rightarrow> FeeDiscountSchedule
     \<Rightarrow> (FeeDiscountRates \<times> nat \<times> bool \<times> EffectiveGrant \<times> FeeDiscountConfig) option" where
  "GetAccountFeeDiscountRates F account c sched =
     (let tierTTL = GetFeeDiscountAccountTierInfo (fe_store F) account;
          cached = (case tierTTL of None \<Rightarrow> None
                    | Some ttl \<Rightarrow> if TtlTimestamp ttl < MaxTTLTimestamp c then None
                        else map_option (\<lambda>rates. (rates, Tier ttl)) (FeeDiscountRatesCache c (Tier ttl)))
      in case cached of
           Some (rates, tier) \<Rightarrow> Some (rates, tier, False, getEffectiveGrant F account, c)
         | None \<Rightarrow> do {
             (rates, tierLevel, effectiveGrant, c) \<leftarrow> recomputeFeeDiscountRates F account c sched;
             Some (rates, tierLevel, True, effectiveGrant, c)
           })"

section \<open>The discounted fee rate\<close>

definition FetchAndUpdateDiscountedTradingFeeRate ::
  "fee_env \<Rightarrow> dec \<Rightarrow> bool \<Rightarrow> address \<Rightarrow> FeeDiscountConfig \<Rightarrow> (dec \<times> FeeDiscountConfig) option" where
  "FetchAndUpdateDiscountedTradingFeeRate F tradingFeeRate isMakerFee account c =
     (if tradingFeeRate < 0 then Some (tradingFeeRate, c)
      else case GetFeeDiscountRate c account isMakerFee of
        Some rate \<Rightarrow> Some (dec_mul (fe_dec F) (dec_one - rate) tradingFeeRate, c)
      | None \<Rightarrow> (case Schedule c of
          None \<Rightarrow> Some (tradingFeeRate, c)
        | Some sched \<Rightarrow> do {
            (rates, tierLevel, isTTLExpired, effectiveGrant, c) \<leftarrow> GetAccountFeeDiscountRates F account c sched;
            let c = SetAccountTierInfo c account rates;
            let c = (if isTTLExpired then
                       let c = SetNewAccountTierTTL c account tierLevel
                       in if IsValid effectiveGrant then AddCheckpoint c (Granter effectiveGrant)
                          else AddInvalidGrant c (AccAddressString (fe_staking F) account) (Granter effectiveGrant)
                     else c);
            let rate = (if isMakerFee then MakerDiscountRate rates else TakerDiscountRate rates);
            Some (dec_mul (fe_dec F) (dec_one - rate) tradingFeeRate, c)
          }))"

section \<open>Volumes\<close>

definition NewVolumeWithSingleType :: "dec \<Rightarrow> bool \<Rightarrow> VolumeRecord" where
  "NewVolumeWithSingleType volume isMaker =
     (if isMaker then \<lparr>MakerVolume = volume, TakerVolume = 0\<rparr> else \<lparr>MakerVolume = 0, TakerVolume = volume\<rparr>)"

definition Volume_IsZero :: "VolumeRecord \<Rightarrow> bool" where
  "Volume_IsZero v \<longleftrightarrow> TakerVolume v = 0 \<and> MakerVolume v = 0"

definition Volume_Add :: "VolumeRecord \<Rightarrow> VolumeRecord \<Rightarrow> VolumeRecord" where
  "Volume_Add v record' =
     (if Volume_IsZero record' then v
      else \<lparr>MakerVolume = (if MakerVolume record' \<noteq> 0 then MakerVolume v + MakerVolume record' else MakerVolume v),
            TakerVolume = (if TakerVolume record' \<noteq> 0 then TakerVolume v + TakerVolume record' else TakerVolume v)\<rparr>)"

definition Volume_Total :: "VolumeRecord \<Rightarrow> dec" where
  "Volume_Total v = TakerVolume v + MakerVolume v"

definition IncrementAccountVolumeContribution ::
  "FeeDiscountConfig \<Rightarrow> subaccount_id \<Rightarrow> market_id \<Rightarrow> dec \<Rightarrow> bool \<Rightarrow> FeeDiscountConfig" where
  "IncrementAccountVolumeContribution c subaccountID marketID amount isMaker =
     (if amount < 0 then c else
      let account = SubaccountIDToSdkAddress subaccountID;
          c = (if IsMarketQualified c then
                 c\<lparr>AccountVolumeContributions := (AccountVolumeContributions c)(account \<mapsto>
                    (case AccountVolumeContributions c account of None \<Rightarrow> amount | Some v \<Rightarrow> v + amount))\<rparr>
               else c);
          newVolume = NewVolumeWithSingleType amount isMaker
      in c\<lparr>SubaccountMarketVolumeContributions := (SubaccountMarketVolumeContributions c)(subaccountID \<mapsto>
           (case SubaccountMarketVolumeContributions c subaccountID of
              None \<Rightarrow> [marketID \<mapsto> newVolume]
            | Some inner \<Rightarrow> inner(marketID \<mapsto>
                (case inner marketID of None \<Rightarrow> newVolume | Some v \<Rightarrow> Volume_Add v newVolume))))\<rparr>)"

section \<open>Fees of a fill\<close>

record TradeFeeData =
  TotalTradeFee :: dec
  TraderFee :: dec
  TradingRewardPoints :: dec
  FeeRecipientReward :: dec
  AuctionFeeReward :: dec
  DiscountedTradeFeeRate :: dec

definition NewEmptyTradeFeeData :: "dec \<Rightarrow> TradeFeeData" where
  "NewEmptyTradeFeeData discountedTradeFeeRate =
     \<lparr>TotalTradeFee = 0, TraderFee = 0, TradingRewardPoints = 0, FeeRecipientReward = 0, AuctionFeeReward = 0,
      DiscountedTradeFeeRate = discountedTradeFeeRate\<rparr>"

definition GetOrderFillFeeInfo :: "dec_ops \<Rightarrow> dec \<Rightarrow> dec \<Rightarrow> dec \<Rightarrow> dec \<times> dec \<times> dec \<times> dec" where
  "GetOrderFillFeeInfo D orderFillNotional tradeFeeRate relayerFeeShareRate =
     (let totalTradeFee = dec_mul D orderFillNotional tradeFeeRate;
          feeRecipientReward = \<bar>dec_mul D relayerFeeShareRate totalTradeFee\<bar>
      in if totalTradeFee < 0
         then (totalTradeFee, totalTradeFee + feeRecipientReward, feeRecipientReward, totalTradeFee)
         else (totalTradeFee, totalTradeFee, feeRecipientReward, totalTradeFee - feeRecipientReward))"

text \<open>The execution price is only read for a non-zero fill; it may be nil otherwise.\<close>

definition GetTradeDataAndIncrementVolumeContribution ::
  "fee_env \<Rightarrow> subaccount_id \<Rightarrow> market_id \<Rightarrow> dec \<Rightarrow> dec option \<Rightarrow> dec \<Rightarrow> dec \<Rightarrow> dec \<Rightarrow> FeeDiscountConfig \<Rightarrow> bool
     \<Rightarrow> (TradeFeeData \<times> FeeDiscountConfig) option" where
  "GetTradeDataAndIncrementVolumeContribution F subaccountID marketID fillQuantity executionPrice
       tradeFeeRate relayerFeeShareRate tradeRewardMultiplier c isMaker = do {
     (discountedTradeFeeRate, c) \<leftarrow> FetchAndUpdateDiscountedTradingFeeRate F tradeFeeRate isMaker
        (SubaccountIDToSdkAddress subaccountID) c;
     if fillQuantity = 0 then Some (NewEmptyTradeFeeData discountedTradeFeeRate, c)
     else do {
       price \<leftarrow> executionPrice;
       let orderFillNotional = dec_mul (fe_dec F) fillQuantity price;
       let (totalTradeFee, traderFee, feeRecipientReward, auctionFeeReward) =
         GetOrderFillFeeInfo (fe_dec F) orderFillNotional discountedTradeFeeRate relayerFeeShareRate;
       let c = IncrementAccountVolumeContribution c subaccountID marketID orderFillNotional isMaker;
       Some (\<lparr>TotalTradeFee = totalTradeFee, TraderFee = traderFee,
              TradingRewardPoints = \<bar>dec_mul (fe_dec F) orderFillNotional tradeRewardMultiplier\<bar>,
              FeeRecipientReward = feeRecipientReward, AuctionFeeReward = auctionFeeReward,
              DiscountedTradeFeeRate = discountedTradeFeeRate\<rparr>, c)
     }
   }"

section \<open>Stake with and without the validator cache\<close>

definition cache_coherent :: "fee_env \<Rightarrow> FeeDiscountConfig \<Rightarrow> bool" where
  "cache_coherent F c \<longleftrightarrow> (\<forall>addr v. Validators c addr = Some v \<longrightarrow>
     (\<exists>a. ValAddressFromBech32 (fe_staking F) addr = Some a \<and> st_Validator (fe_staking F) a = Some v))"

definition stakeOf :: "fee_env \<Rightarrow> (string \<times> dec) list \<Rightarrow> int" where
  "stakeOf F ds = (\<Sum>(validatorAddr, shares)\<leftarrow>ds.
     (case ValAddressFromBech32 (fe_staking F) validatorAddr of None \<Rightarrow> 0
      | Some a \<Rightarrow> (case st_Validator (fe_staking F) a of None \<Rightarrow> 0
          | Some v \<Rightarrow> dec_truncate (fe_dec F) (TokensFromShares (fe_staking F) v shares))))"

lemma stakeOf_simps [simp]:
  "stakeOf F [] = 0"
  "stakeOf F ((validatorAddr, shares) # ds) =
     (case ValAddressFromBech32 (fe_staking F) validatorAddr of None \<Rightarrow> 0
      | Some a \<Rightarrow> (case st_Validator (fe_staking F) a of None \<Rightarrow> 0
          | Some v \<Rightarrow> dec_truncate (fe_dec F) (TokensFromShares (fe_staking F) v shares))) + stakeOf F ds"
  by (simp_all add: stakeOf_def)

lemma uncached_stake: "CalculateStakedAmountWithoutCache F a n = stakeOf F (GetDelegatorDelegations (fe_staking F) a n)"
proof -
  have "fold (\<lambda>(validatorAddr, shares) totalStaked.
        (case ValAddressFromBech32 (fe_staking F) validatorAddr of
           None \<Rightarrow> totalStaked
         | Some a \<Rightarrow> (case st_Validator (fe_staking F) a of
             None \<Rightarrow> totalStaked
           | Some v \<Rightarrow> totalStaked + dec_truncate (fe_dec F) (TokensFromShares (fe_staking F) v shares)))) ds t
    = t + stakeOf F ds" for ds t
    by (induction ds arbitrary: t) (auto split: option.splits)
  then show ?thesis by (simp add: CalculateStakedAmountWithoutCache_def)
qed

lemma cachedStep_spec:
  assumes "cache_coherent F c" "st_Validator (fe_staking F) [] = None"
  shows "\<exists>vs. cachedStep F (addr, shares) (t, c) = (t + stakeOf F [(addr, shares)], c\<lparr>Validators := vs\<rparr>)
    \<and> cache_coherent F (c\<lparr>Validators := vs\<rparr>)"
proof (cases "Validators c addr")
  case (Some v)
  then obtain a where "ValAddressFromBech32 (fe_staking F) addr = Some a" "st_Validator (fe_staking F) a = Some v"
    using assms(1) by (auto simp: cache_coherent_def)
  then show ?thesis using Some assms(1)
    by (intro exI [of _ "Validators c"]) (simp add: cachedStep_def)
next
  case None
  show ?thesis
  proof (cases "\<exists>a v. ValAddressFromBech32 (fe_staking F) addr = Some a \<and> st_Validator (fe_staking F) a = Some v")
    case True
    then obtain a v where "ValAddressFromBech32 (fe_staking F) addr = Some a" "st_Validator (fe_staking F) a = Some v"
      by blast
    then show ?thesis using None assms(1)
      by (intro exI [of _ "(Validators c)(addr \<mapsto> v)"])
        (auto simp: cachedStep_def fetchValidatorAndUpdateCache_def cache_coherent_def)
  next
    case False
    then have "fetchValidatorAndUpdateCache F addr c = (None, c)" "stakeOf F [(addr, shares)] = 0"
      using assms(2) by (auto simp: fetchValidatorAndUpdateCache_def split: option.splits)
    then show ?thesis using None assms(1)
      by (intro exI [of _ "Validators c"]) (simp add: cachedStep_def)
  qed
qed

lemma cached_stake:
  assumes "cache_coherent F c" "st_Validator (fe_staking F) [] = None"
  shows "\<exists>vs. CalculateStakedAmountWithCache F a c
      = (stakeOf F (GetDelegatorDelegations (fe_staking F) a 10), c\<lparr>Validators := vs\<rparr>)
    \<and> cache_coherent F (c\<lparr>Validators := vs\<rparr>)"
proof -
  have "\<exists>vs. fold (cachedStep F) ds (t, c) = (t + stakeOf F ds, c\<lparr>Validators := vs\<rparr>) \<and> cache_coherent F (c\<lparr>Validators := vs\<rparr>)"
    if "cache_coherent F c" for ds t c
    using that
  proof (induction ds arbitrary: t c)
    case Nil
    then show ?case by (intro exI [of _ "Validators c"]) simp
  next
    case (Cons x ds)
    obtain addr shares where x: "x = (addr, shares)" by (cases x)
    obtain vs where vs: "cachedStep F x (t, c) = (t + stakeOf F [x], c\<lparr>Validators := vs\<rparr>)" "cache_coherent F (c\<lparr>Validators := vs\<rparr>)"
      using cachedStep_spec [OF Cons.prems assms(2)] x by blast
    obtain ws where "fold (cachedStep F) ds (t + stakeOf F [x], c\<lparr>Validators := vs\<rparr>)
        = (t + stakeOf F [x] + stakeOf F ds, c\<lparr>Validators := vs, Validators := ws\<rparr>)"
      "cache_coherent F (c\<lparr>Validators := vs, Validators := ws\<rparr>)"
      using Cons.IH [OF vs(2)] by blast
    then show ?case using vs(1) x by (intro exI [of _ ws]) simp
  qed
  from this [OF assms(1), of "GetDelegatorDelegations (fe_staking F) a 10" 0] show ?thesis
    by (simp add: CalculateStakedAmountWithCache_def)
qed

section \<open>Bounds of the discounted rate\<close>

definition rates_ok :: "FeeDiscountRates \<Rightarrow> bool" where
  "rates_ok r \<longleftrightarrow> 0 \<le> MakerDiscountRate r \<and> MakerDiscountRate r \<le> dec_one \<and> 0 \<le> TakerDiscountRate r \<and> TakerDiscountRate r \<le> dec_one"

definition tier_ok :: "FeeDiscountTierInfo \<Rightarrow> bool" where
  "tier_ok t \<longleftrightarrow> 0 \<le> ti_MakerDiscountRate t \<and> ti_MakerDiscountRate t \<le> dec_one \<and> 0 \<le> ti_TakerDiscountRate t \<and> ti_TakerDiscountRate t \<le> dec_one"

definition config_ok :: "FeeDiscountConfig \<Rightarrow> bool" where
  "config_ok c \<longleftrightarrow> (\<forall>a r. AccountFeeTiers c a = Some r \<longrightarrow> rates_ok r) \<and> (\<forall>n r. FeeDiscountRatesCache c n = Some r \<longrightarrow> rates_ok r)
     \<and> (\<forall>s. Schedule c = Some s \<longrightarrow> TierInfos s \<noteq> [] \<and> (\<forall>t \<in> set (TierInfos s). tier_ok t))"

definition grants_ok :: "fee_env \<Rightarrow> bool" where
  "grants_ok F \<longleftrightarrow> (\<forall>a g. GetActiveGrant (fe_store F) a = Some g \<longrightarrow> ag_Granter g = '''' \<or> AccAddressFromBech32 (fe_staking F) (ag_Granter g) \<noteq> None)"

lemma highestTierLevel_le: "highestTierLevel ts stake vol \<le> length ts"
  by (induction ts) auto

lemma tier_rates_ok:
  assumes "\<forall>t \<in> set (TierInfos s). tier_ok t"
  shows "rates_ok (fst (CalculateFeeDiscountTier s stake vol))"
proof (cases "highestTierLevel (TierInfos s) stake vol")
  case (Suc k)
  then have "k < length (TierInfos s)" using highestTierLevel_le [of "TierInfos s" stake vol] by simp
  then show ?thesis using Suc assms by (auto simp: CalculateFeeDiscountTier_def rates_ok_def tier_ok_def Let_def)
qed (simp add: CalculateFeeDiscountTier_def rates_ok_def Let_def)

lemma NewFeeDiscountConfig_ok:
  assumes "\<forall>s. sched = Some s \<longrightarrow> TierInfos s \<noteq> [] \<and> (\<forall>t \<in> set (TierInfos s). tier_ok t)"
  shows "config_ok (NewFeeDiscountConfig q sched t1 t2 t3 f)"
  using assms by (auto simp: config_ok_def NewFeeDiscountConfig_def GetFeeDiscountRatesMap_def rates_ok_def tier_ok_def
      Some_eq_nth_opt split: option.splits if_splits)

lemma cached_stake_only_cache: "\<exists>n vs. CalculateStakedAmountWithCache F a c = (n, c\<lparr>Validators := vs\<rparr>)"
proof -
  have step: "\<exists>n vs. cachedStep F x (t, c) = (n, c\<lparr>Validators := vs\<rparr>)" for x t c
  proof -
    obtain addr shares where x: "x = (addr, shares)" by (cases x)
    have "\<exists>v vs. fetchValidatorAndUpdateCache F addr c = (v, c\<lparr>Validators := vs\<rparr>)"
      by (cases "st_Validator (fe_staking F) (case ValAddressFromBech32 (fe_staking F) addr of None \<Rightarrow> [] | Some a \<Rightarrow> a)")
        (auto simp: fetchValidatorAndUpdateCache_def intro: exI [of _ "Validators c"])
    then obtain v vs where fetch: "fetchValidatorAndUpdateCache F addr c = (v, c\<lparr>Validators := vs\<rparr>)" by blast
    show ?thesis
    proof (cases "Validators c addr")
      case (Some w)
      then show ?thesis by (intro exI [of _ "t + dec_truncate (fe_dec F) (TokensFromShares (fe_staking F) w shares)"]
            exI [of _ "Validators c"]) (simp add: x cachedStep_def)
    next
      case None
      have "cachedStep F x (t, c) = (case v of None \<Rightarrow> t
          | Some w \<Rightarrow> t + dec_truncate (fe_dec F) (TokensFromShares (fe_staking F) w shares), c\<lparr>Validators := vs\<rparr>)"
        using fetch None by (cases v) (simp_all add: x cachedStep_def)
      then show ?thesis by blast
    qed
  qed
  have "\<exists>n vs. fold (cachedStep F) ds (t, c) = (n, c\<lparr>Validators := vs\<rparr>)" for ds t
  proof (induction ds arbitrary: t c)
    case Nil
    then show ?case by (intro exI [of _ t] exI [of _ "Validators c"]) simp
  next
    case (Cons x ds)
    obtain n vs where "cachedStep F x (t, c) = (n, c\<lparr>Validators := vs\<rparr>)" using step by blast
    moreover obtain m ws where "fold (cachedStep F) ds (n, c\<lparr>Validators := vs\<rparr>) = (m, c\<lparr>Validators := vs, Validators := ws\<rparr>)"
      using Cons [of n "c\<lparr>Validators := vs\<rparr>"] by blast
    ultimately show ?case by (intro exI [of _ m] exI [of _ ws]) simp
  qed
  then show ?thesis by (simp add: CalculateStakedAmountWithCache_def)
qed

lemma config_ok_frame [simp]:
  "config_ok (c\<lparr>Validators := vs\<rparr>) = config_ok c"
  "config_ok (SetNewAccountTierTTL c a n) = config_ok c"
  "config_ok (AddCheckpoint c g) = config_ok c"
  "config_ok (AddInvalidGrant c g h) = config_ok c"
  by (simp_all add: config_ok_def SetNewAccountTierTTL_def AddCheckpoint_def AddInvalidGrant_def)

lemma config_ok_SetAccountTierInfo: "config_ok c \<Longrightarrow> rates_ok r \<Longrightarrow> config_ok (SetAccountTierInfo c a r)"
  by (simp add: config_ok_def SetAccountTierInfo_def)

lemma config_ok_Increment: "config_ok c \<Longrightarrow> config_ok (IncrementAccountVolumeContribution c sub m amount isMaker)"
  by (simp add: config_ok_def IncrementAccountVolumeContribution_def Let_def)

lemma validated_grant_returns:
  assumes "grants_ok F"
  shows "\<exists>g. GetValidatedEffectiveGrant F a = Some g"
proof (cases "Granter (getEffectiveGrant F a) = ''''")
  case True
  then show ?thesis by (simp add: GetValidatedEffectiveGrant_def Let_def)
next
  case False
  with assms obtain y where "AccAddressFromBech32 (fe_staking F) (Granter (getEffectiveGrant F a)) = Some y"
    by (fastforce simp: getEffectiveGrant_def grants_ok_def Let_def split: option.splits)
  then show ?thesis using False by (simp add: GetValidatedEffectiveGrant_def Let_def)
qed

lemma recompute_returns:
  assumes "grants_ok F" "config_ok c" "Schedule c = Some sched"
  shows "\<exists>r n g c'. recomputeFeeDiscountRates F a c sched = Some (r, n, g, c') \<and> rates_ok r \<and> config_ok c'"
proof -
  obtain g where g: "GetValidatedEffectiveGrant F a = Some g" using validated_grant_returns [OF assms(1)] by blast
  obtain n vs where n: "CalculateStakedAmountWithCache F a c = (n, c\<lparr>Validators := vs\<rparr>)" using cached_stake_only_cache by blast
  have sched: "TierInfos sched \<noteq> []" "\<forall>t \<in> set (TierInfos sched). tier_ok t"
    using assms(2,3) by (auto simp: config_ok_def)
  obtain t ts where ts: "TierInfos sched = t # ts" using sched(1) by (cases "TierInfos sched") auto
  have "\<exists>u. nth_opt (t # ts) (length ts) = Some u" by (simp add: nth_opt_def)
  then obtain u where u: "nth_opt (t # ts) (length ts) = Some u" ..
  show ?thesis using assms(2) tier_rates_ok [OF sched(2)] ts u
    by (auto simp: recomputeFeeDiscountRates_def TierOneRequirements_def nth_opt_def g n Let_def split: prod.splits)
      (metis fst_conv)+
qed

lemma rates_return:
  assumes "grants_ok F" "config_ok c" "Schedule c = Some sched"
  shows "\<exists>r n e g c'. GetAccountFeeDiscountRates F a c sched = Some (r, n, e, g, c') \<and> rates_ok r \<and> config_ok c'"
proof -
  obtain r n g c' where "recomputeFeeDiscountRates F a c sched = Some (r, n, g, c')" "rates_ok r" "config_ok c'"
    using recompute_returns [OF assms] by blast
  then show ?thesis using assms(2)
    by (auto simp: GetAccountFeeDiscountRates_def Let_def config_ok_def split: option.splits if_splits)
qed

lemma discount_in_bounds:
  assumes "legacy_dec D" "0 \<le> rate" "0 \<le> x" "x \<le> dec_one"
  shows "0 \<le> dec_mul D (dec_one - x) rate \<and> dec_mul D (dec_one - x) rate \<le> rate"
proof -
  have "dec_mul D (dec_one - x) rate \<le> dec_mul D dec_one rate"
    using assms by (intro legacy_dec.mul_right_mono) auto
  then show ?thesis
    using legacy_dec.mul_nonneg [OF assms(1), of "dec_one - x" rate] legacy_dec.mul_one(2) [OF assms(1)] assms by simp
qed

lemma discounted_rate:
  assumes "legacy_dec (fe_dec F)" "grants_ok F" "config_ok c"
  shows "\<exists>r c'. FetchAndUpdateDiscountedTradingFeeRate F rate isMaker a c = Some (r, c') \<and> config_ok c'
    \<and> (if rate < 0 then r = rate else 0 \<le> r \<and> r \<le> rate)"
proof (cases "rate < 0")
  case True
  then show ?thesis using assms(3) by (simp add: FetchAndUpdateDiscountedTradingFeeRate_def)
next
  case False
  note bounds = discount_in_bounds [OF assms(1), of rate]
  show ?thesis
  proof (cases "GetFeeDiscountRate c a isMaker")
    case (Some x)
    then have "0 \<le> x \<and> x \<le> dec_one"
      using assms(3) by (auto simp: GetFeeDiscountRate_def config_ok_def rates_ok_def split: option.splits)
    then show ?thesis using Some False bounds [of x] assms(3) by (simp add: FetchAndUpdateDiscountedTradingFeeRate_def)
  next
    case None
    show ?thesis
    proof (cases "Schedule c")
      case sched: (Some sched)
      obtain r n e g c' where r: "GetAccountFeeDiscountRates F a c sched = Some (r, n, e, g, c')" "rates_ok r" "config_ok c'"
        using rates_return [OF assms(2,3) sched] by blast
      then have "0 \<le> (if isMaker then MakerDiscountRate r else TakerDiscountRate r)
          \<and> (if isMaker then MakerDiscountRate r else TakerDiscountRate r) \<le> dec_one" by (simp add: rates_ok_def)
      then show ?thesis using None sched r False bounds [of "if isMaker then MakerDiscountRate r else TakerDiscountRate r"]
        by (simp add: FetchAndUpdateDiscountedTradingFeeRate_def Let_def config_ok_SetAccountTierInfo)
    qed (use None False assms(3) in \<open>simp add: FetchAndUpdateDiscountedTradingFeeRate_def\<close>)
  qed
qed

section \<open>Fee split\<close>

definition fees_split :: "TradeFeeData \<Rightarrow> bool" where
  "fees_split td \<longleftrightarrow> FeeRecipientReward td + AuctionFeeReward td = TraderFee td \<and> 0 \<le> FeeRecipientReward td
     \<and> (0 \<le> TotalTradeFee td \<longrightarrow> TraderFee td = TotalTradeFee td) \<and> (TotalTradeFee td < 0 \<longrightarrow> TraderFee td \<le> 0)"

lemma trade_data:
  assumes D: "legacy_dec (fe_dec F)" and "grants_ok F" "config_ok c" "0 \<le> share" "share \<le> dec_one"
    and price: "q \<noteq> 0 \<longrightarrow> price \<noteq> None"
  shows "\<exists>td c'. GetTradeDataAndIncrementVolumeContribution F sub m q price rate share mult c isMaker = Some (td, c')
    \<and> config_ok c' \<and> fees_split td
    \<and> (if rate < 0 then DiscountedTradeFeeRate td = rate else 0 \<le> DiscountedTradeFeeRate td \<and> DiscountedTradeFeeRate td \<le> rate)
    \<and> TotalTradeFee td = (if q = 0 then 0 else dec_mul (fe_dec F) (dec_mul (fe_dec F) q (the price)) (DiscountedTradeFeeRate td))"
proof -
  obtain r c' where r: "FetchAndUpdateDiscountedTradingFeeRate F rate isMaker (SubaccountIDToSdkAddress sub) c = Some (r, c')"
    "config_ok c'" "if rate < 0 then r = rate else 0 \<le> r \<and> r \<le> rate"
    using discounted_rate [OF assms(1-3)] by blast
  show ?thesis
  proof (cases "q = 0")
    case True
    then show ?thesis using r
      by (simp add: GetTradeDataAndIncrementVolumeContribution_def NewEmptyTradeFeeData_def fees_split_def)
  next
    case False
    then obtain p where p: "price = Some p" using price by auto
    define T where "T = dec_mul (fe_dec F) (dec_mul (fe_dec F) q p) r"
    have "\<bar>dec_mul (fe_dec F) share T\<bar> \<le> \<bar>T\<bar>"
    proof (cases "0 \<le> T")
      case True
      then show ?thesis using legacy_dec.mul_le_left [OF D True assms(5)] legacy_dec.mul_comm [OF D]
          legacy_dec.mul_nonneg [OF D assms(4) True] by simp
    next
      case False
      then have "0 \<le> - T" by simp
      then show ?thesis using legacy_dec.mul_le_left [OF D _ assms(5), of "- T"] legacy_dec.mul_comm [OF D]
          legacy_dec.mul_nonneg [OF D assms(4), of "- T"] legacy_dec.mul_minus_right [OF D, of share T] by simp
    qed
    then show ?thesis using False p r
      by (auto simp: GetTradeDataAndIncrementVolumeContribution_def GetOrderFillFeeInfo_def Let_def fees_split_def
          config_ok_Increment T_def [symmetric])
  qed
qed

section \<open>Properties\<close>

text \<open>C31: The fee rate charged to an account is always computed and lies between zero and the market's rate;
  a negative (rebate) rate is never discounted. The configuration threaded through the block keeps
  its discount rates between zero and one. The fee data of a trade is always computed too, at a rate within the same bounds, and
  its fee is split without loss: the rewards of the fee recipient and of the auction add up to the trader's fee, the
  recipient's reward is not negative, and a fee that is not a rebate is paid by the trader in full.\<close>

theorem discounted_fee_rate_bounds:
  assumes "legacy_dec (fe_dec F)" "grants_ok F" "config_ok c"
    and "0 \<le> share" "share \<le> dec_one" "q \<noteq> 0 \<longrightarrow> price \<noteq> None"
  shows "(\<exists>r c'. FetchAndUpdateDiscountedTradingFeeRate F rate isMaker account c = Some (r, c') \<and> config_ok c'
      \<and> (if rate < 0 then r = rate else 0 \<le> r \<and> r \<le> rate))
    \<and> (\<exists>td c'. GetTradeDataAndIncrementVolumeContribution F sub m q price rate share mult c isMaker = Some (td, c') \<and> config_ok c'
      \<and> (if rate < 0 then DiscountedTradeFeeRate td = rate else 0 \<le> DiscountedTradeFeeRate td \<and> DiscountedTradeFeeRate td \<le> rate)
      \<and> TotalTradeFee td = (if q = 0 then 0 else dec_mul (fe_dec F) (dec_mul (fe_dec F) q (the price)) (DiscountedTradeFeeRate td))
      \<and> FeeRecipientReward td + AuctionFeeReward td = TraderFee td \<and> 0 \<le> FeeRecipientReward td
      \<and> (if 0 \<le> TotalTradeFee td then TraderFee td = TotalTradeFee td else TraderFee td \<le> 0))"
proof (intro conjI)
  show "\<exists>r c'. FetchAndUpdateDiscountedTradingFeeRate F rate isMaker account c = Some (r, c') \<and> config_ok c'
      \<and> (if rate < 0 then r = rate else 0 \<le> r \<and> r \<le> rate)"
    by (rule discounted_rate [OF assms(1-3)])
  obtain td c' where td: "GetTradeDataAndIncrementVolumeContribution F sub m q price rate share mult c isMaker = Some (td, c')"
      "config_ok c'" "fees_split td"
      "if rate < 0 then DiscountedTradeFeeRate td = rate else 0 \<le> DiscountedTradeFeeRate td \<and> DiscountedTradeFeeRate td \<le> rate"
      "TotalTradeFee td = (if q = 0 then 0 else dec_mul (fe_dec F) (dec_mul (fe_dec F) q (the price)) (DiscountedTradeFeeRate td))"
    using trade_data [OF assms] by blast
  show "\<exists>td c'. GetTradeDataAndIncrementVolumeContribution F sub m q price rate share mult c isMaker = Some (td, c') \<and> config_ok c'
      \<and> (if rate < 0 then DiscountedTradeFeeRate td = rate else 0 \<le> DiscountedTradeFeeRate td \<and> DiscountedTradeFeeRate td \<le> rate)
      \<and> TotalTradeFee td = (if q = 0 then 0 else dec_mul (fe_dec F) (dec_mul (fe_dec F) q (the price)) (DiscountedTradeFeeRate td))
      \<and> FeeRecipientReward td + AuctionFeeReward td = TraderFee td \<and> 0 \<le> FeeRecipientReward td
      \<and> (if 0 \<le> TotalTradeFee td then TraderFee td = TotalTradeFee td else TraderFee td \<le> 0)"
    using td(3) by (intro exI [of _ td] exI [of _ c'] conjI td(1,2,4,5)) (simp_all add: fees_split_def)
qed

definition example_schedule :: FeeDiscountSchedule where
  "example_schedule = \<lparr>TierInfos = [\<lparr>ti_MakerDiscountRate = 100000000000000000, ti_TakerDiscountRate = 200000000000000000,
     StakedAmount = 100, Volume = LegacyNewDec 50\<rparr>]\<rparr>"

definition example_config :: FeeDiscountConfig where
  "example_config = NewFeeDiscountConfig True (Some example_schedule) 0 0 0 True"

definition example_fee_env :: fee_env where
  "example_fee_env = \<lparr>fe_dec = sdk_dec,
     fe_eth = \<lparr>BytesToAddress = (\<lambda>b. b), BytesToHash = (\<lambda>b. b), RightPadBytes = (\<lambda>b n. b @ replicate (n - length b) (CHR 0x00))\<rparr>,
     fe_staking = \<lparr>GetDelegatorDelegations = (\<lambda>_ _. [(''val'', LegacyNewDec 120), (''val'', LegacyNewDec 30)]),
       ValAddressFromBech32 = (\<lambda>v. if v = ''val'' then Some v else None), st_Validator = (\<lambda>a. if a = ''val'' then Some a else None),
       TokensFromShares = (\<lambda>_ shares. shares), AccAddressFromBech32 = Some, AccAddressString = (\<lambda>a. a)\<rparr>,
     fe_store = \<lparr>GetFeeDiscountAccountTierInfo = (\<lambda>_. None), GetFeeDiscountAccountVolumeInBucket = (\<lambda>_ _. LegacyNewDec 40),
       GetPastBucketTotalVolume = (\<lambda>_. LegacyNewDec 20), GetTotalGrantAmount = (\<lambda>_. 0), GetActiveGrant = (\<lambda>_. None),
       GetLastValidGrantDelegationCheckTime = (\<lambda>_. 0), GetFeeDiscountBucketDuration = 10, BlockTime = 5\<rparr>\<rparr>"

lemma example_fee_env_ok: "legacy_dec (fe_dec example_fee_env)" "grants_ok example_fee_env" "config_ok example_config"
  using sdk.legacy_dec_axioms
  by (simp_all add: example_fee_env_def grants_ok_def example_config_def NewFeeDiscountConfig_ok example_schedule_def tier_ok_def)

theorem discounted_fee_rate_bounds_witness:
  "(\<exists>r c'. FetchAndUpdateDiscountedTradingFeeRate example_fee_env 1000000000000000 False ''trader'' example_config = Some (r, c')
     \<and> config_ok c' \<and> 0 \<le> r \<and> r \<le> 1000000000000000)
   \<and> (\<exists>td c'. GetTradeDataAndIncrementVolumeContribution example_fee_env ''sub'' ''m'' dec_one (Some dec_one) 1000000000000000
       400000000000000000 dec_one example_config False = Some (td, c') \<and> FeeRecipientReward td + AuctionFeeReward td = TraderFee td)"
  using discounted_fee_rate_bounds [OF example_fee_env_ok, of 400000000000000000 dec_one "Some dec_one" 1000000000000000 False "''trader''" "''sub''" "''m''" dec_one]
  by auto

text \<open>C32: The validator cache is transparent: computing an account's stake through it gives the amount the
  direct computation over the same delegations gives, and leaves a coherent cache.\<close>

theorem cached_stake_is_stake:
  assumes "cache_coherent F c" "st_Validator (fe_staking F) [] = None"
  shows "fst (CalculateStakedAmountWithCache F trader c) = CalculateStakedAmountWithoutCache F trader 10
    \<and> cache_coherent F (snd (CalculateStakedAmountWithCache F trader c))"
  using cached_stake [OF assms, of trader] by (auto simp: uncached_stake)

theorem cached_stake_is_stake_witness:
  "fst (CalculateStakedAmountWithCache example_fee_env ''trader'' example_config) = CalculateStakedAmountWithoutCache example_fee_env ''trader'' 10
    \<and> cache_coherent example_fee_env (snd (CalculateStakedAmountWithCache example_fee_env ''trader'' example_config))"
  by (rule cached_stake_is_stake)
    (simp_all add: cache_coherent_def example_config_def NewFeeDiscountConfig_def example_fee_env_def)

end
