(* ===== verification/Spot_Settlement.thy ===== *)
theory Spot_Settlement
  imports Batch_Auction Fee_Discounts
begin

text \<open>
  Settlement of spot matches: the state expansion of every matched order
  (\<^verbatim>\<open>exchange/keeper/spot/order_matching.go\<close>), the deposit deltas, trade events and reward points it
  contributes (\<^verbatim>\<open>exchange/types/v2/spot.go\<close>, \<^verbatim>\<open>exchange/types/trading_rewards.go\<close>), and the executors that assemble
  them for limit orders (\<^verbatim>\<open>exchange/fba/spot_executor.go\<close>) and market orders
  (\<^verbatim>\<open>exchange/fba/spot_market_order_executor.go\<close>). The fee discount configuration is threaded through.
  An order that the code mutates in place is returned with its new fillable quantity, inside the
  expansion. \<^term>\<open>None\<close> is a panic. A nil fill slice is the empty list.
\<close>

section \<open>Data\<close>

datatype MarketStatus = MarketStatus_Unspecified | MarketStatus_Active | MarketStatus_Paused | MarketStatus_Demolished
  | MarketStatus_Expired | MarketStatus_ForcePaused

record SpotMarket =
  BaseDenom :: denom
  QuoteDenom :: denom
  MakerFeeRate :: dec
  TakerFeeRate :: dec
  RelayerFeeShareRate :: dec
  MarketId :: market_id
  BaseDecimals :: "32 word"
  QuoteDecimals :: "32 word"
  Status :: MarketStatus
  MinPriceTickSize :: dec
  MinQuantityTickSize :: dec
  MinNotional :: "dec option"

record PointsMultiplier =
  MakerPointsMultiplier :: dec
  TakerPointsMultiplier :: dec

record SpotOrderStateExpansion =
  BaseChangeAmount :: dec
  BaseRefundAmount :: dec
  QuoteChangeAmount :: dec
  QuoteRefundAmount :: dec
  TradePrice :: "dec option"
  x_FeeRecipient :: address
  x_FeeRecipientReward :: dec
  x_AuctionFeeReward :: dec
  TraderFeeReward :: dec
  x_TradingRewardPoints :: dec
  LimitOrder :: "SpotLimitOrder option"
  LimitOrderFillQuantity :: "dec option"
  MarketOrder :: "SpotMarketOrder option"
  MarketOrderFillQuantity :: "dec option"
  x_OrderHash :: string
  OrderPrice :: dec
  SubaccountID :: subaccount_id
  TraderAddress :: string
  x_Cid :: string

record SpotLimitOrderDelta =
  delta_Order :: SpotLimitOrder
  FillQuantity :: dec

datatype ExecutionType = ExecutionType_Unspecified | ExecutionType_Market | ExecutionType_LimitFill
  | ExecutionType_LimitMatchRestingOrder | ExecutionType_LimitMatchNewOrder | ExecutionType_MarketLiquidation
  | ExecutionType_ExpiryMarketSettlement | ExecutionType_OffsettingPosition | ExecutionType_Synthetic

record TradeLog =
  tl_Quantity :: dec
  tl_Price :: "dec option"
  tl_SubaccountId :: subaccount_id
  tl_Fee :: dec
  tl_OrderHash :: string
  FeeRecipientAddress :: address
  tl_Cid :: string

record EventBatchSpotExecution =
  ev_MarketId :: market_id
  IsBuy :: bool
  ev_ExecutionType :: ExecutionType
  Trades :: "TradeLog list"

record EventNewSpotOrders =
  new_MarketId :: market_id
  BuyOrders :: "SpotLimitOrder list"
  SellOrders :: "SpotLimitOrder list"

record SpotVwapData =
  vwap_Price :: dec
  vwap_Quantity :: dec

type_synonym RewardPoints = "(string \<times> dec) list"

record SpotOrderbookMatchingResults =
  TransientBuyOrderbookFills :: "OrderbookFills option"
  RestingBuyOrderbookFills :: "OrderbookFills option"
  TransientSellOrderbookFills :: "OrderbookFills option"
  RestingSellOrderbookFills :: "OrderbookFills option"
  r_ClearingPrice :: dec
  r_ClearingQuantity :: dec

record SpotBatchExecutionData =
  Market :: SpotMarket
  BaseDenomDepositDeltas :: DepositDeltas
  QuoteDenomDepositDeltas :: DepositDeltas
  BaseDenomDepositSubaccountIDs :: "subaccount_id list"
  QuoteDenomDepositSubaccountIDs :: "subaccount_id list"
  LimitOrderFilledDeltas :: "SpotLimitOrderDelta list"
  MarketOrderExecutionEvent :: "EventBatchSpotExecution option"
  LimitOrderExecutionEvent :: "EventBatchSpotExecution list"
  NewOrdersEvent :: "EventNewSpotOrders option"
  b_TradingRewardPoints :: RewardPoints
  VwapData :: SpotVwapData

section \<open>Addresses and chain format\<close>

definition OrderInfo_FeeRecipientAddress :: "fee_env \<Rightarrow> OrderInfo \<Rightarrow> address" where
  "OrderInfo_FeeRecipientAddress F info =
     BytesToAddress (fe_eth F) (case AccAddressFromBech32 (fe_staking F) (FeeRecipient info) of None \<Rightarrow> [] | Some a \<Rightarrow> a)"

definition EthAddressToSubaccountID :: "fee_env \<Rightarrow> address \<Rightarrow> subaccount_id" where
  "EthAddressToSubaccountID F addr = BytesToHash (fe_eth F) (RightPadBytes (fe_eth F) addr 32)"

definition SubaccountIDToEthAddress :: "fee_env \<Rightarrow> subaccount_id \<Rightarrow> address" where
  "SubaccountIDToEthAddress F subaccountID = BytesToAddress (fe_eth F) (take 20 subaccountID)"

definition QuantityToChainFormat :: "dec_ops \<Rightarrow> dec \<Rightarrow> 32 word \<Rightarrow> dec" where
  "QuantityToChainFormat D humanReadableValue decimals =
     dec_mul D humanReadableValue (dec_power D (LegacyNewDec 10) (unat decimals))"

definition NotionalToChainFormat :: "dec_ops \<Rightarrow> dec \<Rightarrow> 32 word \<Rightarrow> dec" where
  "NotionalToChainFormat D humanReadableValue decimals =
     dec_mul D humanReadableValue (dec_power D (LegacyNewDec 10) (unat decimals))"

section \<open>State expansions\<close>

definition getSpotMarketOrderStateExpansion ::
  "fee_env \<Rightarrow> market_id \<Rightarrow> SpotMarketOrder \<Rightarrow> bool \<Rightarrow> dec option \<Rightarrow> dec option \<Rightarrow> dec \<Rightarrow> dec \<Rightarrow> PointsMultiplier
     \<Rightarrow> FeeDiscountConfig \<Rightarrow> (SpotOrderStateExpansion \<times> FeeDiscountConfig) option" where
  "getSpotMarketOrderStateExpansion F marketID ord isMarketBuy fill clearingPrice takerFeeRate relayerFeeShareRate pm c = do {
     let fillQuantity = (case fill of None \<Rightarrow> 0 | Some q \<Rightarrow> q);
     let orderNotional = (case clearingPrice of None \<Rightarrow> 0 | Some p \<Rightarrow> dec_mul (fe_dec F) fillQuantity p);
     let subaccountID = SubaccountId (mo_OrderInfo ord);
     (feeData, c) \<leftarrow> GetTradeDataAndIncrementVolumeContribution F subaccountID marketID fillQuantity clearingPrice
        takerFeeRate relayerFeeShareRate (TakerPointsMultiplier pm) c False;
     let (baseChange, quoteChange, baseRefund, quoteRefund) =
       (if isMarketBuy then
          let quoteChange = (case clearingPrice of None \<Rightarrow> 0
                | Some p \<Rightarrow> - (dec_mul (fe_dec F) fillQuantity p + TotalTradeFee feeData))
          in (fillQuantity, quoteChange, 0, BalanceHold ord + quoteChange)
        else
          (- fillQuantity, case clearingPrice of None \<Rightarrow> 0 | Some p \<Rightarrow> orderNotional - TotalTradeFee feeData,
           if fillQuantity < oi_Quantity (mo_OrderInfo ord) then oi_Quantity (mo_OrderInfo ord) - fillQuantity else 0, 0));
     Some (\<lparr>BaseChangeAmount = baseChange, BaseRefundAmount = baseRefund, QuoteChangeAmount = quoteChange,
       QuoteRefundAmount = quoteRefund, TradePrice = Some (case clearingPrice of None \<Rightarrow> 0 | Some p \<Rightarrow> p),
       x_FeeRecipient = OrderInfo_FeeRecipientAddress F (mo_OrderInfo ord),
       x_FeeRecipientReward = FeeRecipientReward feeData, x_AuctionFeeReward = AuctionFeeReward feeData, TraderFeeReward = 0,
       x_TradingRewardPoints = TradingRewardPoints feeData, LimitOrder = None, LimitOrderFillQuantity = None,
       MarketOrder = Some ord, MarketOrderFillQuantity = Some fillQuantity, x_OrderHash = mo_OrderHash ord,
       OrderPrice = Price (mo_OrderInfo ord), SubaccountID = subaccountID,
       TraderAddress = AccAddressString (fe_staking F) (take 20 subaccountID), x_Cid = Cid (mo_OrderInfo ord)\<rparr>, c)
   }"

text \<open>The fields of a limit order's expansion that do not depend on its side.\<close>

definition limitExpansion ::
  "fee_env \<Rightarrow> SpotLimitOrder \<Rightarrow> dec \<Rightarrow> dec option \<Rightarrow> TradeFeeData \<Rightarrow> dec \<Rightarrow> dec \<Rightarrow> dec \<Rightarrow> dec \<Rightarrow> SpotOrderStateExpansion" where
  "limitExpansion F ord fillQuantity price feeData baseChange quoteChange quoteRefund traderFeeReward =
     \<lparr>BaseChangeAmount = baseChange, BaseRefundAmount = 0, QuoteChangeAmount = quoteChange, QuoteRefundAmount = quoteRefund,
      TradePrice = price, x_FeeRecipient = OrderInfo_FeeRecipientAddress F (lo_OrderInfo ord),
      x_FeeRecipientReward = FeeRecipientReward feeData, x_AuctionFeeReward = AuctionFeeReward feeData,
      TraderFeeReward = traderFeeReward, x_TradingRewardPoints = TradingRewardPoints feeData,
      LimitOrder = Some (ord\<lparr>Fillable := Fillable ord - fillQuantity\<rparr>), LimitOrderFillQuantity = Some fillQuantity,
      MarketOrder = None, MarketOrderFillQuantity = None, x_OrderHash = lo_OrderHash ord, OrderPrice = lo_Price ord,
      SubaccountID = SubaccountId (lo_OrderInfo ord),
      TraderAddress = AccAddressString (fe_staking F) (take 20 (SubaccountId (lo_OrderInfo ord))),
      x_Cid = Cid (lo_OrderInfo ord)\<rparr>"

definition getRestingSpotLimitBuyStateExpansion ::
  "fee_env \<Rightarrow> market_id \<Rightarrow> SpotLimitOrder \<Rightarrow> dec \<Rightarrow> dec \<Rightarrow> dec \<Rightarrow> dec \<Rightarrow> PointsMultiplier \<Rightarrow> FeeDiscountConfig
     \<Rightarrow> (SpotOrderStateExpansion \<times> FeeDiscountConfig) option" where
  "getRestingSpotLimitBuyStateExpansion F marketID ord fillQuantity fillPrice makerFeeRate relayerFeeShareRate pm c = do {
     (feeData, c) \<leftarrow> GetTradeDataAndIncrementVolumeContribution F (SubaccountId (lo_OrderInfo ord)) marketID fillQuantity
        (Some fillPrice) makerFeeRate relayerFeeShareRate (MakerPointsMultiplier pm) c True;
     let orderNotional = dec_mul (fe_dec F) fillQuantity fillPrice;
     let (quoteChangeAmount, quoteRefund) =
       (if TotalTradeFee feeData < 0 then (- orderNotional + \<bar>TraderFee feeData\<bar>, \<bar>TraderFee feeData\<bar>)
        else (- (orderNotional + TotalTradeFee feeData), 0));
     let positiveDiscountedFeeRatePart = max 0 (DiscountedTradeFeeRate feeData);
     let quoteRefund =
       (if fillPrice \<noteq> lo_Price ord then
          let priceDelta = lo_Price ord - fillPrice;
              clearingRefund = dec_mul (fe_dec F) fillQuantity priceDelta;
              matchedFeeRefund = dec_mul (fe_dec F) positiveDiscountedFeeRatePart (dec_mul (fe_dec F) fillQuantity priceDelta)
          in quoteRefund + (clearingRefund + matchedFeeRefund)
        else quoteRefund);
     let quoteRefund =
       (if 0 < TotalTradeFee feeData then
          let makerFeeRateDelta = max makerFeeRate 0 - DiscountedTradeFeeRate feeData
          in quoteRefund + dec_mul (fe_dec F) (dec_mul (fe_dec F) fillQuantity (lo_Price ord)) makerFeeRateDelta
        else quoteRefund);
     Some (limitExpansion F ord fillQuantity (Some fillPrice) feeData fillQuantity quoteChangeAmount quoteRefund (TraderFee feeData), c)
   }"

definition getSpotLimitSellStateExpansion ::
  "fee_env \<Rightarrow> market_id \<Rightarrow> SpotLimitOrder \<Rightarrow> bool \<Rightarrow> dec \<Rightarrow> dec \<Rightarrow> dec \<Rightarrow> dec \<Rightarrow> PointsMultiplier \<Rightarrow> FeeDiscountConfig
     \<Rightarrow> (SpotOrderStateExpansion \<times> FeeDiscountConfig) option" where
  "getSpotLimitSellStateExpansion F marketID ord isMaker fillQuantity fillPrice tradeFeeRate relayerFeeShareRate pm c = do {
     let orderNotional = dec_mul (fe_dec F) fillQuantity fillPrice;
     (feeData, c) \<leftarrow> GetTradeDataAndIncrementVolumeContribution F (SubaccountId (lo_OrderInfo ord)) marketID fillQuantity
        (Some fillPrice) tradeFeeRate relayerFeeShareRate
        (if isMaker then MakerPointsMultiplier pm else TakerPointsMultiplier pm) c isMaker;
     Some (limitExpansion F ord fillQuantity (Some fillPrice) feeData (- fillQuantity) (orderNotional - TraderFee feeData) 0
             (TraderFee feeData), c)
   }"

definition getTransientSpotLimitBuyStateExpansion ::
  "fee_env \<Rightarrow> market_id \<Rightarrow> SpotLimitOrder \<Rightarrow> dec \<Rightarrow> dec \<Rightarrow> dec \<Rightarrow> dec \<Rightarrow> dec \<Rightarrow> PointsMultiplier \<Rightarrow> FeeDiscountConfig
     \<Rightarrow> (SpotOrderStateExpansion \<times> FeeDiscountConfig) option" where
  "getTransientSpotLimitBuyStateExpansion F marketID ord clearingPrice fillQuantity makerFeeRate takerFeeRate
       relayerFeeShareRate pm c = do {
     (feeData, c) \<leftarrow> GetTradeDataAndIncrementVolumeContribution F (SubaccountId (lo_OrderInfo ord)) marketID fillQuantity
        (Some clearingPrice) takerFeeRate relayerFeeShareRate (TakerPointsMultiplier pm) c False;
     let (orderNotional, clearingChargeOrRefund, matchedFeeRefund) =
       (if fillQuantity \<noteq> 0 then
          let priceDelta = lo_Price ord - clearingPrice
          in (dec_mul (fe_dec F) fillQuantity clearingPrice, dec_mul (fe_dec F) fillQuantity priceDelta,
              dec_mul (fe_dec F) (dec_mul (fe_dec F) fillQuantity (DiscountedTradeFeeRate feeData)) priceDelta)
        else (0, 0, 0));
     let quoteChangeAmount = - (orderNotional + TotalTradeFee feeData);
     let positiveMakerFeePart = max 0 makerFeeRate;
     let unfilledQuantity = oi_Quantity (lo_OrderInfo ord) - fillQuantity;
     let unmatchedFeeRefund = dec_mul (fe_dec F) (dec_mul (fe_dec F) unfilledQuantity (lo_Price ord))
           (takerFeeRate - positiveMakerFeePart);
     let feeRefund = matchedFeeRefund + unmatchedFeeRefund;
     let quoteRefundAmount = clearingChargeOrRefund + feeRefund;
     let takerFeeRateDelta = takerFeeRate - DiscountedTradeFeeRate feeData;
     let matchedFeeDiscountRefund = dec_mul (fe_dec F) (dec_mul (fe_dec F) fillQuantity (lo_Price ord)) takerFeeRateDelta;
     Some (limitExpansion F ord fillQuantity (Some clearingPrice) feeData fillQuantity quoteChangeAmount
             (quoteRefundAmount + matchedFeeDiscountRefund) 0, c)
   }"

section \<open>Expansions of the fills of a book\<close>

text \<open>A fill slice shorter than the orders is an index out of range.\<close>

fun ProcessSpotMarketOrderStateExpansions ::
  "fee_env \<Rightarrow> market_id \<Rightarrow> bool \<Rightarrow> SpotMarketOrder list \<Rightarrow> dec option list \<Rightarrow> dec option \<Rightarrow> dec \<Rightarrow> dec \<Rightarrow> PointsMultiplier
     \<Rightarrow> FeeDiscountConfig \<Rightarrow> (SpotOrderStateExpansion list \<times> FeeDiscountConfig) option" where
  "ProcessSpotMarketOrderStateExpansions F marketID isMarketBuy [] fills clearingPrice feeRate share pm c = Some ([], c)"
| "ProcessSpotMarketOrderStateExpansions F marketID isMarketBuy (ord # orders) [] clearingPrice feeRate share pm c = None"
| "ProcessSpotMarketOrderStateExpansions F marketID isMarketBuy (ord # orders) (fill # fills) clearingPrice feeRate share pm c = do {
     (x, c) \<leftarrow> getSpotMarketOrderStateExpansion F marketID ord isMarketBuy fill clearingPrice feeRate share pm c;
     (xs, c) \<leftarrow> ProcessSpotMarketOrderStateExpansions F marketID isMarketBuy orders fills clearingPrice feeRate share pm c;
     Some (x # xs, c)
   }"

fun restingExpansions ::
  "fee_env \<Rightarrow> market_id \<Rightarrow> SpotLimitOrder list \<Rightarrow> dec list \<Rightarrow> bool \<Rightarrow> dec option \<Rightarrow> dec \<Rightarrow> dec \<Rightarrow> PointsMultiplier
     \<Rightarrow> FeeDiscountConfig \<Rightarrow> (SpotOrderStateExpansion list \<times> FeeDiscountConfig) option" where
  "restingExpansions F marketID [] fills isLimitBuy clearingPrice makerFeeRate share pm c = Some ([], c)"
| "restingExpansions F marketID (ord # orders) [] isLimitBuy clearingPrice makerFeeRate share pm c = None"
| "restingExpansions F marketID (ord # orders) (fillQuantity # fills) isLimitBuy clearingPrice makerFeeRate share pm c = do {
     let fillPrice = (case clearingPrice of None \<Rightarrow> lo_Price ord | Some p \<Rightarrow> p);
     (x, c) \<leftarrow> (if isLimitBuy
        then getRestingSpotLimitBuyStateExpansion F marketID ord fillQuantity fillPrice makerFeeRate share pm c
        else getSpotLimitSellStateExpansion F marketID ord True fillQuantity fillPrice makerFeeRate share pm c);
     (xs, c) \<leftarrow> restingExpansions F marketID orders fills isLimitBuy clearingPrice makerFeeRate share pm c;
     Some (x # xs, c)
   }"

definition ProcessRestingSpotLimitOrderExpansions ::
  "fee_env \<Rightarrow> market_id \<Rightarrow> OrderbookFills \<Rightarrow> bool \<Rightarrow> dec option \<Rightarrow> dec \<Rightarrow> dec \<Rightarrow> PointsMultiplier
     \<Rightarrow> FeeDiscountConfig \<Rightarrow> (SpotOrderStateExpansion list \<times> FeeDiscountConfig) option" where
  "ProcessRestingSpotLimitOrderExpansions F marketID fills isLimitBuy clearingPrice makerFeeRate share pm c =
     restingExpansions F marketID (fills_Orders fills) (FillQuantities fills) isLimitBuy clearingPrice makerFeeRate share pm c"

fun transientBuyExpansions ::
  "fee_env \<Rightarrow> SpotMarket \<Rightarrow> SpotLimitOrder list \<Rightarrow> dec list \<Rightarrow> dec \<Rightarrow> PointsMultiplier \<Rightarrow> FeeDiscountConfig
     \<Rightarrow> (SpotOrderStateExpansion list \<times> FeeDiscountConfig) option" where
  "transientBuyExpansions F m [] fills clearingPrice pm c = Some ([], c)"
| "transientBuyExpansions F m (ord # orders) [] clearingPrice pm c = None"
| "transientBuyExpansions F m (ord # orders) (fillQuantity # fills) clearingPrice pm c = do {
     (x, c) \<leftarrow> getTransientSpotLimitBuyStateExpansion F (MarketId m) ord clearingPrice fillQuantity (MakerFeeRate m)
        (TakerFeeRate m) (RelayerFeeShareRate m) pm c;
     (xs, c) \<leftarrow> transientBuyExpansions F m orders fills clearingPrice pm c;
     Some (x # xs, c)
   }"

fun transientSellExpansions ::
  "fee_env \<Rightarrow> SpotMarket \<Rightarrow> SpotLimitOrder list \<Rightarrow> dec list \<Rightarrow> dec option \<Rightarrow> PointsMultiplier \<Rightarrow> FeeDiscountConfig
     \<Rightarrow> (SpotOrderStateExpansion list \<times> FeeDiscountConfig) option" where
  "transientSellExpansions F m [] fills clearingPrice pm c = Some ([], c)"
| "transientSellExpansions F m (ord # orders) [] clearingPrice pm c = None"
| "transientSellExpansions F m (ord # orders) (fillQuantity # fills) clearingPrice pm c = do {
     let fillPrice = (case clearingPrice of None \<Rightarrow> lo_Price ord | Some p \<Rightarrow> p);
     (x, c) \<leftarrow> getSpotLimitSellStateExpansion F (MarketId m) ord False fillQuantity fillPrice (TakerFeeRate m)
        (RelayerFeeShareRate m) pm c;
     (xs, c) \<leftarrow> transientSellExpansions F m orders fills clearingPrice pm c;
     Some (x # xs, c)
   }"

definition newResting :: "SpotOrderStateExpansion list \<Rightarrow> SpotLimitOrder list" where
  "newResting xs = [ord. Some ord \<leftarrow> map LimitOrder xs, 0 < Fillable ord]"

definition ProcessTransientSpotLimitBuyOrderbookMatchingResults ::
  "fee_env \<Rightarrow> SpotMarket \<Rightarrow> OrderbookFills \<Rightarrow> dec \<Rightarrow> PointsMultiplier \<Rightarrow> FeeDiscountConfig
     \<Rightarrow> (SpotOrderStateExpansion list \<times> SpotLimitOrder list \<times> FeeDiscountConfig) option" where
  "ProcessTransientSpotLimitBuyOrderbookMatchingResults F m fills clearingPrice pm c = do {
     let quantities = (if FillQuantities fills = [] then replicate (length (fills_Orders fills)) 0 else FillQuantities fills);
     (xs, c) \<leftarrow> transientBuyExpansions F m (fills_Orders fills) quantities clearingPrice pm c;
     Some (xs, newResting xs, c)
   }"

definition ProcessTransientSpotLimitSellOrderbookMatchingResults ::
  "fee_env \<Rightarrow> SpotMarket \<Rightarrow> OrderbookFills \<Rightarrow> dec option \<Rightarrow> PointsMultiplier \<Rightarrow> FeeDiscountConfig
     \<Rightarrow> (SpotOrderStateExpansion list \<times> SpotLimitOrder list \<times> FeeDiscountConfig) option" where
  "ProcessTransientSpotLimitSellOrderbookMatchingResults F m fills clearingPrice pm c = do {
     (xs, c) \<leftarrow> transientSellExpansions F m (fills_Orders fills) (FillQuantities fills) clearingPrice pm c;
     Some (xs, newResting xs, c)
   }"

section \<open>Deposit deltas, trades and reward points\<close>

definition UpdateFromDepositDeltas ::
  "fee_env \<Rightarrow> SpotMarket \<Rightarrow> SpotOrderStateExpansion \<Rightarrow> DepositDeltas \<times> DepositDeltas \<Rightarrow> DepositDeltas \<times> DepositDeltas" where
  "UpdateFromDepositDeltas F m e = (\<lambda>(baseDeltas, quoteDeltas).
     (let base = (\<lambda>v. QuantityToChainFormat (fe_dec F) v (BaseDecimals m));
          quote = (\<lambda>v. NotionalToChainFormat (fe_dec F) v (QuoteDecimals m));
          traderBase = \<lparr>AvailableBalanceDelta = base (BaseRefundAmount e), TotalBalanceDelta = base (BaseChangeAmount e)\<rparr>;
          traderQuote = \<lparr>AvailableBalanceDelta = quote (QuoteRefundAmount e), TotalBalanceDelta = quote (QuoteChangeAmount e)\<rparr>;
          traderBase = (if 0 < BaseChangeAmount e then AddAvailableBalance traderBase (base (BaseChangeAmount e)) else traderBase);
          traderQuote = (if 0 < QuoteChangeAmount e then AddAvailableBalance traderQuote (quote (QuoteChangeAmount e)) else traderQuote);
          feeRecipientSubaccount = EthAddressToSubaccountID F (x_FeeRecipient e);
          feeRecipientSubaccount = (if feeRecipientSubaccount = ZeroSubaccountID then AuctionSubaccountID else feeRecipientSubaccount);
          baseDeltas = ApplyDepositDelta baseDeltas (SubaccountID e) traderBase;
          quoteDeltas = ApplyDepositDelta quoteDeltas (SubaccountID e) traderQuote;
          quoteDeltas = ApplyUniformDelta quoteDeltas feeRecipientSubaccount (quote (x_FeeRecipientReward e));
          quoteDeltas = ApplyUniformDelta quoteDeltas AuctionSubaccountID (quote (x_AuctionFeeReward e))
      in (baseDeltas, quoteDeltas)))"

definition AddPointsForAddress :: "RewardPoints \<Rightarrow> string \<Rightarrow> dec \<Rightarrow> RewardPoints" where
  "AddPointsForAddress l addr newPoints =
     (if \<not> 0 < newPoints then l
      else AList.update addr (case map_of l addr of None \<Rightarrow> newPoints | Some v \<Rightarrow> v + newPoints) l)"

definition MergeTradingRewardPoints :: "RewardPoints \<Rightarrow> RewardPoints \<Rightarrow> RewardPoints" where
  "MergeTradingRewardPoints m1 m2 =
     (if m1 = [] then m2 else if m2 = [] then m1
      else if length m2 \<le> length m1 then fold (\<lambda>(k, v) m. AddPointsForAddress m k v) m2 m1
      else fold (\<lambda>(k, v) m. AddPointsForAddress m k v) m1 m2)"

text \<open>A self-relayed trade pays no separate fee to its recipient.\<close>

definition realizedTradeFee :: "fee_env \<Rightarrow> SpotOrderStateExpansion \<Rightarrow> dec" where
  "realizedTradeFee F e =
     (if x_FeeRecipient e = SubaccountIDToEthAddress F (SubaccountID e) then x_AuctionFeeReward e
      else x_FeeRecipientReward e + x_AuctionFeeReward e)"

definition tradeLog :: "fee_env \<Rightarrow> SpotOrderStateExpansion \<Rightarrow> TradeLog" where
  "tradeLog F e = \<lparr>tl_Quantity = \<bar>BaseChangeAmount e\<bar>, tl_Price = TradePrice e, tl_SubaccountId = SubaccountID e,
     tl_Fee = realizedTradeFee F e, tl_OrderHash = x_OrderHash e, FeeRecipientAddress = x_FeeRecipient e, tl_Cid = x_Cid e\<rparr>"

definition filledDelta :: "SpotOrderStateExpansion \<Rightarrow> SpotLimitOrderDelta list" where
  "filledDelta e = (case (LimitOrder e, LimitOrderFillQuantity e) of
      (Some ord, Some q) \<Rightarrow> [\<lparr>delta_Order = ord, FillQuantity = q\<rparr>] | _ \<Rightarrow> [])"

definition GetBatchExecutionEventsFromSpotLimitOrderStateExpansions ::
  "fee_env \<Rightarrow> bool \<Rightarrow> SpotMarket \<Rightarrow> ExecutionType \<Rightarrow> SpotOrderStateExpansion list \<Rightarrow> DepositDeltas \<times> DepositDeltas
     \<Rightarrow> EventBatchSpotExecution option \<times> SpotLimitOrderDelta list \<times> RewardPoints \<times> (DepositDeltas \<times> DepositDeltas)" where
  "GetBatchExecutionEventsFromSpotLimitOrderStateExpansions F buy m executionType xs deltas =
     (let deltas = fold (UpdateFromDepositDeltas F m) xs deltas;
          traded = filter (\<lambda>e. BaseChangeAmount e \<noteq> 0) xs;
          filledDeltas = concat (map filledDelta traded);
          points = fold (\<lambda>e l. AddPointsForAddress l (TraderAddress e) (x_TradingRewardPoints e)) traded [];
          trades = map (tradeLog F) traded
      in (if trades = [] then None
          else Some \<lparr>ev_MarketId = MarketId m, IsBuy = buy, ev_ExecutionType = executionType, Trades = trades\<rparr>,
          filledDeltas, points, deltas))"

section \<open>Volume-weighted price\<close>

definition NewSpotVwapData :: SpotVwapData where
  "NewSpotVwapData = \<lparr>vwap_Price = 0, vwap_Quantity = 0\<rparr>"

definition Vwap_ApplyExecution :: "dec_ops \<Rightarrow> SpotVwapData \<Rightarrow> dec option \<Rightarrow> dec option \<Rightarrow> SpotVwapData option" where
  "Vwap_ApplyExecution D p price quantity =
     (case (price, quantity) of
        (Some price, Some quantity) \<Rightarrow>
          if quantity = 0 then Some p
          else do {
            let newQuantity = vwap_Quantity p + quantity;
            newPrice \<leftarrow> Quo D (dec_mul D (vwap_Price p) (vwap_Quantity p) + dec_mul D price quantity) newQuantity;
            Some \<lparr>vwap_Price = newPrice, vwap_Quantity = newQuantity\<rparr>
          }
      | _ \<Rightarrow> Some p)"

definition ApplyVwap ::
  "dec_ops \<Rightarrow> (market_id \<Rightarrow> SpotVwapData option) \<Rightarrow> market_id \<Rightarrow> SpotVwapData \<Rightarrow> (market_id \<Rightarrow> SpotVwapData option) option" where
  "ApplyVwap D info marketID newVwapData =
     (let existing = (case info marketID of None \<Rightarrow> NewSpotVwapData | Some v \<Rightarrow> v);
          info = info(marketID \<mapsto> existing)
      in if vwap_Quantity newVwapData = 0 then Some info
         else map_option (\<lambda>v. info(marketID \<mapsto> v))
                (Vwap_ApplyExecution D existing (Some (vwap_Price newVwapData)) (Some (vwap_Quantity newVwapData))))"

section \<open>The limit order executor\<close>

type_synonym side_result =
  "EventBatchSpotExecution list \<times> SpotLimitOrderDelta list \<times> SpotLimitOrder list \<times> RewardPoints \<times> (DepositDeltas \<times> DepositDeltas) \<times> FeeDiscountConfig"

text \<open>One side of \<^verbatim>\<open>processRestingOrderbookFills\<close> and of \<^verbatim>\<open>processTransientOrderbookFills\<close>: the
  expansions, then their events and deltas. A nil book contributes nothing.\<close>

definition restingSide ::
  "fee_env \<Rightarrow> SpotMarket \<Rightarrow> bool \<Rightarrow> OrderbookFills option \<Rightarrow> dec \<Rightarrow> PointsMultiplier \<Rightarrow> DepositDeltas \<times> DepositDeltas \<Rightarrow> FeeDiscountConfig
     \<Rightarrow> side_result option" where
  "restingSide F m buy fills clearingPrice pm deltas c =
     (case fills of None \<Rightarrow> Some ([], [], [], [], deltas, c)
      | Some fills \<Rightarrow> do {
          (xs, c) \<leftarrow> ProcessRestingSpotLimitOrderExpansions F (MarketId m) fills buy (Some clearingPrice) (MakerFeeRate m)
             (RelayerFeeShareRate m) pm c;
          let (event, filledDeltas, points, deltas) = GetBatchExecutionEventsFromSpotLimitOrderStateExpansions F buy m
             ExecutionType_LimitMatchRestingOrder xs deltas;
          Some (case event of None \<Rightarrow> [] | Some e \<Rightarrow> [e], filledDeltas, [], points, deltas, c)
        })"

definition transientSide ::
  "fee_env \<Rightarrow> SpotMarket \<Rightarrow> bool \<Rightarrow> OrderbookFills option \<Rightarrow> dec \<Rightarrow> PointsMultiplier \<Rightarrow> DepositDeltas \<times> DepositDeltas \<Rightarrow> FeeDiscountConfig
     \<Rightarrow> side_result option" where
  "transientSide F m buy fills clearingPrice pm deltas c =
     (case fills of None \<Rightarrow> Some ([], [], [], [], deltas, c)
      | Some fills \<Rightarrow> do {
          (xs, newOrders, c) \<leftarrow> (if buy
             then ProcessTransientSpotLimitBuyOrderbookMatchingResults F m fills clearingPrice pm c
             else ProcessTransientSpotLimitSellOrderbookMatchingResults F m fills (Some clearingPrice) pm c);
          let (event, _, points, deltas) = GetBatchExecutionEventsFromSpotLimitOrderStateExpansions F buy m
             ExecutionType_LimitMatchNewOrder xs deltas;
          Some (case event of None \<Rightarrow> [] | Some e \<Rightarrow> [e], [], newOrders, points, deltas, c)
        })"

definition processRestingOrderbookFills ::
  "fee_env \<Rightarrow> SpotMarket \<Rightarrow> SpotOrderbookMatchingResults \<Rightarrow> PointsMultiplier \<Rightarrow> FeeDiscountConfig \<Rightarrow> DepositDeltas \<times> DepositDeltas \<Rightarrow> dec
     \<Rightarrow> (EventBatchSpotExecution list \<times> SpotLimitOrderDelta list \<times> RewardPoints \<times> (DepositDeltas \<times> DepositDeltas) \<times> FeeDiscountConfig) option" where
  "processRestingOrderbookFills F m o' pm c deltas clearingPrice = do {
     (buyEvents, buyFilled, _, buyPoints, deltas, c) \<leftarrow> restingSide F m True (RestingBuyOrderbookFills o') clearingPrice pm deltas c;
     (sellEvents, sellFilled, _, sellPoints, deltas, c) \<leftarrow> restingSide F m False (RestingSellOrderbookFills o') clearingPrice pm deltas c;
     Some (buyEvents @ sellEvents, buyFilled @ sellFilled, MergeTradingRewardPoints buyPoints sellPoints, deltas, c)
   }"

definition processTransientOrderbookFills ::
  "fee_env \<Rightarrow> SpotMarket \<Rightarrow> SpotOrderbookMatchingResults \<Rightarrow> PointsMultiplier \<Rightarrow> FeeDiscountConfig \<Rightarrow> DepositDeltas \<times> DepositDeltas \<Rightarrow> dec
     \<Rightarrow> (EventBatchSpotExecution list \<times> SpotLimitOrder list \<times> SpotLimitOrder list \<times> RewardPoints \<times> (DepositDeltas \<times> DepositDeltas) \<times> FeeDiscountConfig) option" where
  "processTransientOrderbookFills F m o' pm c deltas clearingPrice = do {
     (buyEvents, _, newBuys, buyPoints, deltas, c) \<leftarrow> transientSide F m True (TransientBuyOrderbookFills o') clearingPrice pm deltas c;
     (sellEvents, _, newSells, sellPoints, deltas, c) \<leftarrow> transientSide F m False (TransientSellOrderbookFills o') clearingPrice pm deltas c;
     Some (buyEvents @ sellEvents, newBuys, newSells, MergeTradingRewardPoints buyPoints sellPoints, deltas, c)
   }"

definition processMatchResult ::
  "fee_env \<Rightarrow> SpotMarket \<Rightarrow> PointsMultiplier \<Rightarrow> FeeDiscountConfig \<Rightarrow> SpotLimitOrderbook option \<Rightarrow> SpotLimitOrderbook option
     \<Rightarrow> MatchResult \<Rightarrow> (SpotBatchExecutionData \<times> FeeDiscountConfig) option" where
  "processMatchResult F m pm c buyOrderbook sellOrderbook matchResult = do {
     let fills = (\<lambda>f bo. case bo of None \<Rightarrow> None | Some b \<Rightarrow> f b);
     let orderbookResults = \<lparr>TransientBuyOrderbookFills = fills transientOrderbookFills buyOrderbook,
           RestingBuyOrderbookFills = fills restingOrderbookFills buyOrderbook,
           TransientSellOrderbookFills = fills transientOrderbookFills sellOrderbook,
           RestingSellOrderbookFills = fills restingOrderbookFills sellOrderbook,
           r_ClearingPrice = ClearingPrice matchResult, r_ClearingQuantity = ClearingQuantity matchResult\<rparr>;
     (restingEvents, filledDeltas, restingPoints, deltas, c) \<leftarrow>
        processRestingOrderbookFills F m orderbookResults pm c (NewDepositDeltas, NewDepositDeltas) (ClearingPrice matchResult);
     (transientEvents, newBuys, newSells, transientPoints, deltas, c) \<leftarrow>
        processTransientOrderbookFills F m orderbookResults pm c deltas (ClearingPrice matchResult);
     vwapData \<leftarrow> Vwap_ApplyExecution (fe_dec F) NewSpotVwapData (Some (ClearingPrice matchResult)) (Some (ClearingQuantity matchResult));
     let (baseDeltas, quoteDeltas) = deltas;
     Some (\<lparr>Market = m, BaseDenomDepositDeltas = baseDeltas, QuoteDenomDepositDeltas = quoteDeltas,
       BaseDenomDepositSubaccountIDs = GetSortedSubaccountKeys baseDeltas,
       QuoteDenomDepositSubaccountIDs = GetSortedSubaccountKeys quoteDeltas,
       LimitOrderFilledDeltas = filledDeltas, MarketOrderExecutionEvent = None,
       LimitOrderExecutionEvent = restingEvents @ transientEvents,
       NewOrdersEvent = (if newBuys \<noteq> [] \<or> newSells \<noteq> []
          then Some \<lparr>new_MarketId = MarketId m, BuyOrders = newBuys, SellOrders = newSells\<rparr> else None),
       b_TradingRewardPoints = MergeTradingRewardPoints restingPoints transientPoints, VwapData = vwapData\<rparr>, c)
   }"

text \<open>\<^verbatim>\<open>SpotBatchAuctionExecutor.Execute\<close>.\<close>

definition SpotExecute ::
  "RiskEngine option \<Rightarrow> fee_env \<Rightarrow> SpotMarket \<Rightarrow> PointsMultiplier \<Rightarrow> dec option \<Rightarrow> SpotLimitOrder list \<Rightarrow> SpotLimitOrder list
     \<Rightarrow> SpotLimitOrder list \<Rightarrow> SpotLimitOrder list \<Rightarrow> FeeDiscountConfig \<Rightarrow> (SpotBatchExecutionData \<times> FeeDiscountConfig) option" where
  "SpotExecute e F m pm midMarketPrice restingBuys transientBuys restingSells transientSells c = do {
     (b, s, r) \<leftarrow> SpotExecute_match e (fe_dec F) midMarketPrice (buildOrderbooks e restingBuys transientBuys restingSells transientSells);
     processMatchResult F m pm c b s r
   }"

section \<open>The market order executor\<close>

definition GetSpotMarketOrderBatchExecutionData ::
  "fee_env \<Rightarrow> bool \<Rightarrow> SpotMarket \<Rightarrow> SpotOrderStateExpansion list \<Rightarrow> SpotOrderStateExpansion list \<Rightarrow> dec option \<Rightarrow> dec option
     \<Rightarrow> SpotBatchExecutionData option" where
  "GetSpotMarketOrderBatchExecutionData F isMarketBuy m limitExpansions marketExpansions clearingPrice clearingQuantity = do {
     let deltas = fold (UpdateFromDepositDeltas F m) marketExpansions (NewDepositDeltas, NewDepositDeltas);
     let trades = map (tradeLog F) marketExpansions;
     let marketPoints = fold (\<lambda>e l. AddPointsForAddress l (TraderAddress e) (x_TradingRewardPoints e)) marketExpansions [];
     let marketEvent = (if trades = [] then None
       else Some \<lparr>ev_MarketId = MarketId m, IsBuy = isMarketBuy, ev_ExecutionType = ExecutionType_Market, Trades = trades\<rparr>);
     let (limitEvent, filledDeltas, limitPoints, deltas) = GetBatchExecutionEventsFromSpotLimitOrderStateExpansions F
       (\<not> isMarketBuy) m ExecutionType_LimitFill limitExpansions deltas;
     vwapData \<leftarrow> Vwap_ApplyExecution (fe_dec F) NewSpotVwapData clearingPrice clearingQuantity;
     let (baseDeltas, quoteDeltas) = deltas;
     Some \<lparr>Market = m, BaseDenomDepositDeltas = baseDeltas, QuoteDenomDepositDeltas = quoteDeltas,
       BaseDenomDepositSubaccountIDs = GetSortedSubaccountKeys baseDeltas,
       QuoteDenomDepositSubaccountIDs = GetSortedSubaccountKeys quoteDeltas,
       LimitOrderFilledDeltas = filledDeltas, MarketOrderExecutionEvent = marketEvent,
       LimitOrderExecutionEvent = (case limitEvent of None \<Rightarrow> [] | Some e \<Rightarrow> [e]), NewOrdersEvent = None,
       b_TradingRewardPoints = MergeTradingRewardPoints marketPoints limitPoints, VwapData = vwapData\<rparr>
   }"

text \<open>The clearing price stays nil without fills; the resting orders then settle at their own price.\<close>

definition getMarketOrderStateExpansionsAndClearingPrice ::
  "RiskEngine option \<Rightarrow> fee_env \<Rightarrow> SpotMarket \<Rightarrow> bool \<Rightarrow> SpotLimitOrderbook option \<Rightarrow> SpotMarketOrder list \<Rightarrow> PointsMultiplier
     \<Rightarrow> dec \<Rightarrow> FeeDiscountConfig
     \<Rightarrow> (SpotOrderStateExpansion list \<times> SpotOrderStateExpansion list \<times> dec option \<times> dec option \<times> FeeDiscountConfig) option" where
  "getMarketOrderStateExpansionsAndClearingPrice e F m isMarketBuy limitOrderbook marketOrders pm takerFeeRate c =
     (case limitOrderbook of
        None \<Rightarrow> do {
          (ms, c) \<leftarrow> ProcessSpotMarketOrderStateExpansions F (MarketId m) isMarketBuy marketOrders
             (replicate (length marketOrders) None) None takerFeeRate (RelayerFeeShareRate m) pm c;
          Some ([], ms, None, None, c)
        }
      | Some lb \<Rightarrow> do {
          mb \<leftarrow> NewSpotMarketOrderbook marketOrders;
          (lb, mb) \<leftarrow> (if isMarketBuy
             then map_option (\<lambda>(x, y). (y, x)) (MatchSpotOrderbooks (market_Orderbook (fe_dec F)) (limit_Orderbook e (fe_dec F)) mb lb)
             else MatchSpotOrderbooks (limit_Orderbook e (fe_dec F)) (market_Orderbook (fe_dec F)) lb mb);
          let clearingQuantity = SpotLimit_GetTotalQuantityFilled lb;
          clearingPrice \<leftarrow> (if 0 < clearingQuantity
             then map_option Some (Quo (fe_dec F) (SpotLimit_GetNotional lb) clearingQuantity) else Some None);
          fills \<leftarrow> restingOrderbookFills lb;
          (ls, c) \<leftarrow> ProcessRestingSpotLimitOrderExpansions F (MarketId m) fills (\<not> isMarketBuy) None (MakerFeeRate m)
             (RelayerFeeShareRate m) pm c;
          (ms, c) \<leftarrow> ProcessSpotMarketOrderStateExpansions F (MarketId m) isMarketBuy marketOrders
             (map Some (mob_fillQuantities mb)) clearingPrice takerFeeRate (RelayerFeeShareRate m) pm c;
          Some (ls, ms, clearingPrice, Some clearingQuantity, c)
        })"

text \<open>\<^verbatim>\<open>SpotMarketOrderExecutor.Execute\<close>.\<close>

definition SpotMarketExecute ::
  "RiskEngine option \<Rightarrow> fee_env \<Rightarrow> SpotMarket \<Rightarrow> bool \<Rightarrow> SpotLimitOrder list \<Rightarrow> SpotMarketOrder list \<Rightarrow> PointsMultiplier
     \<Rightarrow> FeeDiscountConfig \<Rightarrow> (SpotBatchExecutionData \<times> FeeDiscountConfig) option" where
  "SpotMarketExecute e F m isMarketBuy resting marketOrders pm c =
     (let marketOrders = filterPausedSpotMarketOrders e marketOrders
      in if marketOrders = [] then do {
           data \<leftarrow> GetSpotMarketOrderBatchExecutionData F isMarketBuy m [] [] (Some 0) (Some 0);
           Some (data, c)
         }
         else do {
           (ls, ms, clearingPrice, clearingQuantity, c) \<leftarrow> getMarketOrderStateExpansionsAndClearingPrice e F m isMarketBuy
              (NewSpotLimitOrderbook resting [] (\<not> isMarketBuy)) marketOrders pm (TakerFeeRate m) c;
           data \<leftarrow> GetSpotMarketOrderBatchExecutionData F isMarketBuy m ls ms clearingPrice clearingQuantity;
           Some (data, c)
         })"

section \<open>What one expansion moves\<close>

text \<open>The quote amount that leaves (negative) or enters the trader's and the fee accounts together.\<close>

definition net_quote :: "SpotOrderStateExpansion \<Rightarrow> dec" where
  "net_quote x = QuoteChangeAmount x + x_FeeRecipientReward x + x_AuctionFeeReward x"

definition fee_setting :: "fee_env \<Rightarrow> dec \<Rightarrow> bool" where
  "fee_setting F share \<longleftrightarrow> legacy_dec (fe_dec F) \<and> grants_ok F \<and> 0 \<le> share \<and> share \<le> dec_one"

lemma limitExpansion_simps [simp]:
  "BaseChangeAmount (limitExpansion F ord q p fd b qc qr t) = b"
  "QuoteChangeAmount (limitExpansion F ord q p fd b qc qr t) = qc"
  "QuoteRefundAmount (limitExpansion F ord q p fd b qc qr t) = qr"
  "net_quote (limitExpansion F ord q p fd b qc qr t) = qc + FeeRecipientReward fd + AuctionFeeReward fd"
  "LimitOrder (limitExpansion F ord q p fd b qc qr t) = Some (ord\<lparr>Fillable := Fillable ord - q\<rparr>)"
  by (simp_all add: limitExpansion_def net_quote_def)

lemma fee_setting_trade_data:
  assumes "fee_setting F share" "config_ok c" "q \<noteq> 0 \<longrightarrow> price \<noteq> None"
  obtains td c' where "GetTradeDataAndIncrementVolumeContribution F sub m q price rate share mult c isMaker = Some (td, c')"
    "config_ok c'" "fees_split td"
    "if rate < 0 then DiscountedTradeFeeRate td = rate else 0 \<le> DiscountedTradeFeeRate td \<and> DiscountedTradeFeeRate td \<le> rate"
    "TotalTradeFee td = (if q = 0 then 0 else dec_mul (fe_dec F) (dec_mul (fe_dec F) q (the price)) (DiscountedTradeFeeRate td))"
  using trade_data [of F c share q price sub m rate mult isMaker] assms unfolding fee_setting_def by blast

lemma taker_fee_nonneg:
  assumes "legacy_dec (fe_dec F)" "0 \<le> rate" "0 \<le> q" "q \<noteq> 0 \<longrightarrow> 0 \<le> the price"
    and "if rate < 0 then DiscountedTradeFeeRate td = rate else 0 \<le> DiscountedTradeFeeRate td \<and> DiscountedTradeFeeRate td \<le> rate"
    and "TotalTradeFee td = (if q = 0 then 0 else dec_mul (fe_dec F) (dec_mul (fe_dec F) q (the price)) (DiscountedTradeFeeRate td))"
  shows "0 \<le> TotalTradeFee td"
  using assms legacy_dec.mul_nonneg [OF assms(1)] by (auto split: if_splits)

definition moves :: "fee_env \<Rightarrow> dec \<Rightarrow> dec \<Rightarrow> SpotOrderStateExpansion \<Rightarrow> bool" where
  "moves F q p x \<longleftrightarrow> BaseChangeAmount x = q \<and> net_quote x = - dec_mul (fe_dec F) q p"

lemma resting_buy_moves:
  assumes "fee_setting F share" "config_ok c"
  shows "\<exists>x c'. getRestingSpotLimitBuyStateExpansion F mid ord q p rate share pm c = Some (x, c') \<and> config_ok c' \<and> moves F q p x"
proof -
  obtain td c' where td: "GetTradeDataAndIncrementVolumeContribution F (SubaccountId (lo_OrderInfo ord)) mid q (Some p) rate share
      (MakerPointsMultiplier pm) c True = Some (td, c')" "config_ok c'" "fees_split td"
    by (rule fee_setting_trade_data [OF assms, where sub = "SubaccountId (lo_OrderInfo ord)" and m = mid and q = q and price = "Some p" and rate = rate and mult = "MakerPointsMultiplier pm" and isMaker = True]) auto
  then show ?thesis
    by (auto simp: getRestingSpotLimitBuyStateExpansion_def Let_def moves_def fees_split_def)
qed

lemma sell_moves:
  assumes "fee_setting F share" "config_ok c"
  shows "\<exists>x c'. getSpotLimitSellStateExpansion F mid ord isMaker q p rate share pm c = Some (x, c') \<and> config_ok c' \<and> moves F (- q) p x"
proof -
  obtain td c' where td: "GetTradeDataAndIncrementVolumeContribution F (SubaccountId (lo_OrderInfo ord)) mid q (Some p) rate share
      (if isMaker then MakerPointsMultiplier pm else TakerPointsMultiplier pm) c isMaker = Some (td, c')" "config_ok c'" "fees_split td"
    by (rule fee_setting_trade_data [OF assms, where sub = "SubaccountId (lo_OrderInfo ord)" and m = mid and q = q and price = "Some p" and rate = rate and mult = "if isMaker then MakerPointsMultiplier pm else TakerPointsMultiplier pm" and isMaker = isMaker]) auto
  then show ?thesis using assms(1)
    by (auto simp: getSpotLimitSellStateExpansion_def Let_def moves_def fees_split_def fee_setting_def legacy_dec.mul_minus)
qed

lemma transient_buy_moves:
  assumes "fee_setting F share" "config_ok c" "0 \<le> taker" "0 \<le> q" "q \<noteq> 0 \<longrightarrow> 0 \<le> p"
  shows "\<exists>x c'. getTransientSpotLimitBuyStateExpansion F mid ord p q maker taker share pm c = Some (x, c') \<and> config_ok c' \<and> moves F q p x"
proof -
  have D: "legacy_dec (fe_dec F)" using assms(1) by (simp add: fee_setting_def)
  obtain td c' where td: "GetTradeDataAndIncrementVolumeContribution F (SubaccountId (lo_OrderInfo ord)) mid q (Some p) taker share
      (TakerPointsMultiplier pm) c False = Some (td, c')" "config_ok c'" "fees_split td"
    and b: "if taker < 0 then DiscountedTradeFeeRate td = taker else 0 \<le> DiscountedTradeFeeRate td \<and> DiscountedTradeFeeRate td \<le> taker"
      "TotalTradeFee td = (if q = 0 then 0 else dec_mul (fe_dec F) (dec_mul (fe_dec F) q (the (Some p))) (DiscountedTradeFeeRate td))"
    by (rule fee_setting_trade_data [OF assms(1,2), where sub = "SubaccountId (lo_OrderInfo ord)" and m = mid and q = q and price = "Some p" and rate = taker and mult = "TakerPointsMultiplier pm" and isMaker = False]) auto
  have "0 \<le> TotalTradeFee td" using taker_fee_nonneg [OF D assms(3,4) _ b] assms(5) by simp
  then show ?thesis using td legacy_dec.mul_zero(2) [OF D]
    by (auto simp: getTransientSpotLimitBuyStateExpansion_def Let_def moves_def fees_split_def)
qed

lemma market_order_moves:
  assumes "fee_setting F share" "config_ok c" "0 \<le> taker" "0 \<le> q" "q \<noteq> 0 \<longrightarrow> (\<exists>p. price = Some p \<and> 0 \<le> p)"
  shows "\<exists>x c'. getSpotMarketOrderStateExpansion F mid ord buy (Some q) price taker share pm c = Some (x, c') \<and> config_ok c'
    \<and> moves F (if buy then q else - q) (case price of None \<Rightarrow> 0 | Some p \<Rightarrow> p) x"
proof -
  have D: "legacy_dec (fe_dec F)" using assms(1) by (simp add: fee_setting_def)
  obtain td c' where td: "GetTradeDataAndIncrementVolumeContribution F (SubaccountId (mo_OrderInfo ord)) mid q price taker share
      (TakerPointsMultiplier pm) c False = Some (td, c')" "config_ok c'" "fees_split td"
    and b: "if taker < 0 then DiscountedTradeFeeRate td = taker else 0 \<le> DiscountedTradeFeeRate td \<and> DiscountedTradeFeeRate td \<le> taker"
      "TotalTradeFee td = (if q = 0 then 0 else dec_mul (fe_dec F) (dec_mul (fe_dec F) q (the price)) (DiscountedTradeFeeRate td))"
    by (rule fee_setting_trade_data [OF assms(1,2), where sub = "SubaccountId (mo_OrderInfo ord)" and m = mid and q = q and price = price and rate = taker and mult = "TakerPointsMultiplier pm" and isMaker = False]) (use assms(5) in auto)
  have T: "0 \<le> TotalTradeFee td" using taker_fee_nonneg [OF D assms(3,4) _ b] assms(5) by auto
  have "price = None \<Longrightarrow> q = 0" using assms(5) by auto
  then show ?thesis using td T b(2) legacy_dec.mul_zero [OF D] legacy_dec.mul_minus [OF D]
    by (cases price) (auto simp: getSpotMarketOrderStateExpansion_def Let_def moves_def fees_split_def net_quote_def)
qed

end
