(* ===== verification/Settlement_Laws.thy ===== *)
theory Settlement_Laws
  imports Spot_Settlement
begin

text \<open>
  What the spot executors settle: the expansions of the fills of an order book move exactly the
  filled quantity and its notional, the deposit deltas add the expansions up in the chain's
  units, and a whole auction moves base and quote balances without creating or losing any.
\<close>

section \<open>The fills of a book\<close>

definition signed_qty :: "bool \<Rightarrow> dec \<Rightarrow> dec" where
  "signed_qty buy q = (if buy then q else - q)"

lemma signed_qty_simps [simp]: "signed_qty True q = q" "signed_qty False q = - q"
  by (simp_all add: signed_qty_def)

definition fill_price :: "dec option \<Rightarrow> SpotLimitOrder \<Rightarrow> dec" where
  "fill_price clearingPrice ord = (case clearingPrice of None \<Rightarrow> lo_Price ord | Some p \<Rightarrow> p)"

definition fills_settle :: "fee_env \<Rightarrow> bool \<Rightarrow> dec option \<Rightarrow> (SpotLimitOrder \<times> dec) list \<Rightarrow> SpotOrderStateExpansion list \<Rightarrow> bool" where
  "fills_settle F buy clearingPrice es xs \<longleftrightarrow>
     list_all2 (\<lambda>(ord, q) x. moves F (signed_qty buy q) (fill_price clearingPrice ord) x) es xs"

lemma fills_settle_simps [simp]:
  "fills_settle F buy cp [] []"
  "fills_settle F buy cp ((ord, q) # es) (x # xs) \<longleftrightarrow> moves F (signed_qty buy q) (fill_price cp ord) x \<and> fills_settle F buy cp es xs"
  by (simp_all add: fills_settle_def)

lemma resting_expansions_settle:
  assumes "fee_setting F share" "config_ok c" "length os = length fills"
  shows "\<exists>xs c'. restingExpansions F mid os fills buy cp rate share pm c = Some (xs, c') \<and> config_ok c'
    \<and> fills_settle F buy cp (zip os fills) xs"
  using assms(3,2)
proof (induction os fills arbitrary: c rule: list_induct2)
  case (Cons ord os q fills)
  obtain x c1 where x: "(if buy then getRestingSpotLimitBuyStateExpansion F mid ord q (fill_price cp ord) rate share pm c
      else getSpotLimitSellStateExpansion F mid ord True q (fill_price cp ord) rate share pm c) = Some (x, c1)"
    "config_ok c1" "moves F (signed_qty buy q) (fill_price cp ord) x"
    using resting_buy_moves [OF assms(1) Cons.prems, of mid ord q "fill_price cp ord" rate pm]
      sell_moves [OF assms(1) Cons.prems, of mid ord True q "fill_price cp ord" rate pm]
    by (cases buy) auto
  show ?case using Cons.IH [OF x(2)] x(1,3) by (auto simp: fill_price_def [symmetric])
qed simp

lemma transient_buy_expansions_settle:
  assumes "fee_setting F (RelayerFeeShareRate m)" "config_ok c" "0 \<le> TakerFeeRate m" "length os = length fills"
    and "\<forall>q \<in> set fills. 0 \<le> q \<and> (q \<noteq> 0 \<longrightarrow> 0 \<le> p)"
  shows "\<exists>xs c'. transientBuyExpansions F m os fills p pm c = Some (xs, c') \<and> config_ok c'
    \<and> fills_settle F True (Some p) (zip os fills) xs"
  using assms(4,2,5)
proof (induction os fills arbitrary: c rule: list_induct2)
  case (Cons ord os q fills)
  obtain x c1 where x: "getTransientSpotLimitBuyStateExpansion F (MarketId m) ord p q (MakerFeeRate m) (TakerFeeRate m)
      (RelayerFeeShareRate m) pm c = Some (x, c1)" "config_ok c1" "moves F q p x"
    using transient_buy_moves [OF assms(1) Cons.prems(1) assms(3), of q p "MarketId m" ord "MakerFeeRate m" pm] Cons.prems(2) by auto
  obtain xs c2 where "transientBuyExpansions F m os fills p pm c1 = Some (xs, c2)" "config_ok c2"
    "fills_settle F True (Some p) (zip os fills) xs"
    using Cons.IH [OF x(2)] Cons.prems(2) by auto
  then show ?case using x by (auto simp: fill_price_def)
qed simp

lemma transient_sell_expansions_settle:
  assumes "fee_setting F (RelayerFeeShareRate m)" "config_ok c" "length os = length fills"
  shows "\<exists>xs c'. transientSellExpansions F m os fills cp pm c = Some (xs, c') \<and> config_ok c'
    \<and> fills_settle F False cp (zip os fills) xs"
  using assms(3,2)
proof (induction os fills arbitrary: c rule: list_induct2)
  case (Cons ord os q fills)
  obtain x c1 where x: "getSpotLimitSellStateExpansion F (MarketId m) ord False q (fill_price cp ord) (TakerFeeRate m)
      (RelayerFeeShareRate m) pm c = Some (x, c1)" "config_ok c1" "moves F (- q) (fill_price cp ord) x"
    using sell_moves [OF assms(1) Cons.prems] by blast
  then show ?case using Cons.IH [OF x(2)] by (auto simp: fill_price_def [symmetric])
qed simp

section \<open>Deposit deltas\<close>

definition delta_total :: "DepositDeltas \<Rightarrow> dec" where
  "delta_total ds = store_sum (\<lambda>_ d. TotalBalanceDelta d) ds"

definition deltas_ok :: "DepositDeltas \<times> DepositDeltas \<Rightarrow> bool" where
  "deltas_ok ds \<longleftrightarrow> distinct (map fst (fst ds)) \<and> distinct (map fst (snd ds))"

lemma ApplyDelta_total:
  assumes "distinct (map fst ds)"
  shows "delta_total (ApplyDelta ds sub t a) = delta_total ds + t \<and> distinct (map fst (ApplyDelta ds sub t a))"
  using assms
  by (auto simp: delta_total_def ApplyDelta_def Let_def store_sum_update store_at_def distinct_store NewDepositDelta_def
      NewUniformDepositDelta_def split: option.splits)

lemma chain_format:
  assumes "legacy_dec D"
  shows "QuantityToChainFormat D v d = v * 10 ^ unat d" "NotionalToChainFormat D v d = v * 10 ^ unat d"
  using legacy_dec.power_whole [OF assms] legacy_dec.mul_whole [OF assms]
  by (simp_all add: QuantityToChainFormat_def NotionalToChainFormat_def)

lemma AddAvailableBalance_total [simp]: "TotalBalanceDelta (AddAvailableBalance d a) = TotalBalanceDelta d"
  by (simp add: AddAvailableBalance_def)

lemma update_deltas:
  assumes "legacy_dec (fe_dec F)" "deltas_ok ds"
  shows "deltas_ok (UpdateFromDepositDeltas F m x ds)"
    "delta_total (fst (UpdateFromDepositDeltas F m x ds)) = delta_total (fst ds) + BaseChangeAmount x * 10 ^ unat (BaseDecimals m)"
    "delta_total (snd (UpdateFromDepositDeltas F m x ds)) = delta_total (snd ds) + net_quote x * 10 ^ unat (QuoteDecimals m)"
  using assms(2) ApplyDelta_total
  by (cases ds; auto simp: UpdateFromDepositDeltas_def Let_def deltas_ok_def ApplyDepositDelta_def ApplyUniformDelta_def
      chain_format [OF assms(1)] net_quote_def algebra_simps)+

lemma fold_deltas:
  assumes "legacy_dec (fe_dec F)" "deltas_ok ds"
  shows "deltas_ok (fold (UpdateFromDepositDeltas F m) xs ds)
    \<and> delta_total (fst (fold (UpdateFromDepositDeltas F m) xs ds)) = delta_total (fst ds) + (\<Sum>x\<leftarrow>xs. BaseChangeAmount x) * 10 ^ unat (BaseDecimals m)
    \<and> delta_total (snd (fold (UpdateFromDepositDeltas F m) xs ds)) = delta_total (snd ds) + (\<Sum>x\<leftarrow>xs. net_quote x) * 10 ^ unat (QuoteDecimals m)"
  using assms(2)
proof (induction xs arbitrary: ds)
  case (Cons x xs)
  show ?case using Cons.IH [OF update_deltas(1) [OF assms(1) Cons.prems]] update_deltas [OF assms(1) Cons.prems]
    by (simp add: algebra_simps)
qed simp

lemma settled_sums:
  assumes "fills_settle F buy cp es xs" "legacy_dec (fe_dec F)"
  shows "(\<Sum>x\<leftarrow>xs. BaseChangeAmount x) = signed_qty buy (sum_list (map snd es))
    \<and> (\<Sum>x\<leftarrow>xs. net_quote x) = - signed_qty buy (\<Sum>x\<leftarrow>es. dec_mul (fe_dec F) (snd x) (fill_price cp (fst x)))"
  using assms(1) unfolding fills_settle_def
  by (induction es xs rule: list_all2_induct) (auto simp: moves_def signed_qty_def legacy_dec.mul_minus [OF assms(2)])

section \<open>One side of the auction\<close>

definition side_moved ::
  "fee_env \<Rightarrow> SpotMarket \<Rightarrow> bool \<Rightarrow> dec \<Rightarrow> (SpotLimitOrder \<times> dec) list \<Rightarrow> DepositDeltas \<times> DepositDeltas \<Rightarrow> DepositDeltas \<times> DepositDeltas \<Rightarrow> bool" where
  "side_moved F m buy p es ds ds' \<longleftrightarrow> deltas_ok ds'
     \<and> delta_total (fst ds') = delta_total (fst ds) + signed_qty buy (sum_list (map snd es)) * 10 ^ unat (BaseDecimals m)
     \<and> delta_total (snd ds') = delta_total (snd ds) - signed_qty buy (\<Sum>x\<leftarrow>es. dec_mul (fe_dec F) (snd x) p) * 10 ^ unat (QuoteDecimals m)"

lemma batch_side_moved:
  assumes "fills_settle F buy (Some p) es xs" "legacy_dec (fe_dec F)" "deltas_ok ds"
  shows "\<exists>ev fd pts ds'. GetBatchExecutionEventsFromSpotLimitOrderStateExpansions F buy' m t xs ds = (ev, fd, pts, ds')
    \<and> side_moved F m buy p es ds ds'"
  using settled_sums [OF assms(1,2)] fold_deltas [OF assms(2,3), of m xs]
  by (auto simp: GetBatchExecutionEventsFromSpotLimitOrderStateExpansions_def Let_def side_moved_def fill_price_def
      case_prod_beta comp_def)

lemma resting_side_moved:
  assumes "fee_setting F (RelayerFeeShareRate m)" "config_ok c" "lens_ok fo" "deltas_ok ds"
  shows "\<exists>ev fd pts ds' c'. restingSide F m buy fo p pm ds c = Some (ev, fd, [], pts, ds', c') \<and> config_ok c'
    \<and> side_moved F m buy p (entries fo) ds ds'"
proof (cases fo)
  case None
  then show ?thesis using assms by (simp add: restingSide_def side_moved_def signed_qty_def)
next
  case (Some f)
  have D: "legacy_dec (fe_dec F)" using assms(1) by (simp add: fee_setting_def)
  obtain xs c1 where x: "restingExpansions F (MarketId m) (fills_Orders f) (FillQuantities f) buy (Some p) (MakerFeeRate m)
      (RelayerFeeShareRate m) pm c = Some (xs, c1)" "config_ok c1"
    "fills_settle F buy (Some p) (zip (fills_Orders f) (FillQuantities f)) xs"
    using resting_expansions_settle [OF assms(1,2)] assms(3) Some by fastforce
  show ?thesis
    using batch_side_moved [OF x(3) D assms(4), of buy m ExecutionType_LimitMatchRestingOrder] x(1,2) Some
    by (auto simp: restingSide_def ProcessRestingSpotLimitOrderExpansions_def)
qed

lemma transient_side_moved:
  assumes "fee_setting F (RelayerFeeShareRate m)" "config_ok c" "lens_ok fo" "deltas_ok ds" "0 \<le> TakerFeeRate m"
    and q: "\<forall>x \<in> set (entries fo). 0 \<le> snd x \<and> (snd x \<noteq> 0 \<longrightarrow> 0 \<le> p)"
  shows "\<exists>ev no pts ds' c'. transientSide F m buy fo p pm ds c = Some (ev, [], no, pts, ds', c') \<and> config_ok c'
    \<and> side_moved F m buy p (entries fo) ds ds'"
proof (cases fo)
  case None
  then show ?thesis using assms by (simp add: transientSide_def side_moved_def signed_qty_def)
next
  case (Some f)
  have D: "legacy_dec (fe_dec F)" using assms(1) by (simp add: fee_setting_def)
  have l: "length (fills_Orders f) = length (FillQuantities f)" using assms(3) Some by simp
  have "set (FillQuantities f) = snd ` set (entries fo)"
    using arg_cong [OF map_snd_zip [OF l], of set] Some by simp
  then have q': "\<forall>q \<in> set (FillQuantities f). 0 \<le> q \<and> (q \<noteq> 0 \<longrightarrow> 0 \<le> p)" using q by auto
  obtain xs c1 where x: "(if buy then transientBuyExpansions F m (fills_Orders f) (FillQuantities f) p pm c
      else transientSellExpansions F m (fills_Orders f) (FillQuantities f) (Some p) pm c) = Some (xs, c1)" "config_ok c1"
    "fills_settle F buy (Some p) (zip (fills_Orders f) (FillQuantities f)) xs"
    using transient_buy_expansions_settle [OF assms(1,2,5) l q'] transient_sell_expansions_settle [OF assms(1,2) l, of "Some p" pm]
    by (cases buy) fastforce+
  have "(if buy then ProcessTransientSpotLimitBuyOrderbookMatchingResults F m f p pm c
      else ProcessTransientSpotLimitSellOrderbookMatchingResults F m f (Some p) pm c) = Some (xs, newResting xs, c1)"
    using x(1) l by (auto simp: ProcessTransientSpotLimitBuyOrderbookMatchingResults_def
        ProcessTransientSpotLimitSellOrderbookMatchingResults_def split: if_splits)
  then show ?thesis
    using batch_side_moved [OF x(3) D assms(4), of buy m ExecutionType_LimitMatchNewOrder] x(2) Some
    by (auto simp: transientSide_def)
qed

lemma new_vwap:
  "\<exists>v. Vwap_ApplyExecution D NewSpotVwapData (Some p) (Some q) = Some v"
  by (simp add: Vwap_ApplyExecution_def NewSpotVwapData_def Quo_def)

section \<open>A whole auction\<close>

abbreviation notional_of :: "fee_env \<Rightarrow> dec \<Rightarrow> (SpotLimitOrder \<times> dec) list \<Rightarrow> dec" where
  "notional_of F p es \<equiv> (\<Sum>x\<leftarrow>es. dec_mul (fe_dec F) (snd x) p)"

definition book_lens :: "SpotLimitOrderbook option \<Rightarrow> bool" where
  "book_lens bo = (case bo of None \<Rightarrow> True | Some b \<Rightarrow> lens_ok (restingOrderbookFills b) \<and> lens_ok (transientOrderbookFills b))"

definition fills_of :: "(SpotLimitOrderbook \<Rightarrow> OrderbookFills option) \<Rightarrow> SpotLimitOrderbook option \<Rightarrow> OrderbookFills option" where
  "fills_of f bo = (case bo of None \<Rightarrow> None | Some b \<Rightarrow> f b)"

lemma book_lens_fills:
  "book_lens bo \<Longrightarrow> lens_ok (fills_of restingOrderbookFills bo) \<and> lens_ok (fills_of transientOrderbookFills bo)"
  "book_fills bo = entries (fills_of restingOrderbookFills bo) @ entries (fills_of transientOrderbookFills bo)"
  by (auto simp: book_lens_def fills_of_def book_fills_def split: option.splits)

lemma match_result_moves:
  assumes F: "fee_setting F (RelayerFeeShareRate m)" and c: "config_ok c" and taker: "0 \<le> TakerFeeRate m"
    and lens: "book_lens b" "book_lens s"
    and pos: "\<forall>x \<in> set (book_fills b) \<union> set (book_fills s). 0 \<le> snd x \<and> (snd x \<noteq> 0 \<longrightarrow> 0 \<le> ClearingPrice r)"
  shows "\<exists>data c'. processMatchResult F m pm c b s r = Some (data, c') \<and> config_ok c'
    \<and> deltas_ok (BaseDenomDepositDeltas data, QuoteDenomDepositDeltas data)
    \<and> delta_total (BaseDenomDepositDeltas data) = (sum_list (map snd (book_fills b)) - sum_list (map snd (book_fills s))) * 10 ^ unat (BaseDecimals m)
    \<and> delta_total (QuoteDenomDepositDeltas data) =
        (notional_of F (ClearingPrice r) (book_fills s) - notional_of F (ClearingPrice r) (book_fills b)) * 10 ^ unat (QuoteDecimals m)"
proof -
  let ?p = "ClearingPrice r"
  note lb = book_lens_fills(1) [OF lens(1)] and ls = book_lens_fills(1) [OF lens(2)]
  have tb: "\<forall>x \<in> set (entries (fills_of transientOrderbookFills b)). 0 \<le> snd x \<and> (snd x \<noteq> 0 \<longrightarrow> 0 \<le> ?p)"
    and ts: "\<forall>x \<in> set (entries (fills_of transientOrderbookFills s)). 0 \<le> snd x \<and> (snd x \<noteq> 0 \<longrightarrow> 0 \<le> ?p)"
    using pos book_lens_fills(2) by auto
  have "deltas_ok (NewDepositDeltas, NewDepositDeltas)" by (simp add: deltas_ok_def NewDepositDeltas_def)
  then obtain e1 f1 p1 d1 c1 where r1: "restingSide F m True (fills_of restingOrderbookFills b) ?p pm (NewDepositDeltas, NewDepositDeltas) c
      = Some (e1, f1, [], p1, d1, c1)" "config_ok c1"
      "side_moved F m True ?p (entries (fills_of restingOrderbookFills b)) (NewDepositDeltas, NewDepositDeltas) d1"
    using resting_side_moved [OF F c] lb by blast
  then have "deltas_ok d1" by (simp add: side_moved_def)
  then obtain e2 f2 p2 d2 c2 where r2: "restingSide F m False (fills_of restingOrderbookFills s) ?p pm d1 c1
      = Some (e2, f2, [], p2, d2, c2)" "config_ok c2"
      "side_moved F m False ?p (entries (fills_of restingOrderbookFills s)) d1 d2"
    using resting_side_moved [OF F r1(2)] ls by blast
  then have "deltas_ok d2" by (simp add: side_moved_def)
  then obtain e3 n3 p3 d3 c3 where r3: "transientSide F m True (fills_of transientOrderbookFills b) ?p pm d2 c2
      = Some (e3, [], n3, p3, d3, c3)" "config_ok c3"
      "side_moved F m True ?p (entries (fills_of transientOrderbookFills b)) d2 d3"
    using transient_side_moved [OF F r2(2) _ _ taker tb] lb by blast
  then have "deltas_ok d3" by (simp add: side_moved_def)
  then obtain e4 n4 p4 d4 c4 where r4: "transientSide F m False (fills_of transientOrderbookFills s) ?p pm d3 c3
      = Some (e4, [], n4, p4, d4, c4)" "config_ok c4"
      "side_moved F m False ?p (entries (fills_of transientOrderbookFills s)) d3 d4"
    using transient_side_moved [OF F r3(2) _ _ taker ts] ls by blast
  obtain v where v: "Vwap_ApplyExecution (fe_dec F) NewSpotVwapData (Some ?p) (Some (ClearingQuantity r)) = Some v"
    using new_vwap by blast
  show ?thesis
    using r1 r2 r3 r4 v
    by (auto simp: processMatchResult_def fills_of_def [symmetric] processRestingOrderbookFills_def
        processTransientOrderbookFills_def book_lens_fills(2) side_moved_def Let_def case_prod_beta NewDepositDeltas_def
        delta_total_def algebra_simps)
qed

lemma lob_inv_lens: "lob_inv e buy b \<Longrightarrow> book_lens (Some b)"
  by (simp add: lob_inv_def lob_base_def book_lens_def)

lemma executed_books_lens:
  assumes input: "auction_input True restingBuys transientBuys" "auction_input False restingSells transientSells"
    and m: "SpotExecute_match e D mid (buildOrderbooks e restingBuys transientBuys restingSells transientSells) = Some (b, s, r)"
  shows "book_lens b \<and> book_lens s"
proof -
  obtain bo so where bo: "bo = NewSpotLimitOrderbook restingBuys (filterPausedSpotLimitOrders e transientBuys) True"
    and so: "so = NewSpotLimitOrderbook restingSells (filterPausedSpotLimitOrders e transientSells) False" by blast
  have E: "SpotExecute_match e D mid (bo, so) = Some (b, s, r)" using m bo so by (simp add: buildOrderbooks_def)
  show ?thesis
  proof (cases "\<exists>x y. bo = Some x \<and> so = Some y")
    case True
    then obtain x y where xy: "bo = Some x" "so = Some y" by blast
    note nb = new_book [OF bo [unfolded xy, symmetric]] and ns = new_book [OF so [unfolded xy, symmetric]]
    note ib = new_book_inv [OF bo [unfolded xy, symmetric] input(1)] and js = new_book_inv [OF so [unfolded xy, symmetric] input(2)]
    obtain b' s' r' where "SpotExecute_match e D mid (Some x, Some y) = Some (Some b', Some s', r')" "lob_inv e True b'" "lob_inv e False s'"
      using spot_match [OF ib(1) nb(11,5) js(1) ns(11,5)] by metis
    then show ?thesis using E xy lob_inv_lens by auto
  next
    case False
    then have "b = bo" "s = so" using E empty_match [of "(bo, so)" e D mid] by auto
    then show ?thesis using bo so new_book(9,10)
      by (auto simp: book_lens_def split: option.splits)
  qed
qed

lemma book_fills_orders:
  assumes "book_orders e bo = (filterPausedSpotLimitOrders e transient, filterPausedSpotLimitOrders e resting)" "x \<in> set (book_fills bo)"
  shows "fst x \<in> set resting \<union> set transient"
proof (cases bo)
  case (Some b)
  then have "map fst (trans_entries b) = filterPausedSpotLimitOrders e transient"
    "map fst (rest_entries b) @ filter (\<lambda>ord. \<not> is_paused e ord) (restingOrderIterator b) = filterPausedSpotLimitOrders e resting"
    using assms(1) by (simp_all add: book_orders_def lob_book_def)
  then have "set (map fst (trans_entries b)) \<subseteq> set transient" "set (map fst (rest_entries b)) \<subseteq> set resting"
    unfolding filterPausedSpotLimitOrders_def by (metis filter_is_subset, metis filter_is_subset le_sup_iff set_append)
  then show ?thesis using assms(2) Some by (auto simp: book_fills_def)
qed (use assms(2) in \<open>simp add: book_fills_def\<close>)

text \<open>The orders and the market an auction is settled for.\<close>

definition settlement_input ::
  "fee_env \<Rightarrow> SpotMarket \<Rightarrow> FeeDiscountConfig \<Rightarrow> SpotLimitOrder list \<Rightarrow> SpotLimitOrder list \<Rightarrow> SpotLimitOrder list \<Rightarrow> SpotLimitOrder list \<Rightarrow> bool" where
  "settlement_input F m c restingBuys transientBuys restingSells transientSells \<longleftrightarrow>
     fee_setting F (RelayerFeeShareRate m) \<and> config_ok c \<and> 0 \<le> TakerFeeRate m
     \<and> auction_input True restingBuys transientBuys \<and> auction_input False restingSells transientSells
     \<and> (\<forall>ord \<in> set restingSells \<union> set transientSells. 0 \<le> lo_Price ord)"

lemma filled_price_nonneg:
  assumes p: "\<forall>p \<in> touched_of ss. p \<le> P" and o: "\<forall>x \<in> set ss. 0 \<le> lo_Price (fst x)"
    and q: "\<forall>x \<in> set bs \<union> set ss. (0::int) \<le> snd x" and eq: "sum_list (map snd bs) = sum_list (map snd ss)"
    and x: "x \<in> set bs \<union> set ss" "snd x \<noteq> 0"
  shows "0 \<le> (P::dec)"
proof -
  have "0 < sum_list (map snd ss)"
  proof (cases "x \<in> set ss")
    case True
    then have "snd x \<le> sum_list (map snd ss)" using q by (intro member_le_sum_list) auto
    then show ?thesis using x q True by force
  next
    case False
    then have "snd x \<le> sum_list (map snd bs)" using q x by (intro member_le_sum_list) auto
    then show ?thesis using x q False eq by force
  qed
  then obtain y where y: "y \<in> set ss" "0 < snd y"
    by (metis (no_types, lifting) less_le_not_le linorder_not_le list.set_map imageE sum_list_nonpos)
  then show ?thesis using p o touched_ofI [OF y] by force
qed

lemma spot_execute_moves:
  assumes "settlement_input F m c restingBuys transientBuys restingSells transientSells"
  obtains b s r data c' where
    "SpotExecute_match e (fe_dec F) mid (buildOrderbooks e restingBuys transientBuys restingSells transientSells) = Some (b, s, r)"
    "SpotExecute e F m pm mid restingBuys transientBuys restingSells transientSells c = Some (data, c')" "config_ok c'"
    "deltas_ok (BaseDenomDepositDeltas data, QuoteDenomDepositDeltas data)"
    "sum_list (map snd (book_fills b)) = sum_list (map snd (book_fills s))"
    "delta_total (BaseDenomDepositDeltas data) = 0"
    "delta_total (QuoteDenomDepositDeltas data) =
        (notional_of F (ClearingPrice r) (book_fills s) - notional_of F (ClearingPrice r) (book_fills b)) * 10 ^ unat (QuoteDecimals m)"
proof -
  note i = assms [unfolded settlement_input_def]
  have D: "legacy_dec (fe_dec F)" using i by (simp add: fee_setting_def)
  obtain b s r where f:
    "SpotExecute_match e (fe_dec F) mid (buildOrderbooks e restingBuys transientBuys restingSells transientSells) = Some (b, s, r)"
    "sum_list (map snd (book_fills b)) = ClearingQuantity r" "sum_list (map snd (book_fills s)) = ClearingQuantity r"
    "\<forall>x \<in> set (book_fills b) \<union> set (book_fills s). entry_ok x"
    "book_orders e b = (filterPausedSpotLimitOrders e transientBuys, filterPausedSpotLimitOrders e restingBuys)"
    "book_orders e s = (filterPausedSpotLimitOrders e transientSells, filterPausedSpotLimitOrders e restingSells)"
    "legacy_dec (fe_dec F) \<longrightarrow> (\<forall>p \<in> touched_of (book_fills b). ClearingPrice r \<le> p) \<and> (\<forall>p \<in> touched_of (book_fills s). p \<le> ClearingPrice r)"
    "\<forall>x \<in> set (book_open e b). \<forall>y \<in> set (book_open e s). lo_Price x < lo_Price y"
    by (rule spot_execute [of restingBuys transientBuys restingSells transientSells e "fe_dec F" mid]) (use i in blast)+
  have q: "\<forall>x \<in> set (book_fills b) \<union> set (book_fills s). 0 \<le> snd x" using f(4) by (simp add: entry_ok_def)
  have o: "\<forall>x \<in> set (book_fills s). 0 \<le> lo_Price (fst x)" using book_fills_orders [OF f(6)] i by blast
  have P: "\<forall>x \<in> set (book_fills b) \<union> set (book_fills s). 0 \<le> snd x \<and> (snd x \<noteq> 0 \<longrightarrow> 0 \<le> ClearingPrice r)"
    using q filled_price_nonneg [OF _ o q] f(2,3,7) D by simp
  have l: "book_lens b" "book_lens s" using executed_books_lens [OF _ _ f(1)] i by blast+
  obtain data c' where d: "processMatchResult F m pm c b s r = Some (data, c')" "config_ok c'"
    "deltas_ok (BaseDenomDepositDeltas data, QuoteDenomDepositDeltas data)"
    "delta_total (BaseDenomDepositDeltas data) = (sum_list (map snd (book_fills b)) - sum_list (map snd (book_fills s))) * 10 ^ unat (BaseDecimals m)"
    "delta_total (QuoteDenomDepositDeltas data) =
        (notional_of F (ClearingPrice r) (book_fills s) - notional_of F (ClearingPrice r) (book_fills b)) * 10 ^ unat (QuoteDecimals m)"
    using match_result_moves [OF _ _ _ l P, of F m c pm] i by blast
  show ?thesis
    by (rule that [OF f(1) _ d(2,3) _ _ d(5)]) (use f(1-3) d(1,4) in \<open>simp_all add: SpotExecute_def\<close>)
qed

lemma exact_notional:
  assumes "legacy_dec (fe_dec F)" "\<forall>x \<in> set es. dec_one dvd snd x * p"
  shows "notional_of F p es * dec_one = sum_list (map snd es) * p"
  using assms(2)
proof (induction es)
  case (Cons x es)
  have "dec_mul (fe_dec F) (snd x) p * dec_one = snd x * p"
    using legacy_dec.mul_exact [OF assms(1)] Cons.prems by (force elim!: dvdE)
  then show ?case using Cons by (simp add: algebra_simps)
qed simp

section \<open>Properties\<close>

text \<open>C1: The spot batch auction always settles, and its settlement creates and destroys nothing. The
  deposit deltas of the base denom add up to zero. Those of the quote denom, fees and fee
  recipients included, add up to what the buyers' and the sellers' notionals differ by through
  rounding, and so to zero when the filled notionals are exact.\<close>

theorem spot_settlement_conserves:
  assumes "settlement_input F m c restingBuys transientBuys restingSells transientSells"
  shows "\<exists>b s r data c'. SpotExecute_match e (fe_dec F) mid (buildOrderbooks e restingBuys transientBuys restingSells transientSells) = Some (b, s, r)
    \<and> SpotExecute e F m pm mid restingBuys transientBuys restingSells transientSells c = Some (data, c')
    \<and> delta_total (BaseDenomDepositDeltas data) = 0
    \<and> delta_total (QuoteDenomDepositDeltas data) =
        (notional_of F (ClearingPrice r) (book_fills s) - notional_of F (ClearingPrice r) (book_fills b)) * 10 ^ unat (QuoteDecimals m)
    \<and> ((\<forall>x \<in> set (book_fills b) \<union> set (book_fills s). dec_one dvd snd x * ClearingPrice r)
        \<longrightarrow> delta_total (QuoteDenomDepositDeltas data) = 0)"
proof -
  have D: "legacy_dec (fe_dec F)" using assms by (simp add: settlement_input_def fee_setting_def)
  obtain b s r data c' where f:
    "SpotExecute_match e (fe_dec F) mid (buildOrderbooks e restingBuys transientBuys restingSells transientSells) = Some (b, s, r)"
    "SpotExecute e F m pm mid restingBuys transientBuys restingSells transientSells c = Some (data, c')" "config_ok c'"
    "deltas_ok (BaseDenomDepositDeltas data, QuoteDenomDepositDeltas data)"
    "sum_list (map snd (book_fills b)) = sum_list (map snd (book_fills s))"
    "delta_total (BaseDenomDepositDeltas data) = 0"
    "delta_total (QuoteDenomDepositDeltas data) =
        (notional_of F (ClearingPrice r) (book_fills s) - notional_of F (ClearingPrice r) (book_fills b)) * 10 ^ unat (QuoteDecimals m)"
    by (rule spot_execute_moves [OF assms])
  have "notional_of F (ClearingPrice r) (book_fills s) = notional_of F (ClearingPrice r) (book_fills b)"
    if "\<forall>x \<in> set (book_fills b) \<union> set (book_fills s). dec_one dvd snd x * ClearingPrice r"
    using exact_notional [OF D, of "book_fills s" "ClearingPrice r"] exact_notional [OF D, of "book_fills b" "ClearingPrice r"] that f(5)
    by simp
  then show ?thesis
    by (intro exI [of _ b] exI [of _ s] exI [of _ r] exI [of _ data] exI [of _ c'] conjI f(1,2,6,7) impI) (simp add: f(7))
qed

definition example_market :: SpotMarket where
  "example_market = \<lparr>BaseDenom = ''inj'', QuoteDenom = ''usdt'', MakerFeeRate = -100000000000000, TakerFeeRate = 1000000000000000,
     RelayerFeeShareRate = 400000000000000000, MarketId = ''m'', BaseDecimals = 18, QuoteDecimals = 6,
     Status = MarketStatus_Active, MinPriceTickSize = 1000000000000000, MinQuantityTickSize = 1000000000000000, MinNotional = Some dec_one\<rparr>"

definition example_points :: PointsMultiplier where
  "example_points = \<lparr>MakerPointsMultiplier = dec_one, TakerPointsMultiplier = dec_one\<rparr>"

abbreviation whole_order :: "int \<Rightarrow> int \<Rightarrow> SpotLimitOrder" where
  "whole_order p q \<equiv> example_order (LegacyNewDec p) (LegacyNewDec q)"

lemma example_settlement_input:
  "settlement_input example_fee_env example_market example_config [whole_order 11 3, whole_order 9 2] [whole_order 12 1]
     [whole_order 10 2] [whole_order 8 1, whole_order 11 4]"
  using example_fee_env_ok
  by (simp add: settlement_input_def fee_setting_def example_market_def auction_input_def example_order_def good_def LegacyNewDec_def)

theorem spot_settlement_conserves_witness:
  "\<exists>b s r data c'. SpotExecute_match None sdk_dec None (buildOrderbooks None [whole_order 11 3, whole_order 9 2] [whole_order 12 1]
       [whole_order 10 2] [whole_order 8 1, whole_order 11 4]) = Some (b, s, r) \<and> ClearingQuantity r = LegacyNewDec 4
    \<and> SpotExecute None example_fee_env example_market example_points None [whole_order 11 3, whole_order 9 2] [whole_order 12 1]
       [whole_order 10 2] [whole_order 8 1, whole_order 11 4] example_config = Some (data, c')
    \<and> delta_total (BaseDenomDepositDeltas data) = 0 \<and> delta_total (QuoteDenomDepositDeltas data) = 0"
proof -
  let ?match = "SpotExecute_match None sdk_dec None (buildOrderbooks None [whole_order 11 3, whole_order 9 2] [whole_order 12 1]
       [whole_order 10 2] [whole_order 8 1, whole_order 11 4])"
  have v: "map_option (\<lambda>(b, s, r). (ClearingQuantity r, list_all (\<lambda>x. dec_one dvd snd x * ClearingPrice r) (book_fills b @ book_fills s)))
     ?match = Some (LegacyNewDec 4, True)"
    by code_simp
  have E: "fe_dec example_fee_env = sdk_dec" by (simp add: example_fee_env_def)
  obtain b s r data c' where w: "?match = Some (b, s, r)"
    "SpotExecute None example_fee_env example_market example_points None [whole_order 11 3, whole_order 9 2] [whole_order 12 1]
       [whole_order 10 2] [whole_order 8 1, whole_order 11 4] example_config = Some (data, c')"
    "delta_total (BaseDenomDepositDeltas data) = 0"
    "(\<forall>x \<in> set (book_fills b) \<union> set (book_fills s). dec_one dvd snd x * ClearingPrice r)
        \<longrightarrow> delta_total (QuoteDenomDepositDeltas data) = 0"
    using spot_settlement_conserves [OF example_settlement_input, of None None example_points, unfolded E] by blast
  have "ClearingQuantity r = LegacyNewDec 4" "\<forall>x \<in> set (book_fills b) \<union> set (book_fills s). dec_one dvd snd x * ClearingPrice r"
    using v unfolding w(1) by (simp_all add: list_all_iff ball_Un)
  then show ?thesis using w by blast
qed

end
