(* ===== verification/Spot_Orders.thy ===== *)
theory Spot_Orders
  imports Settlement_Laws "HOL-Library.Product_Lexorder"
begin

text \<open>
  The life of spot orders outside the auction: the order types and their balance holds
  (\<^verbatim>\<open>exchange/types/v2/spot_orders.go\<close>, \<^verbatim>\<open>common_order.go\<close>), the order, index, client-id and
  price-level stores (\<^verbatim>\<open>exchange/keeper/base\<close>), the reservation and refund of funds by the risk
  engine (\<^verbatim>\<open>exchange/risk\<close>), creation and cancellation of orders (\<^verbatim>\<open>exchange/keeper/spot/orders.go\<close>,
  \<^verbatim>\<open>exchange/keeper/spot_orders.go\<close>) and the persistence of an executed batch
  (\<^verbatim>\<open>exchange/keeper/spot/order_matching.go\<close>).

  Store keys are the tuples the byte keys are built from: market, direction, price and hash. Within
  a market and a direction the byte order of the keys is the order of price and hash. Events, gas
  metering and the risk engine's snapshot cache are not part of the state.
\<close>

section \<open>Order types\<close>

definition OrderType_IsBuy :: "OrderType \<Rightarrow> bool" where
  "OrderType_IsBuy t \<longleftrightarrow> t \<in> {OrderType_BUY, OrderType_STOP_BUY, OrderType_TAKE_BUY, OrderType_BUY_PO, OrderType_BUY_ATOMIC}"

definition IsPostOnly :: "OrderType \<Rightarrow> bool" where
  "IsPostOnly t \<longleftrightarrow> t \<in> {OrderType_BUY_PO, OrderType_SELL_PO}"

definition IsConditional :: "OrderType \<Rightarrow> bool" where
  "IsConditional t \<longleftrightarrow> t \<in> {OrderType_STOP_BUY, OrderType_STOP_SELL, OrderType_TAKE_BUY, OrderType_TAKE_SELL}"

definition IsAtomic :: "OrderType \<Rightarrow> bool" where
  "IsAtomic t \<longleftrightarrow> t \<in> {OrderType_BUY_ATOMIC, OrderType_SELL_ATOMIC}"

definition SupportsOrderCancellations :: "MarketStatus \<Rightarrow> bool" where
  "SupportsOrderCancellations s \<longleftrightarrow>
     s \<in> {MarketStatus_Active, MarketStatus_Demolished, MarketStatus_Expired, MarketStatus_Paused}"

definition StatusSupportsOrderCancellations :: "SpotMarket option \<Rightarrow> bool" where
  "StatusSupportsOrderCancellations m = (case m of None \<Rightarrow> False | Some m \<Rightarrow> SupportsOrderCancellations (Status m))"

record SpotOrder =
  so_MarketId :: market_id
  so_OrderInfo :: OrderInfo
  so_OrderType :: OrderType
  so_TriggerPrice :: "dec option"
  so_ExpirationBlock :: int

abbreviation so_IsBuy :: "SpotOrder \<Rightarrow> bool" where
  "so_IsBuy ord \<equiv> OrderType_IsBuy (so_OrderType ord)"

abbreviation lo_IsBuy :: "SpotLimitOrder \<Rightarrow> bool" where
  "lo_IsBuy ord \<equiv> OrderType_IsBuy (lo_OrderType ord)"

abbreviation mo_IsBuy :: "SpotMarketOrder \<Rightarrow> bool" where
  "mo_IsBuy ord \<equiv> OrderType_IsBuy (mo_OrderType ord)"

definition withFeeRecipient :: "string \<Rightarrow> OrderInfo \<Rightarrow> OrderInfo" where
  "withFeeRecipient sender info = (if FeeRecipient info = '''' then info\<lparr>FeeRecipient := sender\<rparr> else info)"

definition ToSpotMarketOrder :: "SpotOrder \<Rightarrow> string \<Rightarrow> dec \<Rightarrow> string \<Rightarrow> SpotMarketOrder" where
  "ToSpotMarketOrder m sender balanceHold orderHash =
     \<lparr>mo_OrderInfo = withFeeRecipient sender (so_OrderInfo m), BalanceHold = balanceHold, mo_OrderHash = orderHash,
      mo_OrderType = so_OrderType m, mo_TriggerPrice = so_TriggerPrice m\<rparr>"

definition GetNewSpotLimitOrder :: "SpotOrder \<Rightarrow> string \<Rightarrow> string \<Rightarrow> SpotLimitOrder" where
  "GetNewSpotLimitOrder m sender orderHash =
     \<lparr>lo_OrderInfo = withFeeRecipient sender (so_OrderInfo m), lo_OrderType = so_OrderType m,
      Fillable = oi_Quantity (so_OrderInfo m), lo_TriggerPrice = so_TriggerPrice m, lo_OrderHash = orderHash,
      ExpirationBlock = so_ExpirationBlock m\<rparr>"

section \<open>Validation and balance holds\<close>

datatype spot_error = ErrSpotMarketNotFound | ErrInvalidPrice | ErrInvalidQuantity | ErrInvalidNotional
  | ErrInvalidExpirationBlock | ErrExceedsTopOfBookPrice | ErrClientOrderIdAlreadyExists | ErrInvalidState
  | ErrRiskFeatureDisabled | ErrOrderHash | ErrOrderDoesntExist | ErrNoLiquidity | ErrSlippageExceedsWorstPrice
  | ErrPostOnlyMode | ErrAccessLevel | ErrBadField | ErrFunds deposit_error

definition BreachesMinimumTickSize :: "dec \<Rightarrow> dec \<Rightarrow> bool" where
  "BreachesMinimumTickSize v minTickSize = (v < minTickSize \<or> minTickSize = 0 \<or> v mod minTickSize \<noteq> 0)"

definition CheckTickSize :: "SpotOrder \<Rightarrow> dec \<Rightarrow> dec \<Rightarrow> spot_error + unit" where
  "CheckTickSize m minPriceTickSize minQuantityTickSize =
     (if BreachesMinimumTickSize (Price (so_OrderInfo m)) minPriceTickSize then Inl ErrInvalidPrice
      else if BreachesMinimumTickSize (oi_Quantity (so_OrderInfo m)) minQuantityTickSize then Inl ErrInvalidQuantity
      else Inr ())"

definition CheckNotional :: "dec_ops \<Rightarrow> SpotOrder \<Rightarrow> dec option \<Rightarrow> spot_error + unit" where
  "CheckNotional D m minNotional =
     (case minNotional of
        Some least \<Rightarrow> if dec_mul D (oi_Quantity (so_OrderInfo m)) (Price (so_OrderInfo m)) < least
                       then Inl ErrInvalidNotional else Inr ()
      | None \<Rightarrow> Inr ())"

definition OrderInfo_GetNotional :: "dec_ops \<Rightarrow> OrderInfo \<Rightarrow> dec" where
  "OrderInfo_GetNotional D info = dec_mul D (oi_Quantity info) (Price info)"

definition OrderInfo_GetFeeAmount :: "dec_ops \<Rightarrow> OrderInfo \<Rightarrow> dec \<Rightarrow> dec" where
  "OrderInfo_GetFeeAmount D info fee = dec_mul D (OrderInfo_GetNotional D info) fee"

definition GetUnfilledNotional :: "dec_ops \<Rightarrow> SpotLimitOrder \<Rightarrow> dec" where
  "GetUnfilledNotional D ord = dec_mul D (Fillable ord) (lo_Price ord)"

definition GetUnfilledFeeAmount :: "dec_ops \<Rightarrow> SpotLimitOrder \<Rightarrow> dec \<Rightarrow> dec" where
  "GetUnfilledFeeAmount D ord fee = dec_mul D (GetUnfilledNotional D ord) fee"

definition GetBalanceHoldAndMarginDenom :: "dec_ops \<Rightarrow> SpotOrder \<Rightarrow> SpotMarket \<Rightarrow> dec \<times> denom" where
  "GetBalanceHoldAndMarginDenom D ord m =
     (if so_IsBuy ord then
        (if IsPostOnly (so_OrderType ord) then
           OrderInfo_GetNotional D (so_OrderInfo ord)
             + (if 0 < MakerFeeRate m then OrderInfo_GetFeeAmount D (so_OrderInfo ord) (MakerFeeRate m) else 0)
         else OrderInfo_GetNotional D (so_OrderInfo ord) + OrderInfo_GetFeeAmount D (so_OrderInfo ord) (TakerFeeRate m),
         QuoteDenom m)
      else (oi_Quantity (so_OrderInfo ord), BaseDenom m))"

definition GetUnfilledMarginHoldAndMarginDenom :: "dec_ops \<Rightarrow> SpotLimitOrder \<Rightarrow> SpotMarket \<Rightarrow> bool \<Rightarrow> dec \<times> denom" where
  "GetUnfilledMarginHoldAndMarginDenom D ord m isTransient =
     (if lo_IsBuy ord then
        (let tradeFeeRate = (if isTransient then TakerFeeRate m else max 0 (MakerFeeRate m))
         in (GetUnfilledNotional D ord + GetUnfilledFeeAmount D ord tradeFeeRate, QuoteDenom m))
      else (Fillable ord, BaseDenom m))"

definition GetMarginDenom :: "SpotOrder \<Rightarrow> SpotMarket \<Rightarrow> denom" where
  "GetMarginDenom ord m = (if so_IsBuy ord then QuoteDenom m else BaseDenom m)"

definition GetMarketOrderBalanceHold :: "dec_ops \<Rightarrow> SpotOrder \<Rightarrow> dec \<Rightarrow> dec \<Rightarrow> dec" where
  "GetMarketOrderBalanceHold D ord feeRate bestPrice =
     (if so_IsBuy ord then
        max (dec_mul D (dec_mul D bestPrice (oi_Quantity (so_OrderInfo ord))) (dec_one + feeRate))
            (dec_mul D (dec_mul D (Price (so_OrderInfo ord)) (oi_Quantity (so_OrderInfo ord))) (dec_one + feeRate))
      else oi_Quantity (so_OrderInfo ord))"

section \<open>Stores\<close>

type_synonym order_hash = string
type_synonym price_key = "market_id \<times> bool \<times> dec \<times> order_hash"
type_synonym index_key = "market_id \<times> bool \<times> subaccount_id \<times> order_hash"
type_synonym level_key = "bool \<times> market_id \<times> bool \<times> dec"

text \<open>The part of a key-value store that holds spot orders; the module has a persistent one and a
  transient one, emptied after every block.\<close>

record order_db =
  db_orders :: "(price_key \<times> SpotLimitOrder) list"
  db_index :: "(index_key \<times> price_key) list"
  db_cids :: "((subaccount_id \<times> string) \<times> (market_id \<times> bool \<times> order_hash)) list"
  db_levels :: "(level_key \<times> dec) list"

record OrderData =
  od_MarketId :: market_id
  od_SubaccountId :: subaccount_id
  od_OrderHash :: order_hash
  od_Cid :: string

record 'b spot_state =
  funds_of :: "'b exchange_state"
  kv :: order_db
  tkv :: order_db
  market_orders :: "(price_key \<times> SpotMarketOrder) list"
  limit_indicators :: "(market_id \<times> bool) list"
  market_indicators :: "(market_id \<times> bool) list"
  trade_nonces :: "(subaccount_id \<times> 32 word) list"
  expirations :: "((int \<times> market_id \<times> order_hash) \<times> OrderData) list"
  expiration_markets :: "(int \<times> market_id) list"
  fee_qualified :: "(market_id \<times> bool) list"
  transient_fee_qualified :: "(market_id \<times> bool) list"
  active_accounts :: "address list"

definition GetLimitOrderByPriceKeyPrefix :: "market_id \<Rightarrow> bool \<Rightarrow> dec \<Rightarrow> order_hash \<Rightarrow> price_key" where
  "GetLimitOrderByPriceKeyPrefix marketID buy price orderHash = (marketID, buy, price, orderHash)"

definition GetLimitOrderIndexKey :: "market_id \<Rightarrow> bool \<Rightarrow> subaccount_id \<Rightarrow> order_hash \<Rightarrow> index_key" where
  "GetLimitOrderIndexKey marketID buy subaccountID orderHash = (marketID, buy, subaccountID, orderHash)"

text \<open>Client order ids.\<close>

definition SetCid :: "order_db \<Rightarrow> subaccount_id \<Rightarrow> string \<Rightarrow> market_id \<Rightarrow> bool \<Rightarrow> order_hash \<Rightarrow> order_db" where
  "SetCid db subaccountID cid marketID buy orderHash =
     (if cid = '''' then db else db\<lparr>db_cids := AList.update (subaccountID, cid) (marketID, buy, orderHash) (db_cids db)\<rparr>)"

definition DeleteCid :: "order_db \<Rightarrow> subaccount_id \<Rightarrow> string \<Rightarrow> order_db" where
  "DeleteCid db subaccountID cid =
     (if cid = '''' then db else db\<lparr>db_cids := AList.delete (subaccountID, cid) (db_cids db)\<rparr>)"

definition ExistsCid :: "'b spot_state \<Rightarrow> subaccount_id \<Rightarrow> string \<Rightarrow> bool" where
  "ExistsCid s subaccountID cid \<longleftrightarrow>
     map_of (db_cids (tkv s)) (subaccountID, cid) \<noteq> None \<or> map_of (db_cids (kv s)) (subaccountID, cid) \<noteq> None"

definition GetOrderHashByCid :: "order_db \<Rightarrow> subaccount_id \<Rightarrow> string \<Rightarrow> order_hash option" where
  "GetOrderHashByCid db subaccountID cid = map_option (\<lambda>(_, _, orderHash). orderHash) (map_of (db_cids db) (subaccountID, cid))"

datatype order_identifier = IdHash order_hash | IdCid string

definition GetOrderHashFromIdentifier :: "'b spot_state \<Rightarrow> subaccount_id \<Rightarrow> order_identifier \<Rightarrow> spot_error + order_hash" where
  "GetOrderHashFromIdentifier s subaccountID identifier =
     (case identifier of
        IdHash orderHash \<Rightarrow> Inr orderHash
      | IdCid cid \<Rightarrow>
          (case GetOrderHashByCid (kv s) subaccountID cid of
             Some orderHash \<Rightarrow> Inr orderHash
           | None \<Rightarrow>
               (case GetOrderHashByCid (tkv s) subaccountID cid of
                  Some orderHash \<Rightarrow> Inr orderHash
                | None \<Rightarrow> Inl ErrBadField)))"

text \<open>Orders.\<close>

definition SetSpotLimitOrder :: "order_db \<Rightarrow> SpotLimitOrder \<Rightarrow> market_id \<Rightarrow> bool \<Rightarrow> order_hash \<Rightarrow> order_db" where
  "SetSpotLimitOrder db ord marketID buy orderHash =
     (let priceKey = GetLimitOrderByPriceKeyPrefix marketID buy (lo_Price ord) orderHash;
          subaccountKey = GetLimitOrderIndexKey marketID buy (SubaccountId (lo_OrderInfo ord)) orderHash
      in db\<lparr>db_orders := AList.update priceKey ord (db_orders db), db_index := AList.update subaccountKey priceKey (db_index db)\<rparr>)"

definition GetSpotLimitOrderBySubaccountID ::
  "order_db \<Rightarrow> market_id \<Rightarrow> bool option \<Rightarrow> subaccount_id \<Rightarrow> order_hash \<Rightarrow> SpotLimitOrder option" where
  "GetSpotLimitOrderBySubaccountID db marketID buy subaccountID orderHash =
     (let index = (\<lambda>b. map_of (db_index db) (GetLimitOrderIndexKey marketID b subaccountID orderHash));
          priceKey = (case buy of Some b \<Rightarrow> index b
             | None \<Rightarrow> (case index True of Some k \<Rightarrow> Some k | None \<Rightarrow> index False))
      in (case priceKey of None \<Rightarrow> None | Some k \<Rightarrow> map_of (db_orders db) k))"

text \<open>The index entry gives the key to delete; without one the store panics on the nil key.\<close>

definition DeleteSpotLimitOrder :: "order_db \<Rightarrow> market_id \<Rightarrow> bool \<Rightarrow> SpotLimitOrder \<Rightarrow> order_db option" where
  "DeleteSpotLimitOrder db marketID buy ord =
     (let subaccountKey = GetLimitOrderIndexKey marketID buy (SubaccountId (lo_OrderInfo ord)) (lo_OrderHash ord)
      in map_option (\<lambda>priceKey. db\<lparr>db_orders := AList.delete priceKey (db_orders db),
                                   db_index := AList.delete subaccountKey (db_index db)\<rparr>)
           (map_of (db_index db) subaccountKey))"

definition UpdateSpotLimitOrderWithDelta :: "order_db \<Rightarrow> market_id \<Rightarrow> SpotLimitOrderDelta \<Rightarrow> order_db" where
  "UpdateSpotLimitOrderWithDelta db marketID orderDelta =
     (let ord = delta_Order orderDelta
      in db\<lparr>db_orders := AList.update (GetLimitOrderByPriceKeyPrefix marketID (lo_IsBuy ord) (lo_Price ord) (lo_OrderHash ord))
              ord (db_orders db)\<rparr>)"

definition IterateSpotLimitOrdersByMarketDirection :: "order_db \<Rightarrow> market_id \<Rightarrow> bool \<Rightarrow> SpotLimitOrder list" where
  "IterateSpotLimitOrdersByMarketDirection db marketID buy =
     (let entries = sort_key fst (filter (\<lambda>((m, b, _), _). m = marketID \<and> b = buy) (db_orders db))
      in map snd (if buy then rev entries else entries))"

text \<open>A dangling index entry decodes to an order without price and quantity, on which the callers panic.\<close>

definition IterateSpotLimitOrdersBySubaccount :: "order_db \<Rightarrow> market_id \<Rightarrow> bool \<Rightarrow> subaccount_id \<Rightarrow> SpotLimitOrder list option" where
  "IterateSpotLimitOrdersBySubaccount db marketID buy subaccountID =
     (let entries = sort_key fst (filter (\<lambda>((m, b, sub, _), _). m = marketID \<and> b = buy \<and> sub = subaccountID) (db_index db));
          orders = map (\<lambda>(_, priceKey). map_of (db_orders db) priceKey) (if buy then rev entries else entries)
      in if None \<in> set orders then None else Some (map the orders))"

definition SetTransientSpotLimitOrder ::
  "'b spot_state \<Rightarrow> SpotLimitOrder \<Rightarrow> market_id \<Rightarrow> bool \<Rightarrow> order_hash \<Rightarrow> 'b spot_state" where
  "SetTransientSpotLimitOrder s ord marketID buy orderHash =
     s\<lparr>tkv := SetCid (SetSpotLimitOrder (tkv s) ord marketID buy orderHash) (SubaccountId (lo_OrderInfo ord))
                (Cid (lo_OrderInfo ord)) marketID buy orderHash,
       limit_indicators := List.insert (marketID, buy) (limit_indicators s)\<rparr>"

definition DeleteTransientSpotLimitOrder :: "'b spot_state \<Rightarrow> market_id \<Rightarrow> SpotLimitOrder \<Rightarrow> 'b spot_state" where
  "DeleteTransientSpotLimitOrder s marketID ord =
     (let db = tkv s;
          priceKey = GetLimitOrderByPriceKeyPrefix marketID (lo_IsBuy ord) (lo_Price ord) (lo_OrderHash ord);
          subaccountKey = GetLimitOrderIndexKey marketID (lo_IsBuy ord) (SubaccountId (lo_OrderInfo ord)) (lo_OrderHash ord)
      in s\<lparr>tkv := DeleteCid (db\<lparr>db_orders := AList.delete priceKey (db_orders db),
                                 db_index := AList.delete subaccountKey (db_index db)\<rparr>)
                  (SubaccountId (lo_OrderInfo ord)) (Cid (lo_OrderInfo ord))\<rparr>)"

definition SetTransientSpotMarketOrder :: "'b spot_state \<Rightarrow> SpotMarketOrder \<Rightarrow> SpotOrder \<Rightarrow> order_hash \<Rightarrow> 'b spot_state" where
  "SetTransientSpotMarketOrder s marketOrder ord orderHash =
     s\<lparr>market_orders := AList.update (so_MarketId ord, so_IsBuy ord, Price (mo_OrderInfo marketOrder), orderHash) marketOrder (market_orders s)\<rparr>"

definition DeleteTransientSpotMarketOrder :: "'b spot_state \<Rightarrow> market_id \<Rightarrow> bool \<Rightarrow> SpotMarketOrder \<Rightarrow> 'b spot_state" where
  "DeleteTransientSpotMarketOrder s marketID buy ord =
     s\<lparr>market_orders := AList.delete (marketID, buy, Price (mo_OrderInfo ord), mo_OrderHash ord) (market_orders s),
       tkv := DeleteCid (tkv s) (SubaccountId (mo_OrderInfo ord)) (Cid (mo_OrderInfo ord))\<rparr>"

definition GetAllTransientSpotMarketOrders :: "'b spot_state \<Rightarrow> market_id \<Rightarrow> bool \<Rightarrow> SpotMarketOrder list" where
  "GetAllTransientSpotMarketOrders s marketID buy =
     (let entries = sort_key fst (filter (\<lambda>((m, b, _), _). m = marketID \<and> b = buy) (market_orders s))
      in map snd (if buy then rev entries else entries))"

definition SetTransientMarketOrderIndicator :: "'b spot_state \<Rightarrow> market_id \<Rightarrow> bool \<Rightarrow> 'b spot_state" where
  "SetTransientMarketOrderIndicator s marketID buy = s\<lparr>market_indicators := List.insert (marketID, buy) (market_indicators s)\<rparr>"

text \<open>The bytes of a quantity are those of its absolute value.\<close>

definition GetOrderbookPriceLevelQuantity :: "'b spot_state \<Rightarrow> market_id \<Rightarrow> bool \<Rightarrow> bool \<Rightarrow> dec \<Rightarrow> dec" where
  "GetOrderbookPriceLevelQuantity s marketID buy isSpot price =
     (let key = (isSpot, marketID, buy, price)
      in case map_of (db_levels (tkv s)) key of Some q \<Rightarrow> q
         | None \<Rightarrow> (case map_of (db_levels (kv s)) key of Some q \<Rightarrow> q | None \<Rightarrow> 0))"

definition SetOrderbookPriceLevelQuantity ::
  "'b spot_state \<Rightarrow> market_id \<Rightarrow> bool \<Rightarrow> bool \<Rightarrow> dec \<Rightarrow> dec \<Rightarrow> 'b spot_state" where
  "SetOrderbookPriceLevelQuantity s marketID buy isSpot price quantity =
     (let key = (isSpot, marketID, buy, price); stored = \<bar>quantity\<bar>
      in s\<lparr>kv := (kv s)\<lparr>db_levels := (if quantity = 0 then AList.delete key (db_levels (kv s))
                                        else AList.update key stored (db_levels (kv s)))\<rparr>,
           tkv := (tkv s)\<lparr>db_levels := AList.update key stored (db_levels (tkv s))\<rparr>\<rparr>)"

definition IncrementOrderbookPriceLevelQuantity ::
  "'b spot_state \<Rightarrow> market_id \<Rightarrow> bool \<Rightarrow> bool \<Rightarrow> dec \<Rightarrow> dec \<Rightarrow> 'b spot_state" where
  "IncrementOrderbookPriceLevelQuantity s marketID buy isSpot price quantity =
     (if quantity = 0 then s
      else SetOrderbookPriceLevelQuantity s marketID buy isSpot price
             (GetOrderbookPriceLevelQuantity s marketID buy isSpot price + quantity))"

definition DecrementOrderbookPriceLevelQuantity ::
  "'b spot_state \<Rightarrow> market_id \<Rightarrow> bool \<Rightarrow> bool \<Rightarrow> dec \<Rightarrow> dec \<Rightarrow> 'b spot_state" where
  "DecrementOrderbookPriceLevelQuantity s marketID buy isSpot price quantity =
     (if quantity = 0 then s
      else SetOrderbookPriceLevelQuantity s marketID buy isSpot price
             (GetOrderbookPriceLevelQuantity s marketID buy isSpot price - quantity))"

definition IncrementSubaccountTradeNonce :: "'b spot_state \<Rightarrow> subaccount_id \<Rightarrow> 32 word \<times> 'b spot_state" where
  "IncrementSubaccountTradeNonce s subaccountID =
     (let nonce = (case map_of (trade_nonces s) subaccountID of None \<Rightarrow> 0 | Some n \<Rightarrow> n) + 1
      in (nonce, s\<lparr>trade_nonces := AList.update subaccountID nonce (trade_nonces s)\<rparr>))"

definition AppendOrderExpirations :: "'b spot_state \<Rightarrow> market_id \<Rightarrow> int \<Rightarrow> OrderData \<Rightarrow> 'b spot_state" where
  "AppendOrderExpirations s marketID expirationBlock ord =
     s\<lparr>expirations := AList.update (expirationBlock, marketID, od_OrderHash ord) ord (expirations s),
       expiration_markets := List.insert (expirationBlock, marketID) (expiration_markets s)\<rparr>"

definition CheckAndSetFeeDiscountAccountActivityIndicator :: "'b spot_state \<Rightarrow> market_id \<Rightarrow> address \<Rightarrow> 'b spot_state" where
  "CheckAndSetFeeDiscountAccountActivityIndicator s marketID account =
     (if account \<in> set (active_accounts s) then s
      else
        (let (found, s) =
           (case map_of (transient_fee_qualified s) marketID of
              Some q \<Rightarrow> (Some q, s)
            | None \<Rightarrow>
                (case map_of (fee_qualified s) marketID of
                   None \<Rightarrow> (None, s\<lparr>transient_fee_qualified := AList.update marketID False (transient_fee_qualified s)\<rparr>)
                 | Some q \<Rightarrow> (Some q, s\<lparr>transient_fee_qualified := AList.update marketID q (transient_fee_qualified s)\<rparr>)))
         in if found = Some True then s\<lparr>active_accounts := account # active_accounts s\<rparr> else s))"

section \<open>Risk engine: reservation and refund\<close>

text \<open>Hashing, address encodings and module parameters the handlers consult.\<close>

record 'b spot_env =
  se_env :: "'b exchange_env"
  se_risk :: "RiskEngine option"
  ComputeOrderHash :: "SpotOrder \<Rightarrow> 32 word \<Rightarrow> order_hash option"
  DeriveSubaccountID :: "address \<Rightarrow> string \<Rightarrow> subaccount_id option"
  SenderString :: "address \<Rightarrow> string"
  PostOnlyMode :: bool
  BlockHeight :: int
  GetSpotMarket :: "market_id \<Rightarrow> bool \<Rightarrow> SpotMarket option"
  GetAllSpotMarkets :: "SpotMarket list"
  EmergencyPaused :: bool

abbreviation se_dec :: "'b spot_env \<Rightarrow> dec_ops" where
  "se_dec S \<equiv> env_dec (se_env S)"

definition hold_in_chain_format :: "dec_ops \<Rightarrow> bool \<Rightarrow> SpotMarket \<Rightarrow> dec \<Rightarrow> dec" where
  "hold_in_chain_format D buy m hold =
     (if buy then NotionalToChainFormat D hold (QuoteDecimals m) else QuantityToChainFormat D hold (BaseDecimals m))"

datatype margin_model = IsolatedModel | CrossModel

definition Engine_model :: "RiskEngine option \<Rightarrow> subaccount_id \<Rightarrow> spot_error + margin_model" where
  "Engine_model e subaccountID =
     (case e of None \<Rightarrow> Inl ErrInvalidState
      | Some eng \<Rightarrow>
          if profiles eng = None then Inl ErrInvalidState
          else (case fst (EffectiveProfile e subaccountID) of
                  None \<Rightarrow> Inr IsolatedModel
                | Some profile \<Rightarrow>
                    (case Mode profile of
                       RISK_MODE_ISOLATED \<Rightarrow> Inr IsolatedModel
                     | RISK_MODE_CROSS \<Rightarrow> Inr CrossModel
                     | _ \<Rightarrow> Inl ErrRiskFeatureDisabled)))"

definition wrap_funds :: "'b spot_state \<Rightarrow> deposit_error + 'b exchange_state \<Rightarrow> spot_error + 'b spot_state" where
  "wrap_funds s r = (case r of Inl e \<Rightarrow> Inl (ErrFunds e) | Inr f \<Rightarrow> Inr (s\<lparr>funds_of := f\<rparr>))"

definition isolated_ReserveSpotLimitOrder ::
  "'b spot_env \<Rightarrow> 'b spot_state \<Rightarrow> subaccount_id \<Rightarrow> SpotOrder \<Rightarrow> SpotMarket \<Rightarrow> spot_error + 'b spot_state" where
  "isolated_ReserveSpotLimitOrder S s subaccountID ord m =
     (let (balanceHoldIncrement, marginDenom) = GetBalanceHoldAndMarginDenom (se_dec S) ord m
      in wrap_funds s (ChargeAccount (se_env S) (funds_of s) subaccountID marginDenom
           (hold_in_chain_format (se_dec S) (so_IsBuy ord) m balanceHoldIncrement)))"

definition isolated_ReserveSpotMarketOrder ::
  "'b spot_env \<Rightarrow> 'b spot_state \<Rightarrow> subaccount_id \<Rightarrow> SpotOrder \<Rightarrow> SpotMarket \<Rightarrow> dec \<Rightarrow> dec \<Rightarrow> spot_error + dec \<times> 'b spot_state" where
  "isolated_ReserveSpotMarketOrder S s subaccountID ord m feeRate bestPrice =
     (let balanceHold = GetMarketOrderBalanceHold (se_dec S) ord feeRate bestPrice
      in ebind (wrap_funds s (ChargeAccount (se_env S) (funds_of s) subaccountID (GetMarginDenom ord m)
                  (hold_in_chain_format (se_dec S) (so_IsBuy ord) m balanceHold)))
           (\<lambda>s. Inr (balanceHold, s)))"

definition isolated_RefundSpotLimitOrderCancel ::
  "'b spot_env \<Rightarrow> 'b spot_state \<Rightarrow> subaccount_id \<Rightarrow> SpotLimitOrder \<Rightarrow> SpotMarket \<Rightarrow> bool \<Rightarrow> 'b spot_state" where
  "isolated_RefundSpotLimitOrderCancel S s subaccountID ord m isTransient =
     (let (marginHold, marginDenom) = GetUnfilledMarginHoldAndMarginDenom (se_dec S) ord m isTransient
      in s\<lparr>funds_of := IncrementAvailableBalanceOrBank (se_env S) (funds_of s) subaccountID marginDenom
             (hold_in_chain_format (se_dec S) (lo_IsBuy ord) m marginHold)\<rparr>)"

text \<open>The cross-margin model delegates to the isolated one after the emergency-pause check.\<close>

definition cross_pause_check :: "'b spot_env \<Rightarrow> subaccount_id \<Rightarrow> margin_model \<Rightarrow> spot_error + unit" where
  "cross_pause_check S subaccountID model =
     (if model = CrossModel \<and> CheckCrossMarginEmergencyPause (se_risk S) subaccountID \<noteq> Inr ()
      then Inl ErrRiskFeatureDisabled else Inr ())"

definition ReserveSpotLimitOrder ::
  "'b spot_env \<Rightarrow> 'b spot_state \<Rightarrow> subaccount_id \<Rightarrow> SpotOrder \<Rightarrow> SpotMarket \<Rightarrow> spot_error + 'b spot_state" where
  "ReserveSpotLimitOrder S s subaccountID ord m =
     ebind (Engine_model (se_risk S) subaccountID) (\<lambda>model.
     ebind (cross_pause_check S subaccountID model) (\<lambda>_.
       isolated_ReserveSpotLimitOrder S s subaccountID ord m))"

definition ReserveSpotMarketOrder ::
  "'b spot_env \<Rightarrow> 'b spot_state \<Rightarrow> subaccount_id \<Rightarrow> SpotOrder \<Rightarrow> SpotMarket \<Rightarrow> dec \<Rightarrow> dec \<Rightarrow> spot_error + dec \<times> 'b spot_state" where
  "ReserveSpotMarketOrder S s subaccountID ord m feeRate bestPrice =
     ebind (Engine_model (se_risk S) subaccountID) (\<lambda>model.
     ebind (cross_pause_check S subaccountID model) (\<lambda>_.
       isolated_ReserveSpotMarketOrder S s subaccountID ord m feeRate bestPrice))"

definition RefundSpotLimitOrderCancel ::
  "'b spot_env \<Rightarrow> 'b spot_state \<Rightarrow> subaccount_id \<Rightarrow> SpotLimitOrder \<Rightarrow> SpotMarket \<Rightarrow> bool \<Rightarrow> spot_error + 'b spot_state" where
  "RefundSpotLimitOrderCancel S s subaccountID ord m isTransient =
     ebind (Engine_model (se_risk S) subaccountID) (\<lambda>_. Inr (isolated_RefundSpotLimitOrderCancel S s subaccountID ord m isTransient))"

section \<open>Prices of the book\<close>

definition GetBestSpotLimitOrderPrice :: "'b spot_env \<Rightarrow> 'b spot_state \<Rightarrow> market_id \<Rightarrow> bool \<Rightarrow> dec option" where
  "GetBestSpotLimitOrderPrice S s marketID buy =
     map_option lo_Price (List.find (\<lambda>ord. \<not> (EmergencyPaused S \<and> is_paused (se_risk S) ord))
       (IterateSpotLimitOrdersByMarketDirection (kv s) marketID buy))"

definition GetSpotMidPriceAndTOB :: "'b spot_env \<Rightarrow> 'b spot_state \<Rightarrow> market_id \<Rightarrow> dec option \<times> dec option \<times> dec option" where
  "GetSpotMidPriceAndTOB S s marketID =
     (let bestBuyPrice = GetBestSpotLimitOrderPrice S s marketID True;
          bestSellPrice = GetBestSpotLimitOrderPrice S s marketID False
      in case (bestBuyPrice, bestSellPrice) of
           (Some b, Some a) \<Rightarrow> (Some (dec_quo (se_dec S) (b + a) (LegacyNewDec 2)), bestBuyPrice, bestSellPrice)
         | _ \<Rightarrow> (None, bestBuyPrice, bestSellPrice))"

definition GetSpotMidPriceOrBestPrice :: "'b spot_env \<Rightarrow> 'b spot_state \<Rightarrow> market_id \<Rightarrow> dec option" where
  "GetSpotMidPriceOrBestPrice S s marketID =
     (case (GetBestSpotLimitOrderPrice S s marketID True, GetBestSpotLimitOrderPrice S s marketID False) of
        (None, None) \<Rightarrow> None
      | (None, Some a) \<Rightarrow> Some a
      | (Some b, None) \<Rightarrow> Some b
      | (Some b, Some a) \<Rightarrow> Some (dec_quo (se_dec S) (b + a) (LegacyNewDec 2)))"

definition SpotOrderCrossesTopOfBook :: "'b spot_env \<Rightarrow> 'b spot_state \<Rightarrow> SpotOrder \<Rightarrow> bool" where
  "SpotOrderCrossesTopOfBook S s ord =
     (case GetBestSpotLimitOrderPrice S s (so_MarketId ord) (\<not> so_IsBuy ord) of
        None \<Rightarrow> False
      | Some bestPrice \<Rightarrow> if so_IsBuy ord then bestPrice \<le> Price (so_OrderInfo ord) else Price (so_OrderInfo ord) \<le> bestPrice)"

definition validateMarketOrderBestPriceAgainstOrder :: "SpotOrder \<Rightarrow> dec option \<Rightarrow> spot_error + unit" where
  "validateMarketOrderBestPriceAgainstOrder ord bestPrice =
     (case bestPrice of None \<Rightarrow> Inl ErrNoLiquidity
      | Some best \<Rightarrow>
          if (so_IsBuy ord \<and> Price (so_OrderInfo ord) < best) \<or> (\<not> so_IsBuy ord \<and> best < Price (so_OrderInfo ord))
          then Inl ErrSlippageExceedsWorstPrice else Inr ())"

section \<open>Creating and cancelling orders\<close>

definition SaveNewSpotLimitOrder ::
  "'b spot_state \<Rightarrow> SpotLimitOrder \<Rightarrow> market_id \<Rightarrow> bool \<Rightarrow> order_hash \<Rightarrow> 'b spot_state" where
  "SaveNewSpotLimitOrder s ord marketID buy orderHash =
     (let s = s\<lparr>kv := SetSpotLimitOrder (kv s) ord marketID (lo_IsBuy ord) orderHash\<rparr>;
          s = IncrementOrderbookPriceLevelQuantity s marketID buy True (lo_Price ord) (Fillable ord);
          s = (if 0 < ExpirationBlock ord
               then AppendOrderExpirations s marketID (ExpirationBlock ord)
                      \<lparr>od_MarketId = marketID, od_SubaccountId = SubaccountId (lo_OrderInfo ord),
                       od_OrderHash = lo_OrderHash ord, od_Cid = Cid (lo_OrderInfo ord)\<rparr>
               else s)
      in s\<lparr>kv := SetCid (kv s) (SubaccountId (lo_OrderInfo ord)) (Cid (lo_OrderInfo ord)) marketID buy orderHash\<rparr>)"

definition RemoveSpotLimitOrder :: "'b spot_state \<Rightarrow> market_id \<Rightarrow> bool \<Rightarrow> SpotLimitOrder \<Rightarrow> 'b spot_state option" where
  "RemoveSpotLimitOrder s marketID buy ord =
     map_option (\<lambda>db.
         let s = s\<lparr>kv := DeleteCid db (SubaccountId (lo_OrderInfo ord)) (Cid (lo_OrderInfo ord))\<rparr>
         in DecrementOrderbookPriceLevelQuantity s marketID buy True (lo_Price ord) (Fillable ord))
       (DeleteSpotLimitOrder (kv s) marketID buy ord)"

definition UpdateSpotLimitOrder :: "'b spot_state \<Rightarrow> market_id \<Rightarrow> SpotLimitOrderDelta \<Rightarrow> 'b spot_state option" where
  "UpdateSpotLimitOrder s marketID orderDelta =
     (let ord = delta_Order orderDelta;
          s = DecrementOrderbookPriceLevelQuantity s marketID (lo_IsBuy ord) True (lo_Price ord) (FillQuantity orderDelta)
      in if Fillable ord = 0 then RemoveSpotLimitOrder s marketID (lo_IsBuy ord) ord
         else Some (s\<lparr>kv := UpdateSpotLimitOrderWithDelta (kv s) marketID orderDelta\<rparr>))"

definition ValidateSpotOrder ::
  "'b spot_env \<Rightarrow> 'b spot_state \<Rightarrow> SpotOrder \<Rightarrow> SpotMarket option \<Rightarrow> market_id \<Rightarrow> subaccount_id \<Rightarrow> spot_error + SpotMarket" where
  "ValidateSpotOrder S s ord market marketID subaccountID =
     (case (case market of Some m \<Rightarrow> Some m | None \<Rightarrow> GetSpotMarket S marketID True) of
        None \<Rightarrow> Inl ErrSpotMarketNotFound
      | Some m \<Rightarrow>
          ebind (CheckTickSize ord (MinPriceTickSize m) (MinQuantityTickSize m)) (\<lambda>_.
          ebind (CheckNotional (se_dec S) ord (MinNotional m)) (\<lambda>_.
            if so_ExpirationBlock ord \<noteq> 0 \<and> so_ExpirationBlock ord \<le> BlockHeight S then Inl ErrInvalidExpirationBlock
            else if (IsPostOnly (so_OrderType ord) \<or> PostOnlyMode S) \<and> SpotOrderCrossesTopOfBook S s ord
            then Inl ErrExceedsTopOfBookPrice
            else if ExistsCid s subaccountID (Cid (so_OrderInfo ord)) then Inl ErrClientOrderIdAlreadyExists
            else Inr m)))"

text \<open>The nonce stays incremented when the order is refused; \<^term>\<open>None\<close> is the panic on a malformed
  subaccount.\<close>

definition CreateSpotLimitOrder ::
  "'b spot_env \<Rightarrow> 'b spot_state \<Rightarrow> address \<Rightarrow> SpotOrder \<Rightarrow> SpotMarket option \<Rightarrow> (spot_error + order_hash) \<times> 'b spot_state option" where
  "CreateSpotLimitOrder S s sender ord market =
     (case DeriveSubaccountID S sender (SubaccountId (so_OrderInfo ord)) of
        None \<Rightarrow> (Inl ErrBadField, None)
      | Some subaccountID \<Rightarrow>
          let marketID = so_MarketId ord;
              ord = ord\<lparr>so_OrderInfo := (so_OrderInfo ord)\<lparr>SubaccountId := subaccountID\<rparr>\<rparr>;
              (nonce, s) = IncrementSubaccountTradeNonce s subaccountID
          in (case ComputeOrderHash S ord nonce of
                None \<Rightarrow> (Inl ErrOrderHash, Some s)
              | Some orderHash \<Rightarrow>
                  (case ebind (ValidateSpotOrder S s ord market marketID subaccountID)
                          (\<lambda>m. ReserveSpotLimitOrder S s subaccountID ord m) of
                     Inl e \<Rightarrow> (Inl e, Some s)
                   | Inr s \<Rightarrow>
                       let limitOrder = GetNewSpotLimitOrder ord (SenderString S sender) orderHash
                       in (Inr orderHash, Some
                            (if IsPostOnly (so_OrderType ord)
                             then SaveNewSpotLimitOrder s limitOrder marketID (lo_IsBuy limitOrder) (lo_OrderHash limitOrder)
                             else CheckAndSetFeeDiscountAccountActivityIndicator
                                    (SetTransientSpotLimitOrder s limitOrder marketID (so_IsBuy ord) orderHash) marketID sender)))))"

definition SetNewTransientSpotMarketOrder :: "'b spot_state \<Rightarrow> SpotMarketOrder \<Rightarrow> SpotOrder \<Rightarrow> order_hash \<Rightarrow> 'b spot_state" where
  "SetNewTransientSpotMarketOrder s marketOrder ord orderHash =
     (let s = SetTransientSpotMarketOrder s marketOrder ord orderHash;
          s = s\<lparr>tkv := SetCid (tkv s) (SubaccountId (so_OrderInfo ord)) (Cid (so_OrderInfo ord)) (so_MarketId ord) (so_IsBuy ord) orderHash\<rparr>
      in SetTransientMarketOrderIndicator s (so_MarketId ord) (so_IsBuy ord))"

text \<open>Of a cancellation, \<^term>\<open>None\<close> is a panic, \<^term>\<open>Some (Inl e)\<close> an error.\<close>

definition CancelSpotLimitOrder ::
  "'b spot_env \<Rightarrow> 'b spot_state \<Rightarrow> SpotMarket \<Rightarrow> market_id \<Rightarrow> subaccount_id \<Rightarrow> bool \<Rightarrow> SpotLimitOrder \<Rightarrow> (spot_error + 'b spot_state) option" where
  "CancelSpotLimitOrder S s m marketID subaccountID buy ord =
     (case RefundSpotLimitOrderCancel S s subaccountID ord m False of
        Inl e \<Rightarrow> Some (Inl e)
      | Inr s \<Rightarrow> map_option Inr (RemoveSpotLimitOrder s marketID buy ord))"

definition CancelTransientSpotLimitOrder ::
  "'b spot_env \<Rightarrow> 'b spot_state \<Rightarrow> SpotMarket \<Rightarrow> market_id \<Rightarrow> subaccount_id \<Rightarrow> SpotLimitOrder \<Rightarrow> (spot_error + 'b spot_state) option" where
  "CancelTransientSpotLimitOrder S s m marketID subaccountID ord =
     Some (ebind (RefundSpotLimitOrderCancel S s subaccountID ord m True) (\<lambda>s. Inr (DeleteTransientSpotLimitOrder s marketID ord)))"

definition CancelSpotLimitOrderByOrderHash ::
  "'b spot_env \<Rightarrow> 'b spot_state \<Rightarrow> subaccount_id \<Rightarrow> order_hash \<Rightarrow> SpotMarket option \<Rightarrow> market_id \<Rightarrow> (spot_error + 'b spot_state) option" where
  "CancelSpotLimitOrderByOrderHash S s subaccountID orderHash market marketID =
     (case market of
        None \<Rightarrow> Some (Inl ErrSpotMarketNotFound)
      | Some m \<Rightarrow>
          if \<not> StatusSupportsOrderCancellations market then Some (Inl ErrSpotMarketNotFound)
          else (case GetSpotLimitOrderBySubaccountID (kv s) marketID None subaccountID orderHash of
                  Some ord \<Rightarrow> CancelSpotLimitOrder S s m marketID subaccountID (lo_IsBuy ord) ord
                | None \<Rightarrow>
                    (case GetSpotLimitOrderBySubaccountID (tkv s) marketID None subaccountID orderHash of
                       Some ord \<Rightarrow> CancelTransientSpotLimitOrder S s m marketID subaccountID ord
                     | None \<Rightarrow> Some (Inl ErrOrderDoesntExist))))"

definition cancelSpotLimitOrderWithIdentifier ::
  "'b spot_env \<Rightarrow> 'b spot_state \<Rightarrow> subaccount_id \<Rightarrow> order_identifier \<Rightarrow> SpotMarket option \<Rightarrow> market_id \<Rightarrow> (spot_error + 'b spot_state) option" where
  "cancelSpotLimitOrderWithIdentifier S s subaccountID identifier market marketID =
     (case GetOrderHashFromIdentifier s subaccountID identifier of
        Inl e \<Rightarrow> Some (Inl e)
      | Inr orderHash \<Rightarrow> CancelSpotLimitOrderByOrderHash S s subaccountID orderHash market marketID)"

text \<open>A failed cancellation of one order is an event; the loop goes on.\<close>

fun cancel_each :: "('s \<Rightarrow> 'o \<Rightarrow> ('e + 's) option) \<Rightarrow> 'o list \<Rightarrow> 's \<Rightarrow> 's option" where
  "cancel_each cancel [] s = Some s"
| "cancel_each cancel (ord # orders) s =
     (case cancel s ord of
        None \<Rightarrow> None
      | Some (Inl _) \<Rightarrow> cancel_each cancel orders s
      | Some (Inr s') \<Rightarrow> cancel_each cancel orders s')"

definition CancelAllSpotLimitOrders ::
  "'b spot_env \<Rightarrow> 'b spot_state \<Rightarrow> SpotMarket \<Rightarrow> subaccount_id \<Rightarrow> market_id \<Rightarrow> 'b spot_state option" where
  "CancelAllSpotLimitOrders S s m subaccountID marketID = do {
     restingBuyOrders \<leftarrow> IterateSpotLimitOrdersBySubaccount (kv s) marketID True subaccountID;
     restingSellOrders \<leftarrow> IterateSpotLimitOrdersBySubaccount (kv s) marketID False subaccountID;
     transientBuyOrders \<leftarrow> IterateSpotLimitOrdersBySubaccount (tkv s) marketID True subaccountID;
     transientSellOrders \<leftarrow> IterateSpotLimitOrdersBySubaccount (tkv s) marketID False subaccountID;
     s \<leftarrow> cancel_each (\<lambda>s. CancelSpotLimitOrder S s m marketID subaccountID True) restingBuyOrders s;
     s \<leftarrow> cancel_each (\<lambda>s. CancelSpotLimitOrder S s m marketID subaccountID False) restingSellOrders s;
     s \<leftarrow> cancel_each (\<lambda>s. CancelTransientSpotLimitOrder S s m marketID subaccountID) transientBuyOrders s;
     cancel_each (\<lambda>s. CancelTransientSpotLimitOrder S s m marketID subaccountID) transientSellOrders s
   }"

definition CancelAllTransientSpotLimitOrdersForMarket :: "'b spot_env \<Rightarrow> 'b spot_state \<Rightarrow> SpotMarket \<Rightarrow> 'b spot_state option" where
  "CancelAllTransientSpotLimitOrdersForMarket S s m =
     (let buyOrders = IterateSpotLimitOrdersByMarketDirection (tkv s) (MarketId m) True;
          sellOrders = IterateSpotLimitOrdersByMarketDirection (tkv s) (MarketId m) False;
          cancel = (\<lambda>s ord. CancelTransientSpotLimitOrder S s m (MarketId m) (SubaccountId (lo_OrderInfo ord)) ord)
      in Option.bind (cancel_each cancel buyOrders s) (cancel_each cancel sellOrders))"

definition CancelTransientSpotMarketOrder ::
  "'b spot_env \<Rightarrow> 'b spot_state \<Rightarrow> SpotMarket \<Rightarrow> market_id \<Rightarrow> SpotMarketOrder \<Rightarrow> 'b spot_state" where
  "CancelTransientSpotMarketOrder S s m marketID ord =
     (let buy = mo_IsBuy ord;
          s = s\<lparr>funds_of := IncrementAvailableBalanceOrBank (se_env S) (funds_of s) (SubaccountId (mo_OrderInfo ord))
                  (if buy then QuoteDenom m else BaseDenom m) (hold_in_chain_format (se_dec S) buy m (BalanceHold ord))\<rparr>
      in DeleteTransientSpotMarketOrder s marketID buy ord)"

definition cancelPausedSide :: "'b spot_env \<Rightarrow> SpotMarket \<Rightarrow> bool \<Rightarrow> 'b spot_state \<Rightarrow> 'b spot_state option" where
  "cancelPausedSide S m buy s =
     (let paused = (\<lambda>ord. CheckCrossMarginEmergencyPause (se_risk S) (SubaccountId (mo_OrderInfo ord)) \<noteq> Inr ());
          s = fold (\<lambda>ord s. CancelTransientSpotMarketOrder S s m (MarketId m) ord)
                (filter paused (GetAllTransientSpotMarketOrders s (MarketId m) buy)) s
      in cancel_each (\<lambda>s ord. CancelTransientSpotLimitOrder S s m (MarketId m) (SubaccountId (lo_OrderInfo ord)) ord)
           (filter (is_paused (se_risk S)) (IterateSpotLimitOrdersByMarketDirection (tkv s) (MarketId m) buy)) s)"

fun cancelPausedSides :: "'b spot_env \<Rightarrow> (SpotMarket \<times> bool) list \<Rightarrow> 'b spot_state \<Rightarrow> 'b spot_state option" where
  "cancelPausedSides S [] s = Some s"
| "cancelPausedSides S ((m, buy) # sides) s = Option.bind (cancelPausedSide S m buy s) (cancelPausedSides S sides)"

definition CancelPausedTransientSpotOrders :: "'b spot_env \<Rightarrow> 'b spot_state \<Rightarrow> 'b spot_state option" where
  "CancelPausedTransientSpotOrders S s =
     (if \<not> EmergencyPaused S then Some s
      else cancelPausedSides S (concat (map (\<lambda>m. [(m, True), (m, False)]) (GetAllSpotMarkets S))) s)"

section \<open>Persisting an executed batch\<close>

type_synonym vwap_info = "market_id \<Rightarrow> SpotVwapData option"

definition applyDepositDeltas ::
  "'b exchange_env \<Rightarrow> denom \<Rightarrow> DepositDeltas \<Rightarrow> subaccount_id list \<Rightarrow> 'b exchange_state \<Rightarrow> 'b exchange_state" where
  "applyDepositDeltas E d deltas ids f = fold (\<lambda>sub f. UpdateDepositWithDelta E f sub d (map_of deltas sub)) ids f"

definition persistVwap :: "dec_ops \<Rightarrow> vwap_info \<Rightarrow> SpotBatchExecutionData \<Rightarrow> vwap_info option" where
  "persistVwap D vwap execution =
     (if vwap_Price (VwapData execution) \<noteq> 0 \<and> vwap_Quantity (VwapData execution) \<noteq> 0
      then ApplyVwap D vwap (MarketId (Market execution)) (VwapData execution) else Some vwap)"

definition persistDeposits :: "'b spot_env \<Rightarrow> SpotBatchExecutionData \<Rightarrow> 'b spot_state \<Rightarrow> 'b spot_state" where
  "persistDeposits S execution s =
     s\<lparr>funds_of :=
         applyDepositDeltas (se_env S) (QuoteDenom (Market execution)) (QuoteDenomDepositDeltas execution) (QuoteDenomDepositSubaccountIDs execution)
           (applyDepositDeltas (se_env S) (BaseDenom (Market execution)) (BaseDenomDepositDeltas execution) (BaseDenomDepositSubaccountIDs execution)
              (funds_of s))\<rparr>"

fun updateOrders :: "market_id \<Rightarrow> SpotLimitOrderDelta list \<Rightarrow> 'b spot_state \<Rightarrow> 'b spot_state option" where
  "updateOrders marketID [] s = Some s"
| "updateOrders marketID (delta # deltas) s = Option.bind (UpdateSpotLimitOrder s marketID delta) (updateOrders marketID deltas)"

definition saveNewOrders :: "market_id \<Rightarrow> EventNewSpotOrders option \<Rightarrow> 'b spot_state \<Rightarrow> 'b spot_state" where
  "saveNewOrders marketID event s =
     (case event of None \<Rightarrow> s
      | Some new \<Rightarrow>
          fold (\<lambda>ord s. SaveNewSpotLimitOrder s ord marketID False (lo_OrderHash ord)) (SellOrders new)
            (fold (\<lambda>ord s. SaveNewSpotLimitOrder s ord marketID True (lo_OrderHash ord)) (BuyOrders new) s))"

definition PersistSingleSpotMarketOrderExecution ::
  "'b spot_env \<Rightarrow> SpotBatchExecutionData option \<Rightarrow> 'b spot_state \<times> vwap_info \<times> RewardPoints
     \<Rightarrow> ('b spot_state \<times> vwap_info \<times> RewardPoints) option" where
  "PersistSingleSpotMarketOrderExecution S execution st =
     (case (execution, st) of
        (None, st) \<Rightarrow> Some st
      | (Some execution, s, vwap, points) \<Rightarrow> do {
          vwap \<leftarrow> persistVwap (se_dec S) vwap execution;
          s \<leftarrow> updateOrders (MarketId (Market execution)) (LimitOrderFilledDeltas execution) (persistDeposits S execution s);
          Some (s, vwap, if b_TradingRewardPoints execution \<noteq> []
                         then MergeTradingRewardPoints points (b_TradingRewardPoints execution) else points)
        })"

fun PersistSpotMarketOrderExecution ::
  "'b spot_env \<Rightarrow> SpotBatchExecutionData option list \<Rightarrow> 'b spot_state \<times> vwap_info \<times> RewardPoints
     \<Rightarrow> ('b spot_state \<times> vwap_info \<times> RewardPoints) option" where
  "PersistSpotMarketOrderExecution S [] st = Some st"
| "PersistSpotMarketOrderExecution S (execution # executions) st =
     Option.bind (PersistSingleSpotMarketOrderExecution S execution st) (PersistSpotMarketOrderExecution S executions)"

fun PersistSpotMatchingExecution ::
  "'b spot_env \<Rightarrow> SpotBatchExecutionData option list \<Rightarrow> 'b spot_state \<times> vwap_info \<times> RewardPoints
     \<Rightarrow> ('b spot_state \<times> vwap_info \<times> RewardPoints) option" where
  "PersistSpotMatchingExecution S [] st = Some st"
| "PersistSpotMatchingExecution S (None # executions) st = PersistSpotMatchingExecution S executions st"
| "PersistSpotMatchingExecution S (Some execution # executions) (s, vwap, points) = do {
     vwap \<leftarrow> persistVwap (se_dec S) vwap execution;
     let s = saveNewOrders (MarketId (Market execution)) (NewOrdersEvent execution) (persistDeposits S execution s);
     s \<leftarrow> updateOrders (MarketId (Market execution)) (LimitOrderFilledDeltas execution) s;
     PersistSpotMatchingExecution S executions
       (s, vwap, if b_TradingRewardPoints execution \<noteq> []
                 then MergeTradingRewardPoints points (b_TradingRewardPoints execution) else points)
   }"

end
