(* ===== verification/Spot_Order_Laws.thy ===== *)
theory Spot_Order_Laws
  imports Spot_Orders
begin

text \<open>
  The order stores stay consistent: the aggregate quantity of every price level is the sum of the
  fillable quantities of the orders resting at it, the subaccount index finds exactly the stored
  orders, and the transient copy of the price levels agrees with the persistent one. The
  invariant holds along every sequence of creations, cancellations, fills and block ends, and in a
  state that has it no cancellation panics. Cancelling an order gives back what its creation
  reserved, and persisting a settled auction moves no funds in or out of the module beyond the rounding of notionals.
\<close>

section \<open>The stores' invariant\<close>

definition level_of :: "order_db \<Rightarrow> level_key \<Rightarrow> dec" where
  "level_of db k = (case map_of (db_levels db) k of None \<Rightarrow> 0 | Some q \<Rightarrow> q)"

definition order_key :: "market_id \<Rightarrow> SpotLimitOrder \<Rightarrow> price_key" where
  "order_key m ord = (m, lo_IsBuy ord, lo_Price ord, lo_OrderHash ord)"

definition order_index :: "market_id \<Rightarrow> SpotLimitOrder \<Rightarrow> index_key" where
  "order_index m ord = (m, lo_IsBuy ord, SubaccountId (lo_OrderInfo ord), lo_OrderHash ord)"

definition order_level :: "market_id \<Rightarrow> SpotLimitOrder \<Rightarrow> level_key" where
  "order_level m ord = (True, m, lo_IsBuy ord, lo_Price ord)"

definition at_level :: "level_key \<Rightarrow> price_key \<Rightarrow> SpotLimitOrder \<Rightarrow> dec" where
  "at_level k pk ord = (case pk of (m, b, p, h) \<Rightarrow> if k = (True, m, b, p) then Fillable ord else 0)"

definition resting_at :: "order_db \<Rightarrow> level_key \<Rightarrow> dec" where
  "resting_at db k = store_sum (at_level k) (db_orders db)"

definition levels_coherent :: "'b spot_state \<Rightarrow> bool" where
  "levels_coherent s \<longleftrightarrow> (\<forall>k q. map_of (db_levels (tkv s)) k = Some q \<longrightarrow> q = level_of (kv s) k)"

definition order_entry_ok :: "order_db \<Rightarrow> price_key \<Rightarrow> SpotLimitOrder \<Rightarrow> bool" where
  "order_entry_ok db k ord \<longleftrightarrow> k = order_key (fst k) ord \<and> 0 \<le> Fillable ord
     \<and> map_of (db_index db) (order_index (fst k) ord) = Some k"

definition index_entry_ok :: "order_db \<Rightarrow> index_key \<Rightarrow> price_key \<Rightarrow> bool" where
  "index_entry_ok db i k \<longleftrightarrow> (\<exists>ord. map_of (db_orders db) k = Some ord \<and> i = order_index (fst k) ord)"

definition stores_ok :: "order_db \<Rightarrow> bool" where
  "stores_ok db \<longleftrightarrow> distinct (map fst (db_orders db))
     \<and> (\<forall>k ord. map_of (db_orders db) k = Some ord \<longrightarrow> order_entry_ok db k ord)
     \<and> (\<forall>i k. map_of (db_index db) i = Some k \<longrightarrow> index_entry_ok db i k)"

definition book_ok :: "'b spot_state \<Rightarrow> bool" where
  "book_ok s \<longleftrightarrow> stores_ok (kv s) \<and> levels_coherent s
     \<and> (\<forall>m b p. level_of (kv s) (True, m, b, p) = resting_at (kv s) (True, m, b, p))"

lemma stores_okD:
  assumes "stores_ok db"
  shows "distinct (map fst (db_orders db))"
    "map_of (db_orders db) k = Some ord \<Longrightarrow> order_entry_ok db k ord"
    "map_of (db_index db) i = Some k \<Longrightarrow> index_entry_ok db i k"
  using assms unfolding stores_ok_def by blast+

lemma stores_okI:
  assumes "distinct (map fst (db_orders db))"
    "\<And>k ord. map_of (db_orders db) k = Some ord \<Longrightarrow> order_entry_ok db k ord"
    "\<And>i k. map_of (db_index db) i = Some k \<Longrightarrow> index_entry_ok db i k"
  shows "stores_ok db"
  using assms unfolding stores_ok_def by blast

section \<open>Price levels\<close>

lemma coherent_level:
  "levels_coherent s \<Longrightarrow> GetOrderbookPriceLevelQuantity s m b sp p = level_of (kv s) (sp, m, b, p)"
  by (cases "map_of (db_levels (tkv s)) (sp, m, b, p)")
    (auto simp: levels_coherent_def GetOrderbookPriceLevelQuantity_def Let_def level_of_def)

lemma set_level:
  assumes "levels_coherent s" "0 \<le> q"
  shows "levels_coherent (SetOrderbookPriceLevelQuantity s m b sp p q)"
    "level_of (kv (SetOrderbookPriceLevelQuantity s m b sp p q)) k = (if k = (sp, m, b, p) then q else level_of (kv s) k)"
  using assms
  by (auto simp: levels_coherent_def SetOrderbookPriceLevelQuantity_def Let_def level_of_def update_conv' delete_conv'
      split: if_splits)

definition same_orders :: "order_db \<Rightarrow> order_db \<Rightarrow> bool" where
  "same_orders db db' \<longleftrightarrow> db_orders db' = db_orders db \<and> db_index db' = db_index db"

lemma stores_ok_same: "same_orders db db' \<Longrightarrow> stores_ok db' = stores_ok db"
  by (auto simp: same_orders_def stores_ok_def order_entry_ok_def index_entry_ok_def split: prod.splits)

lemma resting_at_same: "same_orders db db' \<Longrightarrow> resting_at db' k = resting_at db k"
  by (simp add: same_orders_def resting_at_def)

lemma level_frame [simp]:
  "same_orders (kv s) (kv (SetOrderbookPriceLevelQuantity s m b sp p q))"
  "funds_of (SetOrderbookPriceLevelQuantity s m b sp p q) = funds_of s"
  by (simp_all add: SetOrderbookPriceLevelQuantity_def Let_def same_orders_def)

lemma same_orders_refl [simp]: "same_orders db db"
  by (simp add: same_orders_def)

lemma shift_level:
  assumes "levels_coherent s" "0 \<le> level_of (kv s) (sp, m, b, p) + q"
  shows "levels_coherent (IncrementOrderbookPriceLevelQuantity s m b sp p q)"
    "level_of (kv (IncrementOrderbookPriceLevelQuantity s m b sp p q)) k = level_of (kv s) k + (if k = (sp, m, b, p) then q else 0)"
    "same_orders (kv s) (kv (IncrementOrderbookPriceLevelQuantity s m b sp p q))"
    "funds_of (IncrementOrderbookPriceLevelQuantity s m b sp p q) = funds_of s"
  using assms set_level [OF assms(1)] coherent_level [OF assms(1)]
  by (auto simp: IncrementOrderbookPriceLevelQuantity_def)

lemma decrement_is_increment:
  "DecrementOrderbookPriceLevelQuantity s m b sp p q = IncrementOrderbookPriceLevelQuantity s m b sp p (- q)"
  by (simp add: DecrementOrderbookPriceLevelQuantity_def IncrementOrderbookPriceLevelQuantity_def)

lemma at_level_key: "at_level k (order_key m ord) ord = (if k = order_level m ord then Fillable ord else 0)"
  by (simp add: at_level_def order_key_def order_level_def)

lemma fst_order_key [simp]: "fst (order_key m ord) = m"
  by (simp add: order_key_def)

lemma at_level_nonneg:
  assumes "stores_ok db" "(pk, ord) \<in> set (db_orders db)"
  shows "0 \<le> at_level k pk ord"
proof -
  have "order_entry_ok db pk ord" using stores_okD(1,2) [OF assms(1)] assms(2) by simp
  then show ?thesis by (auto simp: order_entry_ok_def at_level_def split: prod.splits)
qed

lemma resting_at_nonneg: "stores_ok db \<Longrightarrow> 0 \<le> resting_at db k"
  unfolding resting_at_def store_sum_def
  by (rule sum_list_nonneg) (auto dest: at_level_nonneg)

lemma resting_at_member:
  assumes "stores_ok db" "map_of (db_orders db) (order_key m ord) = Some ord"
  shows "Fillable ord \<le> resting_at db (order_level m ord)"
proof -
  let ?f = "\<lambda>(pk, ord'). at_level (order_level m ord) pk ord'"
  have "(order_key m ord, ord) \<in> set (db_orders db)" using assms(2) by (rule map_of_SomeD)
  then have "?f (order_key m ord, ord) \<in> set (map ?f (db_orders db))" by force
  then have "?f (order_key m ord, ord) \<le> sum_list (map ?f (db_orders db))"
    by (rule member_le_sum_list) (auto dest: at_level_nonneg [OF assms(1)])
  then show ?thesis by (simp add: resting_at_def store_sum_def at_level_key)
qed

section \<open>Order stores\<close>

definition fresh_order :: "order_db \<Rightarrow> market_id \<Rightarrow> SpotLimitOrder \<Rightarrow> bool" where
  "fresh_order db m ord \<longleftrightarrow> map_of (db_orders db) (order_key m ord) = None \<and> map_of (db_index db) (order_index m ord) = None"

lemma set_order:
  assumes ok: "stores_ok db" and f: "fresh_order db m ord" and "0 \<le> Fillable ord"
  shows "stores_ok (SetSpotLimitOrder db ord m (lo_IsBuy ord) (lo_OrderHash ord))"
    "resting_at (SetSpotLimitOrder db ord m (lo_IsBuy ord) (lo_OrderHash ord)) k
       = resting_at db k + (if k = order_level m ord then Fillable ord else 0)"
proof -
  let ?db = "SetSpotLimitOrder db ord m (lo_IsBuy ord) (lo_OrderHash ord)"
  have maps: "map_of (db_orders ?db) = (map_of (db_orders db))(order_key m ord \<mapsto> ord)"
    "map_of (db_index ?db) = (map_of (db_index db))(order_index m ord \<mapsto> order_key m ord)"
    by (simp_all add: SetSpotLimitOrder_def Let_def GetLimitOrderByPriceKeyPrefix_def GetLimitOrderIndexKey_def update_conv'
        order_key_def order_index_def)
  show "stores_ok ?db"
  proof (rule stores_okI)
    show "distinct (map fst (db_orders ?db))"
      using stores_okD(1) [OF ok] by (simp add: SetSpotLimitOrder_def Let_def distinct_store)
    show "order_entry_ok ?db k' o'" if k': "map_of (db_orders ?db) k' = Some o'" for k' o'
    proof (cases "k' = order_key m ord")
      case True
      then have "o' = ord" using k' by (simp add: maps)
      show ?thesis unfolding True \<open>o' = ord\<close> order_entry_ok_def maps using assms(3) by simp
    next
      case False
      then have "order_entry_ok db k' o'" using k' stores_okD(2) [OF ok] by (simp add: maps)
      then show ?thesis using f by (auto simp: order_entry_ok_def maps fresh_order_def)
    qed
    show "index_entry_ok ?db i k'" if i: "map_of (db_index ?db) i = Some k'" for i k'
    proof (cases "i = order_index m ord")
      case True
      then show ?thesis using i by (auto simp: maps index_entry_ok_def)
    next
      case False
      then have "index_entry_ok db i k'" using i stores_okD(3) [OF ok] by (simp add: maps)
      then show ?thesis using f by (auto simp: index_entry_ok_def maps fresh_order_def)
    qed
  qed
  have "db_orders ?db = AList.update (order_key m ord) ord (db_orders db)"
    by (simp add: SetSpotLimitOrder_def Let_def GetLimitOrderByPriceKeyPrefix_def order_key_def)
  then show "resting_at ?db k = resting_at db k + (if k = order_level m ord then Fillable ord else 0)"
    using stores_okD(1) [OF ok] f by (simp add: resting_at_def store_sum_update store_at_def fresh_order_def at_level_key)
qed

lemma delete_order:
  assumes ok: "stores_ok db" and k: "map_of (db_orders db) (order_key m ord) = Some ord"
  obtains db' where "DeleteSpotLimitOrder db m (lo_IsBuy ord) ord = Some db'" "stores_ok db'" "db_levels db' = db_levels db"
    "\<forall>k. resting_at db' k = resting_at db k - (if k = order_level m ord then Fillable ord else 0)"
proof -
  have i: "map_of (db_index db) (order_index m ord) = Some (order_key m ord)"
    using stores_okD(2) [OF ok k] by (simp add: order_entry_ok_def)
  define db' where "db' = db\<lparr>db_orders := AList.delete (order_key m ord) (db_orders db),
    db_index := AList.delete (order_index m ord) (db_index db)\<rparr>"
  have maps: "map_of (db_orders db') = (map_of (db_orders db))(order_key m ord := None)"
    "map_of (db_index db') = (map_of (db_index db))(order_index m ord := None)"
    by (simp_all add: db'_def delete_conv')
  have "stores_ok db'"
  proof (rule stores_okI)
    show "distinct (map fst (db_orders db'))" using stores_okD(1) [OF ok] by (simp add: db'_def distinct_store)
    show "order_entry_ok db' k' o'" if k': "map_of (db_orders db') k' = Some o'" for k' o'
    proof -
      have n: "k' \<noteq> order_key m ord" and o': "map_of (db_orders db) k' = Some o'"
        using k' by (simp_all add: maps split: if_splits)
      then show ?thesis using stores_okD(2) [OF ok o'] i by (auto simp: order_entry_ok_def maps)
    qed
    show "index_entry_ok db' i' k'" if i': "map_of (db_index db') i' = Some k'" for i' k'
    proof -
      have n: "i' \<noteq> order_index m ord" and i'': "map_of (db_index db) i' = Some k'"
        using i' by (simp_all add: maps split: if_splits)
      then show ?thesis using stores_okD(3) [OF ok i''] k by (auto simp: index_entry_ok_def maps)
    qed
  qed
  moreover have "\<forall>k. resting_at db' k = resting_at db k - (if k = order_level m ord then Fillable ord else 0)"
    using stores_okD(1) [OF ok] k by (simp add: resting_at_def db'_def store_sum_delete store_at_def at_level_key)
  moreover have "DeleteSpotLimitOrder db m (lo_IsBuy ord) ord = Some db'"
    using i by (simp add: DeleteSpotLimitOrder_def GetLimitOrderIndexKey_def db'_def order_index_def)
  ultimately show ?thesis using that by (simp add: db'_def)
qed

lemma same_orders_cid [simp]:
  "same_orders db (SetCid db sub cid m b h)" "same_orders db (DeleteCid db sub cid)"
  "db_levels (SetCid db sub cid m b h) = db_levels db" "db_levels (DeleteCid db sub cid) = db_levels db"
  by (simp_all add: SetCid_def DeleteCid_def same_orders_def)

lemma level_of_levels: "db_levels db' = db_levels db \<Longrightarrow> level_of db' k = level_of db k"
  by (simp add: level_of_def)

lemma book_okI:
  assumes "stores_ok (kv s)" "levels_coherent s"
    "\<And>m b p. level_of (kv s) (True, m, b, p) = resting_at (kv s) (True, m, b, p)"
  shows "book_ok s"
  using assms by (simp add: book_ok_def)

lemma book_ok_cong:
  assumes "book_ok s" "same_orders (kv s) (kv s')" "db_levels (kv s') = db_levels (kv s)" "db_levels (tkv s') = db_levels (tkv s)"
  shows "book_ok s'"
  using assms stores_ok_same [OF assms(2)] resting_at_same [OF assms(2)] level_of_levels [OF assms(3)]
  by (simp add: book_ok_def levels_coherent_def)

lemma AppendOrderExpirations_frame [simp]:
  "kv (AppendOrderExpirations s m n od) = kv s" "tkv (AppendOrderExpirations s m n od) = tkv s"
  "funds_of (AppendOrderExpirations s m n od) = funds_of s"
  by (simp_all add: AppendOrderExpirations_def)

lemma book_okD:
  assumes "book_ok s"
  shows "stores_ok (kv s)" "levels_coherent s" "level_of (kv s) (True, m, b, p) = resting_at (kv s) (True, m, b, p)"
  using assms unfolding book_ok_def by blast+

lemma book_ok_level: "book_ok s \<Longrightarrow> level_of (kv s) (order_level m ord) = resting_at (kv s) (order_level m ord)"
  by (simp add: book_ok_def order_level_def)

lemma coherent_cong:
  assumes "levels_coherent s" "db_levels (kv s') = db_levels (kv s)" "db_levels (tkv s') = db_levels (tkv s)"
  shows "levels_coherent s'"
  using assms level_of_levels [OF assms(2)] by (simp add: levels_coherent_def)

text \<open>Adding a quantity to a level together with the orders that carry it.\<close>

lemma shift_book:
  assumes ok: "book_ok s" and l: "db_levels (kv s1) = db_levels (kv s)" "db_levels (tkv s1) = db_levels (tkv s)"
    and st: "stores_ok (kv s1)" and r: "\<forall>k. resting_at (kv s1) k = resting_at (kv s) k + (if k = (True, m, b, p) then q else 0)"
  shows "book_ok (IncrementOrderbookPriceLevelQuantity s1 m b True p q)"
proof -
  have c: "levels_coherent s1" using coherent_cong [OF book_okD(2) [OF ok] l] .
  have lv: "level_of (kv s1) (True, m', b', p') = resting_at (kv s) (True, m', b', p')" for m' b' p'
    using level_of_levels [OF l(1)] book_okD(3) [OF ok] by simp
  have "0 \<le> resting_at (kv s1) (True, m, b, p)" by (rule resting_at_nonneg [OF st])
  then have n: "0 \<le> level_of (kv s1) (True, m, b, p) + q" using r lv by simp
  note sh = shift_level [OF c n]
  show ?thesis
    by (rule book_okI)
      (use sh st r lv stores_ok_same [OF sh(3)] resting_at_same [OF sh(3)] in simp_all)
qed

lemma save_new_order_ok:
  assumes "book_ok s" "fresh_order (kv s) m ord" "0 \<le> Fillable ord"
  shows "book_ok (SaveNewSpotLimitOrder s ord m (lo_IsBuy ord) (lo_OrderHash ord))"
proof -
  let ?s1 = "s\<lparr>kv := SetSpotLimitOrder (kv s) ord m (lo_IsBuy ord) (lo_OrderHash ord)\<rparr>"
  note st = set_order [OF book_okD(1) [OF assms(1)] assms(2,3)]
  have "book_ok (IncrementOrderbookPriceLevelQuantity ?s1 m (lo_IsBuy ord) True (lo_Price ord) (Fillable ord))"
    by (rule shift_book [OF assms(1)]) (use st in \<open>auto simp: SetSpotLimitOrder_def Let_def order_level_def\<close>)
  then show ?thesis
    by (rule book_ok_cong) (simp_all add: SaveNewSpotLimitOrder_def Let_def)
qed

lemma remove_order_ok:
  assumes "book_ok s" "map_of (db_orders (kv s)) (order_key m ord) = Some ord"
  obtains s' where "RemoveSpotLimitOrder s m (lo_IsBuy ord) ord = Some s'" "book_ok s'" "funds_of s' = funds_of s"
proof -
  obtain db where db: "DeleteSpotLimitOrder (kv s) m (lo_IsBuy ord) ord = Some db" "stores_ok db" "db_levels db = db_levels (kv s)"
    "\<forall>k. resting_at db k = resting_at (kv s) k - (if k = order_level m ord then Fillable ord else 0)"
    by (rule delete_order [OF book_okD(1) [OF assms(1)] assms(2)])
  let ?s1 = "s\<lparr>kv := DeleteCid db (SubaccountId (lo_OrderInfo ord)) (Cid (lo_OrderInfo ord))\<rparr>"
  have same: "same_orders db (kv ?s1)" by simp
  have "book_ok (DecrementOrderbookPriceLevelQuantity ?s1 m (lo_IsBuy ord) True (lo_Price ord) (Fillable ord))"
    unfolding decrement_is_increment
    by (rule shift_book [OF assms(1)])
      (use db stores_ok_same [OF same] resting_at_same [OF same] in \<open>auto simp: order_level_def\<close>)
  then show ?thesis
    by (rule that [rotated]) (use db(1) in \<open>simp_all add: RemoveSpotLimitOrder_def Let_def DecrementOrderbookPriceLevelQuantity_def\<close>)
qed

section \<open>Fills, cancellations, creations\<close>

lemma update_order:
  assumes ok: "stores_ok db" and k: "map_of (db_orders db) (order_key m ord0) = Some ord0"
    and d: "delta_Order delta = ord0\<lparr>Fillable := Fillable ord0 - q\<rparr>" "q \<le> Fillable ord0"
  shows "stores_ok (UpdateSpotLimitOrderWithDelta db m delta)"
    "db_levels (UpdateSpotLimitOrderWithDelta db m delta) = db_levels db"
    "resting_at (UpdateSpotLimitOrderWithDelta db m delta) k
       = resting_at db k - (if k = order_level m ord0 then q else 0)"
proof -
  let ?db = "UpdateSpotLimitOrderWithDelta db m delta" and ?ord = "ord0\<lparr>Fillable := Fillable ord0 - q\<rparr>"
  have key: "order_key m ?ord = order_key m ord0" "order_index n ?ord = order_index n ord0" "order_level m ?ord = order_level m ord0" for n
    by (simp_all add: order_key_def order_index_def order_level_def)
  have u: "db_orders ?db = AList.update (order_key m ord0) ?ord (db_orders db)" "db_index ?db = db_index db"
    by (simp_all add: UpdateSpotLimitOrderWithDelta_def Let_def d(1) GetLimitOrderByPriceKeyPrefix_def order_key_def)
  show "db_levels ?db = db_levels db" by (simp add: UpdateSpotLimitOrderWithDelta_def Let_def)
  show "stores_ok ?db"
  proof (rule stores_okI)
    show "distinct (map fst (db_orders ?db))" using stores_okD(1) [OF ok] by (simp add: u distinct_store)
    show "order_entry_ok ?db k' o'" if k': "map_of (db_orders ?db) k' = Some o'" for k' o'
    proof (cases "k' = order_key m ord0")
      case True
      then have "o' = ?ord" using k' by (simp add: u update_conv')
      then show ?thesis using stores_okD(2) [OF ok k] True d(2) key by (simp add: order_entry_ok_def u)
    next
      case False
      then have "map_of (db_orders db) k' = Some o'" using k' by (simp add: u update_conv')
      then show ?thesis using stores_okD(2) [OF ok] by (simp add: order_entry_ok_def u)
    qed
    show "index_entry_ok ?db i k'" if i: "map_of (db_index ?db) i = Some k'" for i k'
    proof -
      have "index_entry_ok db i k'" using i stores_okD(3) [OF ok] by (simp add: u)
      then obtain o' where o': "map_of (db_orders db) k' = Some o'" "i = order_index (fst k') o'" by (auto simp: index_entry_ok_def)
      show ?thesis
      proof (cases "k' = order_key m ord0")
        case True
        then have "o' = ord0" using o'(1) k by simp
        then show ?thesis using True o'(2) key by (simp add: index_entry_ok_def u update_conv')
      next
        case False
        then show ?thesis using o' by (auto simp: index_entry_ok_def u update_conv')
      qed
    qed
  qed
  have "at_level k (order_key m ord0) ?ord = (if k = order_level m ord0 then Fillable ord0 - q else 0)"
    using at_level_key [of k m ?ord] key by simp
  then show "resting_at ?db k = resting_at db k - (if k = order_level m ord0 then q else 0)"
    using stores_okD(1) [OF ok] k by (simp add: resting_at_def u store_sum_update store_at_def at_level_key)
qed

lemma shifted_book:
  assumes ok: "book_ok s" and q: "0 \<le> resting_at (kv s) (True, m, b, p) + q"
    and s2: "s2 = IncrementOrderbookPriceLevelQuantity s m b True p q"
    and l: "db_levels (kv s3) = db_levels (kv s2)" "db_levels (tkv s3) = db_levels (tkv s2)" and st: "stores_ok (kv s3)"
    and r: "\<forall>k. resting_at (kv s3) k = resting_at (kv s) k + (if k = (True, m, b, p) then q else 0)"
  shows "book_ok s3"
proof -
  have n: "0 \<le> level_of (kv s) (True, m, b, p) + q" using q book_okD(3) [OF ok] by simp
  note sh = shift_level [OF book_okD(2) [OF ok] n]
  show ?thesis
    by (rule book_okI)
      (use sh st r level_of_levels [OF l(1)] book_okD(3) [OF ok] coherent_cong [OF _ l] in \<open>simp_all add: s2\<close>)
qed

lemma fill_order_ok:
  assumes ok: "book_ok s" and k: "map_of (db_orders (kv s)) (order_key m ord0) = Some ord0"
    and d: "delta_Order delta = ord0\<lparr>Fillable := Fillable ord0 - q\<rparr>" "FillQuantity delta = q" "0 \<le> q" "q \<le> Fillable ord0"
  obtains s' where "UpdateSpotLimitOrder s m delta = Some s'" "book_ok s'" "funds_of s' = funds_of s"
proof -
  let ?ord = "ord0\<lparr>Fillable := Fillable ord0 - q\<rparr>"
  define s2 where "s2 = IncrementOrderbookPriceLevelQuantity s m (lo_IsBuy ord0) True (lo_Price ord0) (- q)"
  have dec: "DecrementOrderbookPriceLevelQuantity s m (lo_IsBuy ord0) True (lo_Price ord0) q = s2"
    by (simp add: decrement_is_increment s2_def)
  have n: "0 \<le> resting_at (kv s) (True, m, lo_IsBuy ord0, lo_Price ord0) + - q"
    using resting_at_member [OF book_okD(1) [OF ok] k] d(4) by (simp add: order_level_def)
  then have sh: "same_orders (kv s) (kv s2)" "funds_of s2 = funds_of s"
    using shift_level(3,4) [OF book_okD(2) [OF ok], of True m "lo_IsBuy ord0" "lo_Price ord0" "- q"] book_okD(3) [OF ok]
    by (simp_all add: s2_def)
  have st2: "stores_ok (kv s2)" and k2: "map_of (db_orders (kv s2)) (order_key m ord0) = Some ord0"
    and r2: "\<And>k. resting_at (kv s2) k = resting_at (kv s) k"
    using stores_ok_same [OF sh(1)] book_okD(1) [OF ok] k sh(1) resting_at_same [OF sh(1)] by (simp_all add: same_orders_def)
  show ?thesis
  proof (cases "Fillable ord0 - q = 0")
    case False
    define s3 where "s3 = s2\<lparr>kv := UpdateSpotLimitOrderWithDelta (kv s2) m delta\<rparr>"
    note u = update_order [OF st2 k2 d(1,4)]
    have "book_ok s3"
      by (rule shifted_book [OF ok n s2_def]) (use u r2 in \<open>auto simp: s3_def order_level_def\<close>)
    then show ?thesis
      by (rule that [rotated]) (use False d dec sh(2) in \<open>simp_all add: UpdateSpotLimitOrder_def s3_def\<close>)
  next
    case True
    obtain db where db: "DeleteSpotLimitOrder (kv s2) m (lo_IsBuy ord0) ord0 = Some db" "stores_ok db" "db_levels db = db_levels (kv s2)"
      "\<forall>k. resting_at db k = resting_at (kv s2) k - (if k = order_level m ord0 then Fillable ord0 else 0)"
      by (rule delete_order [OF st2 k2])
    define s3 where "s3 = s2\<lparr>kv := DeleteCid db (SubaccountId (lo_OrderInfo ord0)) (Cid (lo_OrderInfo ord0))\<rparr>"
    have same: "same_orders db (kv s3)" by (simp add: s3_def)
    have "book_ok s3"
      by (rule shifted_book [OF ok n s2_def])
        (use db r2 True stores_ok_same [OF same] resting_at_same [OF same] in \<open>auto simp: s3_def order_level_def\<close>)
    moreover have "DeleteSpotLimitOrder (kv s2) m (lo_IsBuy ord0) ?ord = Some db"
      unfolding db(1) [symmetric] by (simp add: DeleteSpotLimitOrder_def)
    then have "RemoveSpotLimitOrder s2 m (lo_IsBuy ord0) ?ord = Some s3"
      using True by (simp add: RemoveSpotLimitOrder_def s3_def Let_def DecrementOrderbookPriceLevelQuantity_def)
    ultimately show ?thesis
      using that True d dec sh(2) by (simp add: UpdateSpotLimitOrder_def s3_def)
  qed
qed

lemma lookup_order:
  assumes ok: "stores_ok db" and l: "GetSpotLimitOrderBySubaccountID db m None sub h = Some ord"
  shows "map_of (db_orders db) (order_key m ord) = Some ord" "SubaccountId (lo_OrderInfo ord) = sub" "lo_OrderHash ord = h"
proof -
  obtain b k where k: "map_of (db_index db) (m, b, sub, h) = Some k" "map_of (db_orders db) k = Some ord"
    using l by (auto simp: GetSpotLimitOrderBySubaccountID_def Let_def GetLimitOrderIndexKey_def split: option.splits)
  have "(m, b, sub, h) = order_index (fst k) ord" using stores_okD(3) [OF ok k(1)] k(2) by (auto simp: index_entry_ok_def)
  moreover have "k = order_key (fst k) ord" using stores_okD(2) [OF ok k(2)] by (simp add: order_entry_ok_def)
  ultimately show "map_of (db_orders db) (order_key m ord) = Some ord" "SubaccountId (lo_OrderInfo ord) = sub" "lo_OrderHash ord = h"
    using k(2) by (auto simp: order_index_def)
qed

lemma refund_frame:
  assumes "RefundSpotLimitOrderCancel S s sub ord m t = Inr s'"
  shows "kv s' = kv s" "tkv s' = tkv s"
    "funds_of s' = IncrementAvailableBalanceOrBank (se_env S) (funds_of s) sub (snd (GetUnfilledMarginHoldAndMarginDenom (se_dec S) ord m t))
        (hold_in_chain_format (se_dec S) (lo_IsBuy ord) m (fst (GetUnfilledMarginHoldAndMarginDenom (se_dec S) ord m t)))"
  using assms
  by (auto simp: RefundSpotLimitOrderCancel_def isolated_RefundSpotLimitOrderCancel_def case_prod_beta)

lemma transient_frame [simp]:
  "kv (DeleteTransientSpotLimitOrder s m ord) = kv s"
  "db_levels (tkv (DeleteTransientSpotLimitOrder s m ord)) = db_levels (tkv s)"
  "funds_of (DeleteTransientSpotLimitOrder s m ord) = funds_of s"
  "kv (SetTransientSpotLimitOrder s ord m b h) = kv s"
  "db_levels (tkv (SetTransientSpotLimitOrder s ord m b h)) = db_levels (tkv s)"
  "funds_of (SetTransientSpotLimitOrder s ord m b h) = funds_of s"
  by (simp_all add: DeleteTransientSpotLimitOrder_def SetTransientSpotLimitOrder_def SetSpotLimitOrder_def Let_def)

lemma activity_frame [simp]:
  "kv (CheckAndSetFeeDiscountAccountActivityIndicator s m a) = kv s"
  "tkv (CheckAndSetFeeDiscountAccountActivityIndicator s m a) = tkv s"
  "funds_of (CheckAndSetFeeDiscountAccountActivityIndicator s m a) = funds_of s"
  by (auto simp: CheckAndSetFeeDiscountAccountActivityIndicator_def Let_def split: option.splits)

lemma cancel_cases:
  assumes ok: "book_ok s"
  obtains
    (no_market) "CancelSpotLimitOrderByOrderHash S s sub h market m = Some (Inl ErrSpotMarketNotFound)" "\<not> StatusSupportsOrderCancellations market"
  | (no_order) "CancelSpotLimitOrderByOrderHash S s sub h market m = Some (Inl ErrOrderDoesntExist)"
      "GetSpotLimitOrderBySubaccountID (kv s) m None sub h = None" "GetSpotLimitOrderBySubaccountID (tkv s) m None sub h = None"
      "StatusSupportsOrderCancellations market"
  | (no_model) e where "CancelSpotLimitOrderByOrderHash S s sub h market m = Some (Inl e)" "Engine_model (se_risk S) sub = Inl e"
      "StatusSupportsOrderCancellations market"
      "GetSpotLimitOrderBySubaccountID (kv s) m None sub h \<noteq> None \<or> GetSpotLimitOrderBySubaccountID (tkv s) m None sub h \<noteq> None"
  | (resting) mk ord s1 s' where "market = Some mk" "GetSpotLimitOrderBySubaccountID (kv s) m None sub h = Some ord"
      "RefundSpotLimitOrderCancel S s sub ord mk False = Inr s1" "RemoveSpotLimitOrder s1 m (lo_IsBuy ord) ord = Some s'"
      "CancelSpotLimitOrderByOrderHash S s sub h market m = Some (Inr s')" "book_ok s'" "funds_of s' = funds_of s1" "StatusSupportsOrderCancellations market"
  | (queued) mk ord s1 where "market = Some mk" "GetSpotLimitOrderBySubaccountID (kv s) m None sub h = None"
      "GetSpotLimitOrderBySubaccountID (tkv s) m None sub h = Some ord"
      "RefundSpotLimitOrderCancel S s sub ord mk True = Inr s1"
      "CancelSpotLimitOrderByOrderHash S s sub h market m = Some (Inr (DeleteTransientSpotLimitOrder s1 m ord))"
      "book_ok (DeleteTransientSpotLimitOrder s1 m ord)" "StatusSupportsOrderCancellations market"
proof (cases "StatusSupportsOrderCancellations market")
  case False
  then show ?thesis using no_market by (cases market) (simp_all add: CancelSpotLimitOrderByOrderHash_def)
next
  case True
  then obtain mk where mk: "market = Some mk" by (cases market) (auto simp: StatusSupportsOrderCancellations_def)
  have refund: "RefundSpotLimitOrderCancel S s sub ord mk t = Inl e \<Longrightarrow> Engine_model (se_risk S) sub = Inl e" for ord t e
    by (auto simp: RefundSpotLimitOrderCancel_def)
  have frame: "book_ok s1" if "RefundSpotLimitOrderCancel S s sub ord mk t = Inr s1" for ord t s1
    by (rule book_ok_cong [OF ok]) (use refund_frame [OF that] in simp_all)
  show ?thesis
  proof (cases "GetSpotLimitOrderBySubaccountID (kv s) m None sub h")
    case (Some ord)
    show ?thesis
    proof (cases "RefundSpotLimitOrderCancel S s sub ord mk False")
      case (Inl e)
      then show ?thesis using no_model refund True mk Some by (simp add: CancelSpotLimitOrderByOrderHash_def CancelSpotLimitOrder_def)
    next
      case (Inr s1)
      have "map_of (db_orders (kv s1)) (order_key m ord) = Some ord"
        using lookup_order(1) [OF book_okD(1) [OF ok] Some] refund_frame(1) [OF Inr] by simp
      then obtain s' where s': "RemoveSpotLimitOrder s1 m (lo_IsBuy ord) ord = Some s'" "book_ok s'" "funds_of s' = funds_of s1"
        using remove_order_ok [OF frame [OF Inr]] by metis
      show ?thesis
        by (rule resting [OF mk Some Inr s'(1) _ s'(2,3) True])
          (use True mk Some Inr s'(1) in \<open>simp add: CancelSpotLimitOrderByOrderHash_def CancelSpotLimitOrder_def\<close>)
    qed
  next
    case none: None
    show ?thesis
    proof (cases "GetSpotLimitOrderBySubaccountID (tkv s) m None sub h")
      case None
      then show ?thesis using no_order none True mk by (simp add: CancelSpotLimitOrderByOrderHash_def)
    next
      case (Some ord)
      show ?thesis
      proof (cases "RefundSpotLimitOrderCancel S s sub ord mk True")
        case (Inl e)
        then show ?thesis using no_model refund True mk none Some
          by (simp add: CancelSpotLimitOrderByOrderHash_def CancelTransientSpotLimitOrder_def)
      next
        case (Inr s1)
        have "book_ok (DeleteTransientSpotLimitOrder s1 m ord)"
          by (rule book_ok_cong [OF frame [OF Inr]]) simp_all
        then show ?thesis using queued [OF mk none Some Inr] True mk none Some Inr
          by (simp add: CancelSpotLimitOrderByOrderHash_def CancelTransientSpotLimitOrder_def)
      qed
    qed
  qed
qed

definition unused_hash :: "order_db \<Rightarrow> order_hash \<Rightarrow> bool" where
  "unused_hash db h \<longleftrightarrow> (\<forall>k ord. map_of (db_orders db) k = Some ord \<longrightarrow> lo_OrderHash ord \<noteq> h)"

lemma unused_fresh:
  assumes "stores_ok db" "unused_hash db (lo_OrderHash ord)"
  shows "fresh_order db m ord"
proof -
  have "map_of (db_orders db) (order_key m ord) = None"
  proof (cases "map_of (db_orders db) (order_key m ord)")
    case (Some o')
    then have "lo_OrderHash o' = lo_OrderHash ord"
      using stores_okD(2) [OF assms(1) Some] by (simp add: order_entry_ok_def) (simp add: order_key_def)
    then show ?thesis using assms(2) Some unfolding unused_hash_def by blast
  qed
  moreover have "map_of (db_index db) (order_index m ord) = None"
  proof (cases "map_of (db_index db) (order_index m ord)")
    case (Some k)
    then obtain o' where "map_of (db_orders db) k = Some o'" "order_index m ord = order_index (fst k) o'"
      using stores_okD(3) [OF assms(1) Some] by (auto simp: index_entry_ok_def)
    moreover from this have "lo_OrderHash o' = lo_OrderHash ord" by (simp add: order_index_def)
    ultimately show ?thesis using assms(2) unfolding unused_hash_def by blast
  qed
  ultimately show ?thesis by (simp add: fresh_order_def)
qed

text \<open>The order as it is hashed and validated, and the state after the trade nonce is taken.\<close>

definition placed :: "SpotOrder \<Rightarrow> subaccount_id \<Rightarrow> SpotOrder" where
  "placed ord sub = ord\<lparr>so_OrderInfo := (so_OrderInfo ord)\<lparr>SubaccountId := sub\<rparr>\<rparr>"

definition after_nonce :: "'b spot_state \<Rightarrow> subaccount_id \<Rightarrow> 'b spot_state" where
  "after_nonce s sub = snd (IncrementSubaccountTradeNonce s sub)"

lemma after_nonce_frame [simp]:
  "kv (after_nonce s sub) = kv s" "tkv (after_nonce s sub) = tkv s" "funds_of (after_nonce s sub) = funds_of s"
  by (simp_all add: after_nonce_def IncrementSubaccountTradeNonce_def Let_def)

definition stored_order :: "'b spot_env \<Rightarrow> 'b spot_state \<Rightarrow> address \<Rightarrow> SpotOrder \<Rightarrow> order_hash \<Rightarrow> 'b spot_state" where
  "stored_order S s sender ord h =
     (let limitOrder = GetNewSpotLimitOrder ord (SenderString S sender) h
      in if IsPostOnly (so_OrderType ord)
         then SaveNewSpotLimitOrder s limitOrder (so_MarketId ord) (lo_IsBuy limitOrder) (lo_OrderHash limitOrder)
         else CheckAndSetFeeDiscountAccountActivityIndicator
                (SetTransientSpotLimitOrder s limitOrder (so_MarketId ord) (so_IsBuy ord) h) (so_MarketId ord) sender)"

lemma create_cases:
  assumes "CreateSpotLimitOrder S s sender ord market = (r, Some s')"
  obtains (refused) sub e where "r = Inl e" "s' = after_nonce s sub"
  | (accepted) sub m h s1 where "r = Inr h" "DeriveSubaccountID S sender (SubaccountId (so_OrderInfo ord)) = Some sub"
      "ComputeOrderHash S (placed ord sub) (fst (IncrementSubaccountTradeNonce s sub)) = Some h"
      "ValidateSpotOrder S (after_nonce s sub) (placed ord sub) market (so_MarketId ord) sub = Inr m"
      "ReserveSpotLimitOrder S (after_nonce s sub) sub (placed ord sub) m = Inr s1"
      "s' = stored_order S s1 sender (placed ord sub) h"
proof (cases "DeriveSubaccountID S sender (SubaccountId (so_OrderInfo ord))")
  case None
  then show ?thesis using assms by (simp add: CreateSpotLimitOrder_def)
next
  case (Some sub)
  let ?ord = "placed ord sub" and ?s = "after_nonce s sub"
  have mid: "so_MarketId ?ord = so_MarketId ord" by (simp add: placed_def)
  show ?thesis
  proof (cases "ComputeOrderHash S ?ord (fst (IncrementSubaccountTradeNonce s sub))")
    case None
    then have "r = Inl ErrOrderHash" "s' = ?s" using assms Some
      by (simp_all add: CreateSpotLimitOrder_def Let_def case_prod_beta placed_def [symmetric] after_nonce_def [symmetric])
    then show ?thesis by (rule refused)
  next
    case h: (Some h)
    define v where "v = ebind (ValidateSpotOrder S ?s ?ord market (so_MarketId ord) sub) (ReserveSpotLimitOrder S ?s sub ?ord)"
    show ?thesis
    proof (cases v)
      case (Inl e)
      then have "r = Inl e" "s' = ?s" using assms Some h
        by (simp_all add: CreateSpotLimitOrder_def Let_def case_prod_beta placed_def [symmetric] after_nonce_def [symmetric] v_def [symmetric])
      then show ?thesis by (rule refused)
    next
      case (Inr s1)
      then obtain m where m: "ValidateSpotOrder S ?s ?ord market (so_MarketId ord) sub = Inr m"
        "ReserveSpotLimitOrder S ?s sub ?ord m = Inr s1" by (auto simp: v_def)
      show ?thesis
        by (rule accepted [OF _ Some h m])
          (use assms Some h Inr mid in \<open>auto simp: CreateSpotLimitOrder_def Let_def case_prod_beta placed_def [symmetric]
            after_nonce_def [symmetric] stored_order_def v_def [symmetric]\<close>)
    qed
  qed
qed

lemma reserve_frame:
  assumes "ReserveSpotLimitOrder S s sub ord m = Inr s'"
  shows "kv s' = kv s" "tkv s' = tkv s"
    "ChargeAccount (se_env S) (funds_of s) sub (snd (GetBalanceHoldAndMarginDenom (se_dec S) ord m))
       (hold_in_chain_format (se_dec S) (so_IsBuy ord) m (fst (GetBalanceHoldAndMarginDenom (se_dec S) ord m))) = Inr (funds_of s')"
  using assms
  by (auto simp: ReserveSpotLimitOrder_def isolated_ReserveSpotLimitOrder_def wrap_funds_def case_prod_beta split: sum.splits)

lemma new_order_simps [simp]:
  "lo_OrderHash (GetNewSpotLimitOrder ord a h) = h" "lo_OrderType (GetNewSpotLimitOrder ord a h) = so_OrderType ord"
  "Fillable (GetNewSpotLimitOrder ord a h) = oi_Quantity (so_OrderInfo ord)"
  "SubaccountId (lo_OrderInfo (GetNewSpotLimitOrder ord a h)) = SubaccountId (so_OrderInfo ord)"
  "lo_Price (GetNewSpotLimitOrder ord a h) = Price (so_OrderInfo ord)"
  "Cid (lo_OrderInfo (GetNewSpotLimitOrder ord a h)) = Cid (so_OrderInfo ord)"
  by (simp_all add: GetNewSpotLimitOrder_def withFeeRecipient_def)

text \<open>Quantity ticks of the markets orders are created in.\<close>

definition ticks_ok :: "'b spot_env \<Rightarrow> SpotMarket option \<Rightarrow> bool" where
  "ticks_ok S market \<longleftrightarrow> (\<forall>m. market = Some m \<longrightarrow> 0 \<le> MinQuantityTickSize m)
     \<and> (\<forall>i m. GetSpotMarket S i True = Some m \<longrightarrow> 0 \<le> MinQuantityTickSize m)"

lemma validated_quantity:
  assumes "ValidateSpotOrder S s ord market mid sub = Inr m" "ticks_ok S market"
  shows "0 \<le> oi_Quantity (so_OrderInfo ord)"
proof -
  obtain m' where m': "(case market of Some m \<Rightarrow> Some m | None \<Rightarrow> GetSpotMarket S mid True) = Some m'"
    "MinQuantityTickSize m' \<le> oi_Quantity (so_OrderInfo ord)"
    using assms(1)
    by (auto simp: ValidateSpotOrder_def CheckTickSize_def BreachesMinimumTickSize_def split: option.splits if_splits)
  moreover have "0 \<le> MinQuantityTickSize m'" using m'(1) assms(2) by (cases market) (simp_all add: ticks_ok_def)
  ultimately show ?thesis by simp
qed

lemma stored_order_ok:
  assumes "book_ok s" "unused_hash (kv s) h" "0 \<le> oi_Quantity (so_OrderInfo ord)"
  shows "book_ok (stored_order S s sender ord h)"
proof (cases "IsPostOnly (so_OrderType ord)")
  case True
  let ?o = "GetNewSpotLimitOrder ord (SenderString S sender) h"
  have "fresh_order (kv s) (so_MarketId ord) ?o" using unused_fresh [OF book_okD(1) [OF assms(1)]] assms(2) by simp
  then show ?thesis using save_new_order_ok [OF assms(1), of "so_MarketId ord" ?o] assms(3) True by (simp add: stored_order_def)
next
  case False
  then show ?thesis by (intro book_ok_cong [OF assms(1)]) (simp_all add: stored_order_def Let_def)
qed

lemma create_order_ok:
  assumes ok: "book_ok s" and c: "CreateSpotLimitOrder S s sender ord market = (r, Some s')"
    and h: "\<forall>h. r = Inr h \<longrightarrow> unused_hash (kv s) h" and t: "ticks_ok S market"
  shows "book_ok s'"
  using c
proof (cases rule: create_cases)
  case (refused sub e)
  then show ?thesis by (intro book_ok_cong [OF ok]) simp_all
next
  case (accepted sub m h s1)
  have "book_ok s1" by (rule book_ok_cong [OF ok]) (use reserve_frame [OF accepted(5)] in simp_all)
  then show ?thesis unfolding accepted(6)
    by (rule stored_order_ok) (use assms(3) accepted(1) reserve_frame(1) [OF accepted(5)] validated_quantity [OF accepted(4) t] in simp_all)
qed

section \<open>Sequences of operations\<close>

text \<open>A new order has a hash of its own; a fill is of a stored order, up to its fillable quantity; the
  unfilled part of an auctioned order is stored when the batch is persisted. At the end of a block
  the transient store is emptied.\<close>

inductive order_step :: "'b spot_env \<Rightarrow> 'b spot_state \<Rightarrow> 'b spot_state \<Rightarrow> bool" for S where
  created: "CreateSpotLimitOrder S s sender ord market = (r, Some s') \<Longrightarrow> \<forall>h. r = Inr h \<longrightarrow> unused_hash (kv s) h \<Longrightarrow> ticks_ok S market
    \<Longrightarrow> order_step S s s'"
| cancelled: "CancelSpotLimitOrderByOrderHash S s sub h market m = Some (Inr s') \<Longrightarrow> order_step S s s'"
| filled: "map_of (db_orders (kv s)) (order_key m ord) = Some ord \<Longrightarrow> delta_Order delta = ord\<lparr>Fillable := Fillable ord - q\<rparr>
    \<Longrightarrow> FillQuantity delta = q \<Longrightarrow> 0 \<le> q \<Longrightarrow> q \<le> Fillable ord \<Longrightarrow> UpdateSpotLimitOrder s m delta = Some s' \<Longrightarrow> order_step S s s'"
| saved: "unused_hash (kv s) (lo_OrderHash ord) \<Longrightarrow> 0 \<le> Fillable ord
    \<Longrightarrow> order_step S s (SaveNewSpotLimitOrder s ord m (lo_IsBuy ord) (lo_OrderHash ord))"
| settled: "order_step S s (persistDeposits S execution s)"
| block_end: "order_step S s (s\<lparr>tkv := \<lparr>db_orders = [], db_index = [], db_cids = [], db_levels = []\<rparr>, market_orders := [],
    limit_indicators := [], market_indicators := [], transient_fee_qualified := [], active_accounts := []\<rparr>)"

lemma order_step_ok: "order_step S s s' \<Longrightarrow> book_ok s \<Longrightarrow> book_ok s'"
proof (induction rule: order_step.induct)
  case (created s sender ord market r s')
  then show ?case using create_order_ok by blast
next
  case (cancelled s sub h market m s')
  show ?case by (rule cancel_cases [OF cancelled(2), of S sub h market m]) (use cancelled(1) in auto)
next
  case (filled s m ord delta q s')
  show ?case by (rule fill_order_ok [OF filled(7,1-5)]) (use filled(6) in auto)
next
  case (saved s ord m)
  then show ?case using save_new_order_ok unused_fresh book_okD(1) by blast
next
  case (settled s execution)
  then show ?case by (rule book_ok_cong) (simp_all add: persistDeposits_def)
next
  case (block_end s)
  then show ?case by (simp add: book_ok_def levels_coherent_def)
qed

section \<open>Holds\<close>

lemma removed:
  assumes "RemoveSpotLimitOrder s m b ord = Some s'"
  shows "map_of (db_index (kv s')) (m, b, SubaccountId (lo_OrderInfo ord), lo_OrderHash ord) = None"
    "map_of (db_index (kv s)) (m, b, SubaccountId (lo_OrderInfo ord), lo_OrderHash ord) = Some k \<Longrightarrow> map_of (db_orders (kv s')) k = None"
proof -
  have same: "db_orders (kv (DecrementOrderbookPriceLevelQuantity t m b True p q)) = db_orders (kv t)"
    "db_index (kv (DecrementOrderbookPriceLevelQuantity t m b True p q)) = db_index (kv t)" for t :: "'a spot_state" and p q
    by (simp_all add: DecrementOrderbookPriceLevelQuantity_def SetOrderbookPriceLevelQuantity_def Let_def)
  have cid: "db_orders (DeleteCid db sub c) = db_orders db" "db_index (DeleteCid db sub c) = db_index db" for db sub c
    by (simp_all add: DeleteCid_def)
  obtain db where db: "DeleteSpotLimitOrder (kv s) m b ord = Some db" "db_orders (kv s') = db_orders db" "db_index (kv s') = db_index db"
    using assms by (auto simp: RemoveSpotLimitOrder_def Let_def same cid)
  show "map_of (db_index (kv s')) (m, b, SubaccountId (lo_OrderInfo ord), lo_OrderHash ord) = None"
    using db by (auto simp: DeleteSpotLimitOrder_def Let_def GetLimitOrderIndexKey_def delete_conv')
  show "map_of (db_index (kv s)) (m, b, SubaccountId (lo_OrderInfo ord), lo_OrderHash ord) = Some k \<Longrightarrow> map_of (db_orders (kv s')) k = None"
    using db by (auto simp: DeleteSpotLimitOrder_def Let_def GetLimitOrderIndexKey_def delete_conv')
qed

lemma new_order_hold:
  assumes "legacy_dec D"
  shows "GetUnfilledMarginHoldAndMarginDenom D (GetNewSpotLimitOrder ord a h) m (\<not> IsPostOnly (so_OrderType ord))
    = GetBalanceHoldAndMarginDenom D ord m"
  using legacy_dec.mul_zero(1) [OF assms]
  by (auto simp: GetUnfilledMarginHoldAndMarginDenom_def GetBalanceHoldAndMarginDenom_def GetUnfilledNotional_def GetUnfilledFeeAmount_def
      OrderInfo_GetNotional_def OrderInfo_GetFeeAmount_def Let_def max_def)

lemma SaveNew_lookup:
  "map_of (db_index (kv (SaveNewSpotLimitOrder s ord m b h)))
     = (map_of (db_index (kv s)))((m, lo_IsBuy ord, SubaccountId (lo_OrderInfo ord), h) \<mapsto> (m, lo_IsBuy ord, lo_Price ord, h))"
  "map_of (db_orders (kv (SaveNewSpotLimitOrder s ord m b h)))
     = (map_of (db_orders (kv s)))((m, lo_IsBuy ord, lo_Price ord, h) \<mapsto> ord)"
  "funds_of (SaveNewSpotLimitOrder s ord m b h) = funds_of s"
  by (auto simp: SaveNewSpotLimitOrder_def Let_def SetCid_def AppendOrderExpirations_def IncrementOrderbookPriceLevelQuantity_def
      SetOrderbookPriceLevelQuantity_def SetSpotLimitOrder_def GetLimitOrderByPriceKeyPrefix_def GetLimitOrderIndexKey_def update_conv')

definition unindexed :: "order_db \<Rightarrow> market_id \<Rightarrow> subaccount_id \<Rightarrow> order_hash \<Rightarrow> bool" where
  "unindexed db m sub h \<longleftrightarrow> (\<forall>b. map_of (db_index db) (m, b, sub, h) = None)"

lemma unused_unindexed:
  assumes "stores_ok db" "unused_hash db h"
  shows "unindexed db m sub h"
proof -
  have "map_of (db_index db) (m, b, sub, h) = None" for b
  proof (cases "map_of (db_index db) (m, b, sub, h)")
    case (Some k)
    then obtain o' where "map_of (db_orders db) k = Some o'" "(m, b, sub, h) = order_index (fst k) o'"
      using stores_okD(3) [OF assms(1) Some] by (auto simp: index_entry_ok_def)
    moreover from this have "lo_OrderHash o' = h" by (simp add: order_index_def)
    ultimately show ?thesis using assms(2) unfolding unused_hash_def by blast
  qed
  then show ?thesis by (simp add: unindexed_def)
qed

lemma stored_order_lookup:
  assumes "unindexed (kv s) (so_MarketId ord) sub h" "unindexed (tkv s) (so_MarketId ord) sub h" "SubaccountId (so_OrderInfo ord) = sub"
  shows "if IsPostOnly (so_OrderType ord)
    then GetSpotLimitOrderBySubaccountID (kv (stored_order S s sender ord h)) (so_MarketId ord) None sub h = Some (GetNewSpotLimitOrder ord (SenderString S sender) h)
    else GetSpotLimitOrderBySubaccountID (kv (stored_order S s sender ord h)) (so_MarketId ord) None sub h = None
      \<and> GetSpotLimitOrderBySubaccountID (tkv (stored_order S s sender ord h)) (so_MarketId ord) None sub h = Some (GetNewSpotLimitOrder ord (SenderString S sender) h)"
proof (cases "IsPostOnly (so_OrderType ord)")
  case True
  then show ?thesis using assms
    by (cases "so_IsBuy ord")
      (simp_all add: stored_order_def Let_def GetSpotLimitOrderBySubaccountID_def GetLimitOrderIndexKey_def SaveNew_lookup unindexed_def)
next
  case False
  have t: "db_index (SetCid db x c m' b h) = db_index db" "db_orders (SetCid db x c m' b h) = db_orders db" for db x c m' b
    by (simp_all add: SetCid_def)
  show ?thesis using assms False
    by (cases "so_IsBuy ord")
      (simp_all add: stored_order_def Let_def GetSpotLimitOrderBySubaccountID_def GetLimitOrderIndexKey_def unindexed_def
        SetTransientSpotLimitOrder_def SetSpotLimitOrder_def GetLimitOrderByPriceKeyPrefix_def update_conv' t)
qed

lemma stored_order_funds: "funds_of (stored_order S s sender ord h) = funds_of s"
  by (simp add: stored_order_def Let_def SaveNew_lookup(3))

text \<open>Creating an order and cancelling it at once.\<close>

lemma create_then_cancel:
  assumes ok: "book_ok s" and E: "legacy_dec (se_dec S)"
    and c: "CreateSpotLimitOrder S s sender ord (Some m) = (Inr h, Some s')" and t: "ticks_ok S (Some m)"
    and h: "unused_hash (kv s) h" "\<forall>sub. unindexed (tkv s) (so_MarketId ord) sub h"
    and st: "SupportsOrderCancellations (Status m)"
  obtains sub d amount s'' where "DeriveSubaccountID S sender (SubaccountId (so_OrderInfo ord)) = Some sub"
    "CancelSpotLimitOrderByOrderHash S s' sub h (Some m) (so_MarketId ord) = Some (Inr s'')"
    "ChargeAccount (se_env S) (funds_of s) sub d amount = Inr (funds_of s')"
    "funds_of s'' = IncrementAvailableBalanceOrBank (se_env S) (funds_of s') sub d amount"
    "d = (if so_IsBuy ord then QuoteDenom m else BaseDenom m)"
  using c
proof (cases rule: create_cases)
  case (accepted sub m' h' s1)
  let ?ord = "placed ord sub"
  let ?o = "GetNewSpotLimitOrder ?ord (SenderString S sender) h"
  have h': "h' = h" using accepted(1) by simp
  have m': "m' = m" using accepted(4) by (auto simp: ValidateSpotOrder_def split: if_splits)
  have fr: "kv s1 = kv s" "tkv s1 = tkv s" using reserve_frame [OF accepted(5)] by simp_all
  have pl: "so_MarketId ?ord = so_MarketId ord" "SubaccountId (so_OrderInfo ?ord) = sub" "so_OrderType ?ord = so_OrderType ord"
    by (simp_all add: placed_def)
  note look = stored_order_lookup [of s1 ?ord sub h S sender, unfolded pl fr]
  have unk: "unindexed (kv s) (so_MarketId ord) sub h" by (rule unused_unindexed [OF book_okD(1) [OF ok] h(1)])
  have ok': "book_ok s'" by (rule create_order_ok [OF ok c _ t]) (use h(1) in simp)
  have f': "funds_of s' = funds_of s1" by (simp add: accepted(6) stored_order_funds)
  have hold: "GetUnfilledMarginHoldAndMarginDenom (se_dec S) ?o m (\<not> IsPostOnly (so_OrderType ord)) = GetBalanceHoldAndMarginDenom (se_dec S) ?ord m"
    using new_order_hold [OF E, of ?ord] pl(3) by simp
  have eng: "Engine_model (se_risk S) sub \<noteq> Inl e" for e using accepted(5) by (auto simp: ReserveSpotLimitOrder_def)
  have r: "\<exists>s2. RefundSpotLimitOrderCancel S s' sub ?o m t = Inr s2" for t
    using eng by (cases "Engine_model (se_risk S) sub") (auto simp: RefundSpotLimitOrderCancel_def)
  obtain s'' where s'': "CancelSpotLimitOrderByOrderHash S s' sub h (Some m) (so_MarketId ord) = Some (Inr s'')"
    "funds_of s'' = IncrementAvailableBalanceOrBank (se_env S) (funds_of s') sub (snd (GetBalanceHoldAndMarginDenom (se_dec S) ?ord m))
        (hold_in_chain_format (se_dec S) (so_IsBuy ord) m (fst (GetBalanceHoldAndMarginDenom (se_dec S) ?ord m)))"
  proof (rule cancel_cases [OF ok', of S sub h "Some m" "so_MarketId ord"], goal_cases)
    case 4
    then show ?case using look unk h(2) accepted(6) h' hold refund_frame(3) [OF 4(4)] pl(3) that by (auto split: if_splits)
  next
    case 5
    then show ?case using look unk h(2) accepted(6) h' hold refund_frame(3) [OF 5(5)] pl(3) that by (auto split: if_splits)
  qed (use look unk h(2) accepted(6) h' st eng in \<open>auto simp: StatusSupportsOrderCancellations_def split: if_splits\<close>)
  show ?thesis
    by (rule that [OF accepted(2) s''(1) _ s''(2)])
      (use reserve_frame(3) [OF accepted(5)] m' f' pl(3) in \<open>simp_all add: GetBalanceHoldAndMarginDenom_def\<close>)
qed auto

section \<open>Persisting deposit deltas\<close>

context funds
begin

lemma apply_deltas_gap:
  assumes "store_ok f" "\<forall>sub \<in> set ids. user_subaccount E sub \<and> map_of deltas sub \<noteq> None"
  shows "gap E (applyDepositDeltas E d deltas ids f) d'
      = gap E f d' - (if d' = d then \<Sum>sub\<leftarrow>ids. TotalBalanceDelta (the (map_of deltas sub)) else 0)
    \<and> store_ok (applyDepositDeltas E d deltas ids f)"
  using assms
proof (induction ids arbitrary: f)
  case (Cons sub ids)
  obtain delta where d: "map_of deltas sub = Some delta" using Cons.prems(2) by auto
  have "user_subaccount E sub" using Cons.prems(2) by simp
  then show ?case
    using Cons.IH [OF UpdateDepositWithDelta_store_ok [OF Cons.prems(1)]] Cons.prems(2)
      UpdateDepositWithDelta_gap [OF Cons.prems(1), of sub d delta d'] d
    by (auto simp: applyDepositDeltas_def)
qed (simp add: applyDepositDeltas_def)

end

lemma sorted_keys_total:
  assumes "distinct (map fst deltas)"
  shows "(\<Sum>sub\<leftarrow>GetSortedSubaccountKeys deltas. TotalBalanceDelta (the (map_of deltas sub))) = delta_total deltas"
proof -
  have "(\<Sum>sub\<leftarrow>GetSortedSubaccountKeys deltas. TotalBalanceDelta (the (map_of deltas sub)))
      = (\<Sum>sub\<leftarrow>map fst deltas. TotalBalanceDelta (the (map_of deltas sub)))"
    using assms by (simp add: GetSortedSubaccountKeys_def sum_list_distinct_conv_sum_set del: map_map)
  also have "\<dots> = delta_total deltas"
    unfolding delta_total_def store_sum_def map_map comp_def
    by (intro arg_cong [of _ _ sum_list] map_cong) (auto simp: map_of_is_SomeI [OF assms])
  finally show ?thesis .
qed

lemma SpotExecute_market:
  assumes "SpotExecute e F m pm mid rb tb rs ts c = Some (data, c')"
  shows "Market data = m" "BaseDenomDepositSubaccountIDs data = GetSortedSubaccountKeys (BaseDenomDepositDeltas data)"
    "QuoteDenomDepositSubaccountIDs data = GetSortedSubaccountKeys (QuoteDenomDepositDeltas data)"
  using assms
  by (auto simp: SpotExecute_def processMatchResult_def Let_def split: prod.splits Option.bind_splits)

lemma persisted_gap:
  assumes E: "funds (se_env S)" and m: "Market data = m"
    and ids: "BaseDenomDepositSubaccountIDs data = GetSortedSubaccountKeys (BaseDenomDepositDeltas data)"
      "QuoteDenomDepositSubaccountIDs data = GetSortedSubaccountKeys (QuoteDenomDepositDeltas data)"
    and ok: "store_ok (funds_of s)" "deltas_ok (BaseDenomDepositDeltas data, QuoteDenomDepositDeltas data)"
    and users: "\<forall>sub \<in> fst ` set (BaseDenomDepositDeltas data) \<union> fst ` set (QuoteDenomDepositDeltas data). user_subaccount (se_env S) sub"
  shows "gap (se_env S) (funds_of (persistDeposits S data s)) d = gap (se_env S) (funds_of s) d
    - (if d = BaseDenom m then delta_total (BaseDenomDepositDeltas data) else 0)
    - (if d = QuoteDenom m then delta_total (QuoteDenomDepositDeltas data) else 0)"
proof -
  have dist: "distinct (map fst (BaseDenomDepositDeltas data))" "distinct (map fst (QuoteDenomDepositDeltas data))"
    using ok(2) by (simp_all add: deltas_ok_def)
  have keys: "\<forall>sub \<in> set (GetSortedSubaccountKeys ds). user_subaccount (se_env S) sub \<and> map_of ds sub \<noteq> None"
    if "\<forall>sub \<in> fst ` set ds. user_subaccount (se_env S) sub" for ds
    using that by (auto simp: GetSortedSubaccountKeys_def map_of_eq_None_iff)
  let ?f = "applyDepositDeltas (se_env S) (BaseDenom m) (BaseDenomDepositDeltas data) (GetSortedSubaccountKeys (BaseDenomDepositDeltas data)) (funds_of s)"
  have b: "gap (se_env S) ?f d = gap (se_env S) (funds_of s) d - (if d = BaseDenom m then delta_total (BaseDenomDepositDeltas data) else 0)" "store_ok ?f"
    using funds.apply_deltas_gap [OF E ok(1) keys, of "BaseDenomDepositDeltas data"] users sorted_keys_total [OF dist(1)] by auto
  show ?thesis
    using funds.apply_deltas_gap [OF E b(2) keys, of "QuoteDenomDepositDeltas data"] users sorted_keys_total [OF dist(2)] b(1) m ids
    by (auto simp: persistDeposits_def)
qed

section \<open>Properties\<close>

text \<open>C6: Whatever sequence of limit orders is created, cancelled, filled and settled, over any number of
  blocks, the price level the keeper reports is the sum of the fillable quantities of the orders
  resting at that price, and the order stores stay consistent with their index.\<close>

theorem order_steps_keep_price_levels:
  assumes "(order_step S)\<^sup>*\<^sup>* s s'" "book_ok s"
  shows "book_ok s' \<and> GetOrderbookPriceLevelQuantity s' m b True p
    = (\<Sum>((m', b', p', h), ord)\<leftarrow>db_orders (kv s'). if m' = m \<and> b' = b \<and> p' = p then Fillable ord else 0)"
proof -
  have ok: "book_ok s'" using assms by (induction rule: rtranclp_induct) (auto dest: order_step_ok)
  have "resting_at (kv s') (True, m, b, p)
      = (\<Sum>((m', b', p', h), ord)\<leftarrow>db_orders (kv s'). if m' = m \<and> b' = b \<and> p' = p then Fillable ord else 0)"
    unfolding resting_at_def store_sum_def
    by (intro arg_cong [of _ _ sum_list] map_cong) (auto simp: at_level_def)
  then show ?thesis using ok coherent_level [OF book_okD(2) [OF ok]] book_okD(3) [OF ok] by simp
qed

text \<open>When the risk engine has no margin model for a subaccount: it is not wired, or the mode of the profile is not implemented.\<close>

definition unwired :: "RiskEngine option \<Rightarrow> bool" where
  "unwired e \<longleftrightarrow> (case e of None \<Rightarrow> True | Some eng \<Rightarrow> profiles eng = None)"

definition unsupported_mode :: "RiskEngine option \<Rightarrow> subaccount_id \<Rightarrow> bool" where
  "unsupported_mode e sub \<longleftrightarrow> (case fst (EffectiveProfile e sub) of None \<Rightarrow> False | Some p \<Rightarrow> Mode p \<noteq> RISK_MODE_ISOLATED \<and> Mode p \<noteq> RISK_MODE_CROSS)"

lemma Engine_model_errors:
  "Engine_model e sub = Inl x \<longleftrightarrow> unwired e \<and> x = ErrInvalidState \<or> \<not> unwired e \<and> unsupported_mode e sub \<and> x = ErrRiskFeatureDisabled"
  by (auto simp: Engine_model_def unwired_def unsupported_mode_def split: option.split RiskMode.split)

lemma refund_model: "RefundSpotLimitOrderCancel S s sub ord mk t = Inr s1 \<Longrightarrow> \<not> unwired (se_risk S) \<and> \<not> unsupported_mode (se_risk S) sub"
  using Engine_model_errors [of "se_risk S" sub] by (cases "Engine_model (se_risk S) sub") (auto simp: RefundSpotLimitOrderCancel_def)

text \<open>\<open>order_cancelled\<close>: the order with this hash, resting or still waiting for the auction, is gone from its store, and its
  subaccount is refunded the hold of the unfilled part.\<close>

definition order_cancelled :: "'b spot_env \<Rightarrow> SpotMarket \<Rightarrow> market_id \<Rightarrow> subaccount_id \<Rightarrow> order_hash \<Rightarrow> 'b spot_state \<Rightarrow> 'b spot_state \<Rightarrow> bool" where
  "order_cancelled S mk m sub h s s' \<longleftrightarrow> (\<exists>ord t.
      t = (GetSpotLimitOrderBySubaccountID (kv s) m None sub h = None)
      \<and> GetSpotLimitOrderBySubaccountID (if t then tkv s else kv s) m None sub h = Some ord
      \<and> map_of (db_orders (if t then tkv s' else kv s')) (order_key m ord) = None
      \<and> funds_of s' = IncrementAvailableBalanceOrBank (se_env S) (funds_of s) sub
          (snd (GetUnfilledMarginHoldAndMarginDenom (se_dec S) ord mk t))
          (hold_in_chain_format (se_dec S) (lo_IsBuy ord) mk (fst (GetUnfilledMarginHoldAndMarginDenom (se_dec S) ord mk t))))"

text \<open>C20: In a consistent state, cancelling an order by its hash never panics. It fails exactly when the market does not
  exist or its status does not support it, when the subaccount has no such order, when the risk engine is not wired, or when
  the mode of the risk profile is not implemented, each with its own error and in that order; otherwise the market exists, the order is gone
  from its store, the stores stay consistent, and the subaccount is refunded the hold of the unfilled part at the maker or,
  before the auction, the taker rate.\<close>

theorem cancel_order_outcomes:
  assumes "book_ok s"
  shows "if \<not> StatusSupportsOrderCancellations market
         then CancelSpotLimitOrderByOrderHash S s sub h market m = Some (Inl ErrSpotMarketNotFound)
    else if GetSpotLimitOrderBySubaccountID (kv s) m None sub h = None \<and> GetSpotLimitOrderBySubaccountID (tkv s) m None sub h = None
         then CancelSpotLimitOrderByOrderHash S s sub h market m = Some (Inl ErrOrderDoesntExist)
    else if unwired (se_risk S) then CancelSpotLimitOrderByOrderHash S s sub h market m = Some (Inl ErrInvalidState)
    else if unsupported_mode (se_risk S) sub then CancelSpotLimitOrderByOrderHash S s sub h market m = Some (Inl ErrRiskFeatureDisabled)
    else \<exists>mk s'. market = Some mk \<and> CancelSpotLimitOrderByOrderHash S s sub h market m = Some (Inr s')
      \<and> book_ok s' \<and> order_cancelled S mk m sub h s s'"
proof (rule cancel_cases [OF assms, of S sub h market m], goal_cases)
  case (3 e)
  then show ?case using Engine_model_errors [of "se_risk S" sub e] by auto
next
  case (4 mk ord s1 s')
  note k = lookup_order [OF book_okD(1) [OF assms] 4(2)]
  have "map_of (db_index (kv s1)) (m, lo_IsBuy ord, SubaccountId (lo_OrderInfo ord), lo_OrderHash ord) = Some (order_key m ord)"
    using stores_okD(2) [OF book_okD(1) [OF assms] k(1)] refund_frame(1) [OF 4(3)] by (simp add: order_entry_ok_def order_index_def)
  then have "map_of (db_orders (kv s')) (order_key m ord) = None" by (rule removed(2) [OF 4(4)])
  then have "order_cancelled S mk m sub h s s'" using 4 refund_frame(3) [OF 4(3)]
    unfolding order_cancelled_def by (intro exI [of _ ord] exI [of _ False]) simp
  then show ?case using 4 refund_model [OF 4(3)] by simp
next
  case (5 mk ord s1)
  have "map_of (db_orders (tkv (DeleteTransientSpotLimitOrder s1 m ord))) (order_key m ord) = None"
    by (simp add: DeleteTransientSpotLimitOrder_def Let_def DeleteCid_def GetLimitOrderByPriceKeyPrefix_def order_key_def delete_conv')
  then have "order_cancelled S mk m sub h s (DeleteTransientSpotLimitOrder s1 m ord)"
    using 5 refund_frame(3) [OF 5(4)] unfolding order_cancelled_def by (intro exI [of _ ord] exI [of _ True]) simp
  then show ?case using 5 refund_model [OF 5(4)] by simp
qed simp_all

text \<open>C19: Creating a limit order and cancelling it gives back exactly what was reserved: for a buy or a
  sell, for a post-only order resting in the book as for one that waits for the auction, the
  cancellation finds the order and the subaccount can spend in the margin denom what it could spend
  before.\<close>

theorem create_cancel_restores_funds:
  assumes "funds (se_env S)" "book_ok s" "ticks_ok S (Some m)" "SupportsOrderCancellations (Status m)"
    and "CreateSpotLimitOrder S s sender ord (Some m) = (Inr h, Some s')"
    and "unused_hash (kv s) h" "\<forall>sub. unindexed (tkv s) (so_MarketId ord) sub h"
    and "\<forall>sub. DeriveSubaccountID S sender (SubaccountId (so_OrderInfo ord)) = Some sub \<longrightarrow> user_subaccount (se_env S) sub"
  shows "\<exists>sub s''. DeriveSubaccountID S sender (SubaccountId (so_OrderInfo ord)) = Some sub
    \<and> CancelSpotLimitOrderByOrderHash S s' sub h (Some m) (so_MarketId ord) = Some (Inr s'')
    \<and> GetSpendableFunds (se_env S) (funds_of s'') sub (if so_IsBuy ord then QuoteDenom m else BaseDenom m)
      = GetSpendableFunds (se_env S) (funds_of s) sub (if so_IsBuy ord then QuoteDenom m else BaseDenom m)"
proof -
  have D: "legacy_dec (se_dec S)" using assms(1) by (rule funds.axioms(1))
  obtain sub d amount s'' where r: "DeriveSubaccountID S sender (SubaccountId (so_OrderInfo ord)) = Some sub"
    "CancelSpotLimitOrderByOrderHash S s' sub h (Some m) (so_MarketId ord) = Some (Inr s'')"
    "ChargeAccount (se_env S) (funds_of s) sub d amount = Inr (funds_of s')"
    "funds_of s'' = IncrementAvailableBalanceOrBank (se_env S) (funds_of s') sub d amount"
    "d = (if so_IsBuy ord then QuoteDenom m else BaseDenom m)"
    by (rule create_then_cancel [OF assms(2) D assms(5,3,6,7,4)])
  have u: "user_subaccount (se_env S) sub" using assms(8) r(1) by blast
  show ?thesis
    using r funds.ChargeAccount_spendable [OF assms(1) r(3) u] funds.IncrementAvailable_spendable [OF assms(1) u] by auto
qed

text \<open>C16: Persisting a settled auction moves no funds in or out of the exchange, however the default subaccounts' balances
  are swept to and charged from the bank: what the module holds in the bank minus the sum of all deposits stays the same
  in every denom but the quote denom of the market, and there it changes by exactly what the buyers' and the sellers'
  notionals differ by through rounding; when the filled notionals are exact it stays the same in every denom.\<close>

theorem persisted_auction_keeps_solvency:
  assumes "funds (se_env S)" "store_ok (funds_of s)" "settlement_input F m c rb tb rs ts"
    and "SpotExecute_match e (fe_dec F) mid (buildOrderbooks e rb tb rs ts) = Some (b, l, r)"
    and "SpotExecute e F m pm mid rb tb rs ts c = Some (data, c')"
    and "\<forall>sub \<in> fst ` set (BaseDenomDepositDeltas data) \<union> fst ` set (QuoteDenomDepositDeltas data). user_subaccount (se_env S) sub"
  shows "gap (se_env S) (funds_of (persistDeposits S data s)) d = gap (se_env S) (funds_of s) d
      - (if d = QuoteDenom m then (notional_of F (ClearingPrice r) (book_fills l) - notional_of F (ClearingPrice r) (book_fills b))
           * 10 ^ unat (QuoteDecimals m) else 0)
    \<and> ((\<forall>x \<in> set (book_fills b) \<union> set (book_fills l). dec_one dvd snd x * ClearingPrice r)
       \<longrightarrow> gap (se_env S) (funds_of (persistDeposits S data s)) d = gap (se_env S) (funds_of s) d)"
proof -
  have D: "legacy_dec (fe_dec F)" using assms(3) by (simp add: settlement_input_def fee_setting_def)
  obtain b' l' r' data' c'' where f: "SpotExecute_match e (fe_dec F) mid (buildOrderbooks e rb tb rs ts) = Some (b', l', r')"
    "SpotExecute e F m pm mid rb tb rs ts c = Some (data', c'')" "config_ok c''"
    "deltas_ok (BaseDenomDepositDeltas data', QuoteDenomDepositDeltas data')"
    "sum_list (map snd (book_fills b')) = sum_list (map snd (book_fills l'))"
    "delta_total (BaseDenomDepositDeltas data') = 0"
    "delta_total (QuoteDenomDepositDeltas data') =
        (notional_of F (ClearingPrice r') (book_fills l') - notional_of F (ClearingPrice r') (book_fills b')) * 10 ^ unat (QuoteDecimals m)"
    by (rule spot_execute_moves [OF assms(3)])
  have same: "b' = b" "l' = l" "r' = r" "data' = data" using f(1,2) assms(4,5) by simp_all
  have exact: "notional_of F (ClearingPrice r) (book_fills l) = notional_of F (ClearingPrice r) (book_fills b)"
    if "\<forall>x \<in> set (book_fills b) \<union> set (book_fills l). dec_one dvd snd x * ClearingPrice r"
  proof -
    have "notional_of F (ClearingPrice r) (book_fills l) * dec_one = notional_of F (ClearingPrice r) (book_fills b) * dec_one"
      using exact_notional [OF D, of "book_fills l" "ClearingPrice r"] exact_notional [OF D, of "book_fills b" "ClearingPrice r"] that f(5)
      by (simp add: same)
    then show ?thesis by simp
  qed
  show ?thesis
    using persisted_gap [OF assms(1) SpotExecute_market [OF assms(5)] assms(2) f(4) [unfolded same] assms(6), of d] f(6,7) exact
    by (simp add: same)
qed

end
