(* ===== verification/Order_Holds.thy ===== *)
theory Order_Holds
  imports Spot_Order_Laws
begin

text \<open>
  The quote funds held for a buy order when it is filled: what the settlement takes from the
  trader's total balance and what it releases to the available balance add up to the part of the
  hold that the fill no longer needs.
\<close>

section \<open>Holds and settlement in whole units\<close>

text \<open>Products with a whole factor are exact; \<open>whole_eval\<close> brings sums and products of whole numbers to
  that form.\<close>

lemma whole_mul:
  assumes "legacy_dec D"
  shows "dec_mul D (n * dec_one) x = n * x" "dec_mul D x (n * dec_one) = n * x"
  using legacy_dec.mul_whole [OF assms] by (simp_all add: LegacyNewDec_def)

lemmas whole_eval = LegacyNewDec_def mult.assoc [symmetric] left_diff_distrib [symmetric]

lemma unfilled_hold:
  assumes "legacy_dec D" "lo_IsBuy ord" "Fillable ord = LegacyNewDec n" "lo_Price ord = LegacyNewDec l"
  shows "fst (GetUnfilledMarginHoldAndMarginDenom D ord m t)
    = n * l * dec_one + n * l * (if t then TakerFeeRate m else max 0 (MakerFeeRate m))"
  using assms(2-4)
  by (simp only: GetUnfilledMarginHoldAndMarginDenom_def GetUnfilledNotional_def GetUnfilledFeeAmount_def whole_mul [OF assms(1)]
      whole_eval Let_def if_True fst_conv, simp only: mult.commute)

text \<open>C29: In whole units, where the products of the settlement are exact (the quantity and the limit price of the order, the
  fill and the clearing price are whole numbers; the fee rates are arbitrary): an order that enters the auction with the
  taker hold and rests afterwards with the maker hold loses exactly the difference. Whatever part is filled, at
  whatever price and with whatever fee discount, what the settlement charges plus what it refunds is the hold before less the
  hold after. Nothing is said of fractional quantities and prices, where every product is rounded.\<close>

theorem auctioned_buy_releases_hold:
  assumes "fee_setting F (RelayerFeeShareRate m)" "config_ok c" "0 \<le> TakerFeeRate m" "lo_IsBuy ord"
    and "Fillable ord = LegacyNewDec n" "oi_Quantity (lo_OrderInfo ord) = LegacyNewDec n" "lo_Price ord = LegacyNewDec l"
    and "0 \<le> k" "0 \<le> p"
  shows "\<exists>x ord' c'. getTransientSpotLimitBuyStateExpansion F (MarketId m) ord (LegacyNewDec p) (LegacyNewDec k) (MakerFeeRate m)
        (TakerFeeRate m) (RelayerFeeShareRate m) pm c = Some (x, c') \<and> LimitOrder x = Some ord' \<and> Fillable ord' = LegacyNewDec (n - k)
    \<and> QuoteRefundAmount x - QuoteChangeAmount x
      = fst (GetUnfilledMarginHoldAndMarginDenom (fe_dec F) ord m True) - fst (GetUnfilledMarginHoldAndMarginDenom (fe_dec F) ord' m False)"
proof -
  have D: "legacy_dec (fe_dec F)" using assms(1) by (simp add: fee_setting_def)
  let ?ord = "ord\<lparr>Fillable := LegacyNewDec (n - k)\<rparr>"
  obtain td c' where td: "GetTradeDataAndIncrementVolumeContribution F (SubaccountId (lo_OrderInfo ord)) (MarketId m) (LegacyNewDec k)
      (Some (LegacyNewDec p)) (TakerFeeRate m) (RelayerFeeShareRate m) (TakerPointsMultiplier pm) c False = Some (td, c')"
    and T: "TotalTradeFee td = (if LegacyNewDec k = 0 then 0
        else dec_mul (fe_dec F) (dec_mul (fe_dec F) (LegacyNewDec k) (the (Some (LegacyNewDec p)))) (DiscountedTradeFeeRate td))"
    by (rule fee_setting_trade_data [OF assms(1,2), where sub = "SubaccountId (lo_OrderInfo ord)" and m = "MarketId m"
        and q = "LegacyNewDec k" and price = "Some (LegacyNewDec p)" and rate = "TakerFeeRate m"
        and mult = "TakerPointsMultiplier pm" and isMaker = False]) auto
  have before: "fst (GetUnfilledMarginHoldAndMarginDenom (fe_dec F) ord m True) = n * l * dec_one + n * l * TakerFeeRate m"
    using unfilled_hold [OF D assms(4,5,7), of m True] by simp
  have after: "fst (GetUnfilledMarginHoldAndMarginDenom (fe_dec F) ?ord m False)
      = (n - k) * l * dec_one + (n - k) * l * max 0 (MakerFeeRate m)"
    using unfilled_hold [OF D, of ?ord "n - k" l m False] assms(4,7) by simp
  have f: "TotalTradeFee td = k * p * DiscountedTradeFeeRate td"
  proof (cases "k = 0")
    case False
    then have "LegacyNewDec k \<noteq> 0" by (simp add: LegacyNewDec_def)
    then show ?thesis using T by (simp only: if_False option.sel whole_mul [OF D] whole_eval, simp only: mult.commute)
  qed (use T in \<open>simp add: LegacyNewDec_def\<close>)
  define qc where "qc = - (k * p * dec_one) - k * p * DiscountedTradeFeeRate td"
  define qr where "qr = k * (l - p) * dec_one + k * (l - p) * DiscountedTradeFeeRate td
    + (n - k) * l * (TakerFeeRate m - max 0 (MakerFeeRate m)) + k * l * (TakerFeeRate m - DiscountedTradeFeeRate td)"
  have x: "getTransientSpotLimitBuyStateExpansion F (MarketId m) ord (LegacyNewDec p) (LegacyNewDec k) (MakerFeeRate m)
      (TakerFeeRate m) (RelayerFeeShareRate m) pm c
    = Some (limitExpansion F ord (LegacyNewDec k) (Some (LegacyNewDec p)) td (LegacyNewDec k) qc qr 0, c')"
    unfolding getTransientSpotLimitBuyStateExpansion_def td bind.bind_lunit prod.case Let_def assms(6,7)
    unfolding f whole_eval whole_mul [OF D] qc_def qr_def
    by (cases "k = 0") (simp_all add: f algebra_simps)
  have o': "ord\<lparr>Fillable := Fillable ord - LegacyNewDec k\<rparr> = ?ord" using assms(5) by (simp add: LegacyNewDec_def algebra_simps)
  show ?thesis
    unfolding x before
    by (intro exI [of _ "limitExpansion F ord (LegacyNewDec k) (Some (LegacyNewDec p)) td (LegacyNewDec k) qc qr 0"] exI [of _ ?ord] exI [of _ c'] conjI)
      (simp_all add: o' after, simp add: qc_def qr_def algebra_simps)
qed

text \<open>A resting buy order holds the maker fee at its limit price.\<close>

lemma trade_data_rate:
  assumes "GetTradeDataAndIncrementVolumeContribution F sub mid q price rate share mult c isMaker = Some (td, c')"
    and "FetchAndUpdateDiscountedTradingFeeRate F rate isMaker (SubaccountIDToSdkAddress sub) c = Some (r, c'')"
  shows "DiscountedTradeFeeRate td = r"
  using assms
  by (auto simp: GetTradeDataAndIncrementVolumeContribution_def NewEmptyTradeFeeData_def Let_def split: if_splits bind_splits prod.splits)

text \<open>C30: In whole units again (fillable quantity, limit price, fill and clearing price are whole numbers, the fee rates
  arbitrary): a fill of a resting buy order releases the hold of the filled part, less one amount: when the
  discount leaves no fee to pay (the discounted rate is zero) the maker fee that was held for the fill is
  neither charged nor refunded, and stays in the trader's total balance outside the available one.\<close>

theorem resting_buy_hold_release:
  assumes "fee_setting F (RelayerFeeShareRate m)" "config_ok c" "lo_IsBuy ord"
    and "Fillable ord = LegacyNewDec n" "lo_Price ord = LegacyNewDec l" "0 < k" "0 < p"
    and "FetchAndUpdateDiscountedTradingFeeRate F (MakerFeeRate m) True (SubaccountIDToSdkAddress (SubaccountId (lo_OrderInfo ord))) c
      = Some (r, c'')"
  shows "\<exists>x ord' c'. getRestingSpotLimitBuyStateExpansion F (MarketId m) ord (LegacyNewDec k) (LegacyNewDec p) (MakerFeeRate m)
        (RelayerFeeShareRate m) pm c = Some (x, c') \<and> LimitOrder x = Some ord' \<and> Fillable ord' = LegacyNewDec (n - k)
    \<and> QuoteRefundAmount x - QuoteChangeAmount x
      = fst (GetUnfilledMarginHoldAndMarginDenom (fe_dec F) ord m False) - fst (GetUnfilledMarginHoldAndMarginDenom (fe_dec F) ord' m False)
        - (if r = 0 then k * l * max 0 (MakerFeeRate m) else 0)"
proof -
  have D: "legacy_dec (fe_dec F)" using assms(1) by (simp add: fee_setting_def)
  let ?ord = "ord\<lparr>Fillable := LegacyNewDec (n - k)\<rparr>"
  obtain td c' where td: "GetTradeDataAndIncrementVolumeContribution F (SubaccountId (lo_OrderInfo ord)) (MarketId m) (LegacyNewDec k)
      (Some (LegacyNewDec p)) (MakerFeeRate m) (RelayerFeeShareRate m) (MakerPointsMultiplier pm) c True = Some (td, c')"
    and T: "TotalTradeFee td = (if LegacyNewDec k = 0 then 0
        else dec_mul (fe_dec F) (dec_mul (fe_dec F) (LegacyNewDec k) (the (Some (LegacyNewDec p)))) (DiscountedTradeFeeRate td))"
    and R: "if MakerFeeRate m < 0 then DiscountedTradeFeeRate td = MakerFeeRate m
        else 0 \<le> DiscountedTradeFeeRate td \<and> DiscountedTradeFeeRate td \<le> MakerFeeRate m"
    by (rule fee_setting_trade_data [OF assms(1,2), where sub = "SubaccountId (lo_OrderInfo ord)" and m = "MarketId m"
        and q = "LegacyNewDec k" and price = "Some (LegacyNewDec p)" and rate = "MakerFeeRate m"
        and mult = "MakerPointsMultiplier pm" and isMaker = True]) auto
  have r: "DiscountedTradeFeeRate td = r" by (rule trade_data_rate [OF td assms(8)])
  have before: "fst (GetUnfilledMarginHoldAndMarginDenom (fe_dec F) ord m False) = n * l * dec_one + n * l * max 0 (MakerFeeRate m)"
    using unfilled_hold [OF D assms(3-5), of m False] by simp
  have after: "fst (GetUnfilledMarginHoldAndMarginDenom (fe_dec F) ?ord m False)
      = (n - k) * l * dec_one + (n - k) * l * max 0 (MakerFeeRate m)"
    using unfilled_hold [OF D, of ?ord "n - k" l m False] assms(3,5) by simp
  have "LegacyNewDec k \<noteq> 0" using assms(6) by (simp add: LegacyNewDec_def)
  then have f: "TotalTradeFee td = k * p * r"
    using T by (simp only: r if_False option.sel whole_mul [OF D] whole_eval, simp only: mult.commute)
  then have sgn: "TotalTradeFee td < 0 \<longleftrightarrow> r < 0" "0 < TotalTradeFee td \<longleftrightarrow> 0 < r"
    using assms(6,7) by (simp_all add: mult_less_0_iff zero_less_mult_iff)
  have o': "ord\<lparr>Fillable := Fillable ord - LegacyNewDec k\<rparr> = ?ord" using assms(4) by (simp add: LegacyNewDec_def algebra_simps)
  define qc where "qc = (if r < 0 then - (k * p * dec_one) + \<bar>TraderFee td\<bar> else - (k * p * dec_one + k * p * r))"
  define qr where "qr = (if r < 0 then \<bar>TraderFee td\<bar> else 0) + (if p = l then 0 else k * (l - p) * dec_one + k * (l - p) * max 0 r)
    + (if 0 < r then k * l * (max (MakerFeeRate m) 0 - r) else 0)"
  have x: "getRestingSpotLimitBuyStateExpansion F (MarketId m) ord (LegacyNewDec k) (LegacyNewDec p) (MakerFeeRate m)
        (RelayerFeeShareRate m) pm c
    = Some (limitExpansion F ord (LegacyNewDec k) (Some (LegacyNewDec p)) td (LegacyNewDec k) qc qr (TraderFee td), c')"
    unfolding getRestingSpotLimitBuyStateExpansion_def td bind.bind_lunit prod.case Let_def assms(5) sgn r
    unfolding f whole_eval whole_mul [OF D] qc_def qr_def
    by (simp add: algebra_simps)
  have "qr - qc = k * l * dec_one + k * l * max 0 (MakerFeeRate m) - (if r = 0 then k * l * max 0 (MakerFeeRate m) else 0)"
    using R r by (auto simp: qc_def qr_def algebra_simps max_def split: if_splits)
  then show ?thesis
    unfolding x before
    by (intro exI [of _ "limitExpansion F ord (LegacyNewDec k) (Some (LegacyNewDec p)) td (LegacyNewDec k) qc qr (TraderFee td)"]
        exI [of _ ?ord] exI [of _ c'] conjI)
      (simp_all add: o' after, simp add: algebra_simps)
qed

end
