(* ===== verification/Spot_Order_Examples.thy ===== *)
theory Spot_Order_Examples
  imports Order_Holds
begin

text \<open>
  Concrete runs of the order handlers: an environment with the ledger as its bank and a market in which
  chain format and human readable amounts coincide, a subaccount that holds four units of the base
  denom and places a post-only sell order for two of them.
\<close>

definition example_spot_env :: "ledger spot_env" where
  "example_spot_env = \<lparr>se_env = ledger_env, se_risk = Some \<lparr>profiles = Some (\<lambda>_. (None, True)), params_EmergencyPaused = Some False\<rparr>,
     ComputeOrderHash = (\<lambda>ord nonce. if nonce = 1 then Some ''h1'' else Some ''h2''), DeriveSubaccountID = (\<lambda>_ s. Some s),
     SenderString = (\<lambda>a. a), PostOnlyMode = False, BlockHeight = 7, GetSpotMarket = (\<lambda>_ _. None), GetAllSpotMarkets = [],
     EmergencyPaused = False\<rparr>"

definition unit_market :: SpotMarket where
  "unit_market = example_market\<lparr>BaseDecimals := 0, QuoteDecimals := 0\<rparr>"

definition empty_db :: order_db where
  "empty_db = \<lparr>db_orders = [], db_index = [], db_cids = [], db_levels = []\<rparr>"

definition example_spot_state :: "ledger spot_state" where
  "example_spot_state = \<lparr>funds_of = example_deposited, kv = empty_db, tkv = empty_db, market_orders = [], limit_indicators = [],
     market_indicators = [], trade_nonces = [], expirations = [], expiration_markets = [], fee_qualified = [],
     transient_fee_qualified = [], active_accounts = []\<rparr>"

definition example_sell :: SpotOrder where
  "example_sell = \<lparr>so_MarketId = ''m'', so_OrderInfo = \<lparr>SubaccountId = example_sub, FeeRecipient = '''', Price = LegacyNewDec 3,
     oi_Quantity = LegacyNewDec 2, Cid = ''c''\<rparr>, so_OrderType = OrderType_SELL_PO, so_TriggerPrice = None, so_ExpirationBlock = 0\<rparr>"

definition example_listed :: "ledger spot_state" where
  "example_listed = (case CreateSpotLimitOrder example_spot_env example_spot_state example_user example_sell (Some unit_market) of
     (_, Some s) \<Rightarrow> s | _ \<Rightarrow> example_spot_state)"

lemma example_create:
  "CreateSpotLimitOrder example_spot_env example_spot_state example_user example_sell (Some unit_market) = (Inr ''h1'', Some example_listed)"
proof -
  have "(case CreateSpotLimitOrder example_spot_env example_spot_state example_user example_sell (Some unit_market) of
      (Inr h, Some s) \<Rightarrow> h = ''h1'' | _ \<Rightarrow> False)"
    by code_simp
  then show ?thesis unfolding example_listed_def by (auto split: prod.splits sum.splits option.splits)
qed

lemma example_state_ok: "book_ok example_spot_state"
  by (simp add: book_ok_def example_spot_state_def empty_db_def stores_ok_def levels_coherent_def level_of_def resting_at_def)

lemma example_setting:
  "ticks_ok example_spot_env (Some unit_market)" "SupportsOrderCancellations (Status unit_market)"
  "unused_hash (kv example_spot_state) h" "unindexed (tkv example_spot_state) m sub h"
  "DeriveSubaccountID example_spot_env a sub = Some sub" "se_env example_spot_env = ledger_env"
  by (simp_all add: ticks_ok_def example_spot_env_def unit_market_def example_market_def SupportsOrderCancellations_def
      unused_hash_def unindexed_def example_spot_state_def empty_db_def)

lemma example_listed_step: "order_step example_spot_env example_spot_state example_listed"
  by (rule created [OF example_create]) (simp_all add: example_setting)

lemma example_user_sub: "user_subaccount ledger_env example_sub"
  by (simp add: user_subaccount_def module_address_def example_funds_defs numeral_eq_Suc)

theorem order_steps_keep_price_levels_witness:
  "book_ok example_listed \<and> GetOrderbookPriceLevelQuantity example_listed ''m'' False True (LegacyNewDec 3)
    = (\<Sum>((m', b', p', h), ord)\<leftarrow>db_orders (kv example_listed). if m' = ''m'' \<and> b' = False \<and> p' = LegacyNewDec 3 then Fillable ord else 0)
   \<and> GetOrderbookPriceLevelQuantity example_listed ''m'' False True (LegacyNewDec 3) = LegacyNewDec 2"
proof -
  have "GetOrderbookPriceLevelQuantity example_listed ''m'' False True (LegacyNewDec 3) = LegacyNewDec 2" by code_simp
  then show ?thesis
    using order_steps_keep_price_levels [OF r_into_rtranclp, OF example_listed_step example_state_ok, of "''m''" False "LegacyNewDec 3"]
    by simp
qed

theorem create_cancel_restores_funds_witness:
  "\<exists>s''. CancelSpotLimitOrderByOrderHash example_spot_env example_listed example_sub ''h1'' (Some unit_market) ''m'' = Some (Inr s'')
    \<and> GetSpendableFunds ledger_env (funds_of s'') example_sub ''inj'' = GetSpendableFunds ledger_env example_deposited example_sub ''inj''"
proof -
  have e: "so_MarketId example_sell = ''m''" "SubaccountId (so_OrderInfo example_sell) = example_sub" "\<not> so_IsBuy example_sell"
    "BaseDenom unit_market = ''inj''" "funds_of example_spot_state = example_deposited"
    by (simp_all add: example_sell_def unit_market_def example_market_def example_spot_state_def OrderType_IsBuy_def)
  show ?thesis
    using create_cancel_restores_funds [OF _ example_state_ok example_setting(1,2) example_create example_setting(3)] example_user_sub
      ledger.funds_axioms
    by (auto simp: example_setting e)
qed

theorem cancel_order_outcomes_witness:
  "\<exists>s'. CancelSpotLimitOrderByOrderHash example_spot_env example_listed example_sub ''h1'' (Some unit_market) ''m'' = Some (Inr s')
    \<and> book_ok s'"
proof -
  have "(case CancelSpotLimitOrderByOrderHash example_spot_env example_listed example_sub ''h1'' (Some unit_market) ''m'' of
      Some (Inr s') \<Rightarrow> True | _ \<Rightarrow> False)" by code_simp
  then show ?thesis
    using cancel_order_outcomes [OF order_step_ok [OF example_listed_step example_state_ok], of "Some unit_market" example_spot_env example_sub
        "''h1''" "''m''"]
    by (auto split: option.splits sum.splits if_splits)
qed

text \<open>An auction of one resting buy and one new sell order, persisted.\<close>

lemma example_small_auction:
  "settlement_input example_fee_env unit_market example_config [whole_order 11 1] [] [] [whole_order 10 1]"
  using example_fee_env_ok
  by (simp add: settlement_input_def fee_setting_def unit_market_def example_market_def auction_input_def example_order_def good_def
      LegacyNewDec_def)

theorem persisted_auction_keeps_solvency_witness:
  "\<exists>data c'. SpotExecute None example_fee_env unit_market example_points None [whole_order 11 1] [] [] [whole_order 10 1] example_config = Some (data, c')
    \<and> gap ledger_env (funds_of (persistDeposits example_spot_env data example_spot_state)) ''usdt''
      = gap ledger_env example_deposited ''usdt''"
proof -
  let ?match = "SpotExecute_match None sdk_dec None (buildOrderbooks None [whole_order 11 1] [] [] [whole_order 10 1])"
  let ?run = "SpotExecute None example_fee_env unit_market example_points None [whole_order 11 1] [] [] [whole_order 10 1] example_config"
  have v: "map_option (\<lambda>(b, s, r). list_all (\<lambda>x. dec_one dvd snd x * ClearingPrice r) (book_fills b @ book_fills s)) ?match = Some True"
    by code_simp
  have u: "map_option (\<lambda>(data, c'). list_all (\<lambda>x. user_subaccount ledger_env (fst x))
      (BaseDenomDepositDeltas data @ QuoteDenomDepositDeltas data)) ?run = Some True"
    by code_simp
  obtain data c' where r: "?run = Some (data, c')" using u by (cases ?run) auto
  obtain b l c where m: "?match = Some (b, l, c)" using v by (cases ?match) auto
  have E: "fe_dec example_fee_env = sdk_dec" "funds_of example_spot_state = example_deposited" "se_env example_spot_env = ledger_env"
    by (simp_all add: example_fee_env_def example_spot_state_def example_spot_env_def)
  have "store_ok example_deposited" by (simp add: store_ok_def example_deposited_eq)
  then have "gap (se_env example_spot_env) (funds_of (persistDeposits example_spot_env data example_spot_state)) ''usdt''
      = gap (se_env example_spot_env) (funds_of example_spot_state) ''usdt''"
    by (intro mp [OF conjunct2 [OF persisted_auction_keeps_solvency [OF _ _ example_small_auction _ r, where b = b and l = l and r = c]]])
      (use m u v ledger.funds_axioms in \<open>simp_all add: E r list_all_iff ball_Un\<close>)
  then show ?thesis using r by (auto simp: E)
qed

text \<open>A buy order for three units at price five, filled for two at price four.\<close>

definition positive_market :: SpotMarket where
  "positive_market = example_market\<lparr>MakerFeeRate := 500000000000000\<rparr>"

theorem auctioned_buy_releases_hold_witness:
  "\<exists>x ord' c'. getTransientSpotLimitBuyStateExpansion example_fee_env ''m'' (whole_order 5 3) (LegacyNewDec 4) (LegacyNewDec 2)
      (MakerFeeRate positive_market) (TakerFeeRate positive_market) (RelayerFeeShareRate positive_market) example_points example_config
      = Some (x, c') \<and> LimitOrder x = Some ord' \<and> Fillable ord' = LegacyNewDec 1
    \<and> QuoteRefundAmount x - QuoteChangeAmount x
      = fst (GetUnfilledMarginHoldAndMarginDenom sdk_dec (whole_order 5 3) positive_market True)
        - fst (GetUnfilledMarginHoldAndMarginDenom sdk_dec ord' positive_market False)"
  using auctioned_buy_releases_hold [of example_fee_env positive_market example_config "whole_order 5 3" 3 5 2 4 example_points]
    example_fee_env_ok
  by (simp add: fee_setting_def positive_market_def example_market_def example_order_def OrderType_IsBuy_def example_fee_env_def)

text \<open>The same fill of a resting order whose owner is in a tier with a full discount: the hold of
  \<open>2 * 5 * 0.0005\<close> for the fee is not released.\<close>

definition full_discount_config :: FeeDiscountConfig where
  "full_discount_config = example_config\<lparr>AccountFeeTiers := (\<lambda>_. Some \<lparr>MakerDiscountRate = dec_one, TakerDiscountRate = dec_one\<rparr>)\<rparr>"

theorem resting_buy_hold_release_witness:
  "\<exists>x ord' c'. getRestingSpotLimitBuyStateExpansion example_fee_env ''m'' (whole_order 5 3) (LegacyNewDec 2) (LegacyNewDec 4)
      (MakerFeeRate positive_market) (RelayerFeeShareRate positive_market) example_points full_discount_config
      = Some (x, c') \<and> LimitOrder x = Some ord' \<and> Fillable ord' = LegacyNewDec 1
    \<and> QuoteRefundAmount x - QuoteChangeAmount x
      = fst (GetUnfilledMarginHoldAndMarginDenom sdk_dec (whole_order 5 3) positive_market False)
        - fst (GetUnfilledMarginHoldAndMarginDenom sdk_dec ord' positive_market False) - 5000000000000000"
proof -
  have "map_option fst (FetchAndUpdateDiscountedTradingFeeRate example_fee_env (MakerFeeRate positive_market) True
      (SubaccountIDToSdkAddress (SubaccountId (lo_OrderInfo (whole_order 5 3)))) full_discount_config) = Some 0"
    by code_simp
  then obtain c where "FetchAndUpdateDiscountedTradingFeeRate example_fee_env (MakerFeeRate positive_market) True
      (SubaccountIDToSdkAddress (SubaccountId (lo_OrderInfo (whole_order 5 3)))) full_discount_config = Some (0, c)"
    by auto
  moreover have "config_ok full_discount_config"
    using example_fee_env_ok(3) by (auto simp: full_discount_config_def config_ok_def rates_ok_def)
  ultimately have "\<exists>x ord' c'. getRestingSpotLimitBuyStateExpansion example_fee_env (MarketId positive_market) (whole_order 5 3) (LegacyNewDec 2)
      (LegacyNewDec 4) (MakerFeeRate positive_market) (RelayerFeeShareRate positive_market) example_points full_discount_config
      = Some (x, c') \<and> LimitOrder x = Some ord' \<and> Fillable ord' = LegacyNewDec (3 - 2)
    \<and> QuoteRefundAmount x - QuoteChangeAmount x
      = fst (GetUnfilledMarginHoldAndMarginDenom (fe_dec example_fee_env) (whole_order 5 3) positive_market False)
        - fst (GetUnfilledMarginHoldAndMarginDenom (fe_dec example_fee_env) ord' positive_market False)
        - (if (0::dec) = 0 then 2 * 5 * max 0 (MakerFeeRate positive_market) else 0)"
    using example_fee_env_ok(1,2)
    by (intro resting_buy_hold_release)
      (simp_all add: fee_setting_def positive_market_def example_market_def example_order_def OrderType_IsBuy_def)
  then show ?thesis by (simp add: example_fee_env_def positive_market_def example_market_def)
qed

end
