(* ===== verification/Vouchers.thy ===== *)
theory Vouchers
  imports Chain_Prelude
begin

text \<open>
  The vouchers that modules hand out when a transfer cannot be delivered
  (\<^verbatim>\<open>common/vouchers/assistant.go\<close>). A voucher is an amount of a denom that an address may claim from
  the account of the module. The store maps the denom and the address to the amount; the bank's transfer is a
  parameter. The permissions, the auction and the insurance module each have such a store.
\<close>

datatype voucher_error = ErrInvalidVoucherDenom | ErrVoucherNotFound | ErrVoucherTransfer | ErrVoucherKey | PanicVoucherCoin

type_synonym voucher_store = "((denom \<times> address) \<times> int) list"

section \<open>Keys\<close>

definition denomWithDelim :: "denom \<Rightarrow> string" where
  "denomWithDelim denom = denom @ ''|''"

definition voucherKey :: "denom \<Rightarrow> address \<Rightarrow> string" where
  "voucherKey denom addr = denomWithDelim denom @ addr"

text \<open>The decoding of a key in \<^verbatim>\<open>GetAllVouchers\<close>.\<close>

definition splitVoucherKey :: "string \<Rightarrow> (denom \<times> address) option" where
  "splitVoucherKey k =
     (let addrLen = 20; keySuffixLen = addrLen + length ''|''
      in if length k \<le> keySuffixLen then None
         else Some (take (length k - keySuffixLen) k, drop (length k - addrLen) k))"

section \<open>Operations\<close>

text \<open>\<open>ValidateDenom\<close> is the check of a denom by the coin library.\<close>

definition GetVoucher :: "(denom \<Rightarrow> bool) \<Rightarrow> voucher_store \<Rightarrow> denom \<Rightarrow> address \<Rightarrow> voucher_error + int" where
  "GetVoucher ValidateDenom vs denom addr =
     ebind (echeck (ValidateDenom denom) ErrInvalidVoucherDenom) (\<lambda>_.
       Inr (case map_of vs (denom, addr) of None \<Rightarrow> 0 | Some amount \<Rightarrow> amount))"

definition SetVoucher :: "voucher_store \<Rightarrow> address \<Rightarrow> denom \<Rightarrow> int \<Rightarrow> voucher_store" where
  "SetVoucher vs addr denom amount = AList.update (denom, addr) amount vs"

definition DeleteVoucher :: "voucher_store \<Rightarrow> address \<Rightarrow> denom \<Rightarrow> voucher_store" where
  "DeleteVoucher vs addr denom = (if map_of vs (denom, addr) \<noteq> None then AList.delete (denom, addr) vs else vs)"

definition AddVoucher :: "(denom \<Rightarrow> bool) \<Rightarrow> voucher_store \<Rightarrow> address \<Rightarrow> denom \<Rightarrow> int \<Rightarrow> voucher_error + voucher_store" where
  "AddVoucher ValidateDenom vs addr denom amount =
     ebind (GetVoucher ValidateDenom vs denom addr) (\<lambda>existing. Inr (SetVoucher vs addr denom (existing + amount)))"

text \<open>\<open>send\<close> is the bank's transfer out of the module account.\<close>

definition ClaimVoucher ::
  "(denom \<Rightarrow> bool) \<Rightarrow> ('b \<Rightarrow> address \<Rightarrow> denom \<Rightarrow> int \<Rightarrow> 'e + 'b) \<Rightarrow> 'b \<Rightarrow> voucher_store \<Rightarrow> address \<Rightarrow> denom
     \<Rightarrow> voucher_error + 'b \<times> voucher_store" where
  "ClaimVoucher ValidateDenom send b vs receiver denom =
     ebind (GetVoucher ValidateDenom vs denom receiver) (\<lambda>voucher.
       if voucher = 0 then Inl ErrVoucherNotFound
       else (case send b receiver denom voucher of
               Inl _ \<Rightarrow> Inl ErrVoucherTransfer
             | Inr b \<Rightarrow> Inr (b, DeleteVoucher vs receiver denom)))"

text \<open>
  The listing decodes the keys of the store. Building the coin panics when the decoded denom is not valid or the amount
  is negative.
\<close>

definition GetAllVouchers :: "(denom \<Rightarrow> bool) \<Rightarrow> voucher_store \<Rightarrow> voucher_error + ((denom \<times> address) \<times> int) list" where
  "GetAllVouchers ValidateDenom vs =
     efold (\<lambda>result ((denom, addr), amount).
         ebind (of_opt ErrVoucherKey (splitVoucherKey (voucherKey denom addr))) (\<lambda>(denom, address).
         ebind (echeck (ValidateDenom denom \<and> 0 \<le> amount) PanicVoucherCoin) (\<lambda>_.
           Inr (result @ [((denom, address), amount)])))) [] vs"

section \<open>Listing\<close>

text \<open>Accounts have addresses of 20 bytes, contracts and interchain accounts of 32.\<close>

definition account_address :: "address \<Rightarrow> bool" where
  "account_address a \<longleftrightarrow> length a = 20 \<or> length a = 32"

definition holders_listed :: "voucher_store \<Rightarrow> bool" where
  "holders_listed vs \<longleftrightarrow> list_all (\<lambda>((d, a), n). length a = 20) vs"

lemma splitVoucherKey_account: "d \<noteq> '''' \<Longrightarrow> length a = 20 \<Longrightarrow> splitVoucherKey (voucherKey d a) = Some (d, a)"
  by (cases d) (simp_all add: splitVoucherKey_def voucherKey_def denomWithDelim_def)

lemma splitVoucherKey_contract:
  "length a = 32 \<Longrightarrow> splitVoucherKey (voucherKey d a) = Some (d @ ''|'' @ take 11 a, drop 12 a)"
  by (simp add: splitVoucherKey_def voucherKey_def denomWithDelim_def)

lemma GetAllVouchers_cases:
  assumes "\<forall>((d, a), n) \<in> set vs. V d \<and> 0 \<le> n \<and> account_address a" "\<And>d. CHR ''|'' \<in> set d \<Longrightarrow> \<not> V d" "\<not> V ''''"
  shows "GetAllVouchers V vs = (if holders_listed vs then Inr vs else Inl PanicVoucherCoin)"
proof -
  let ?f = "\<lambda>result ((denom, addr), amount).
         ebind (of_opt ErrVoucherKey (splitVoucherKey (voucherKey denom addr))) (\<lambda>(denom, address).
         ebind (echeck (V denom \<and> 0 \<le> amount) PanicVoucherCoin) (\<lambda>_.
           Inr (result @ [((denom, address), amount)])))"
  have "efold ?f r vs = (if holders_listed vs then Inr (r @ vs) else Inl PanicVoucherCoin)" for r
    using assms(1)
  proof (induction vs arbitrary: r)
    case (Cons v vs)
    obtain d a n where v: "v = ((d, a), n)" by (metis prod.exhaust)
    have h: "V d" "0 \<le> n" "account_address a" "d \<noteq> ''''" using Cons.prems v assms(3) by auto
    have no: "\<not> V (d @ ''|'' @ take 11 a)" by (rule assms(2)) simp
    show ?case
    proof (cases "length a = 20")
      case True
      then show ?thesis using Cons v h splitVoucherKey_account [OF h(4) True] by (simp add: holders_listed_def)
    next
      case False
      then have "length a = 32" using h(3) by (simp add: account_address_def)
      then show ?thesis using False v no splitVoucherKey_contract [of a d] by (simp add: holders_listed_def echeck_def)
    qed
  qed (simp add: holders_listed_def)
  then show ?thesis by (simp add: GetAllVouchers_def)
qed

section \<open>Outstanding amounts\<close>

definition voucher_of :: "voucher_store \<Rightarrow> denom \<Rightarrow> address \<Rightarrow> int" where
  "voucher_of vs d a = (case map_of vs (d, a) of None \<Rightarrow> 0 | Some v \<Rightarrow> v)"

definition vouchers_in :: "voucher_store \<Rightarrow> denom \<Rightarrow> int" where
  "vouchers_in vs d = store_sum (\<lambda>k v. if fst k = d then v else 0) vs"

lemma AddVoucher_Inr:
  assumes "AddVoucher V vs a d n = Inr vs'"
  shows "V d" "vs' = AList.update (d, a) (voucher_of vs d a + n) vs"
  using assms by (auto simp: AddVoucher_def GetVoucher_def SetVoucher_def voucher_of_def)

lemma AddVoucher_valid: "V d \<Longrightarrow> AddVoucher V vs a d n = Inr (AList.update (d, a) (voucher_of vs d a + n) vs)"
  by (simp add: AddVoucher_def GetVoucher_def SetVoucher_def voucher_of_def)

lemma ClaimVoucher_Inr:
  assumes "ClaimVoucher V send b vs a d = Inr (b', vs')"
  shows "send b a d (voucher_of vs d a) = Inr b'" "vs' = AList.delete (d, a) vs" "voucher_of vs d a \<noteq> 0"
  using assms
  by (auto simp: ClaimVoucher_def GetVoucher_def DeleteVoucher_def voucher_of_def split: if_splits sum.splits option.splits)

lemma voucher_at: "store_at (\<lambda>k v. if fst k = d' then v else 0) vs (d, a) = (if d' = d then voucher_of vs d a else 0)"
  by (auto simp: store_at_def voucher_of_def split: option.splits)

lemma vouchers_in_add:
  assumes "distinct (map fst vs)"
  shows "vouchers_in (AList.update (d, a) (voucher_of vs d a + n) vs) d' = vouchers_in vs d' + (if d' = d then n else 0)"
  using assms by (simp add: vouchers_in_def store_sum_update voucher_at)

lemma vouchers_in_delete:
  assumes "distinct (map fst vs)"
  shows "vouchers_in (AList.delete (d, a) vs) d' = vouchers_in vs d' - (if d' = d then voucher_of vs d a else 0)"
  using assms by (simp add: vouchers_in_def store_sum_delete voucher_at)

lemma vouchers_in_nonneg: "\<forall>((d, a), n) \<in> set vs. 0 \<le> n \<Longrightarrow> 0 \<le> vouchers_in vs d"
  by (induction vs) (auto simp: vouchers_in_def)

definition vouchers_valid :: "voucher_store \<Rightarrow> bool" where
  "vouchers_valid vs \<longleftrightarrow> distinct (map fst vs) \<and> (\<forall>((d, a), n) \<in> set vs. 0 \<le> n)"

lemma vouchers_valid_iff:
  "vouchers_valid vs \<longleftrightarrow> distinct (map fst vs) \<and> (\<forall>k n. map_of vs k = Some n \<longrightarrow> 0 \<le> n)"
proof (cases "distinct (map fst vs)")
  case True
  then have "(\<forall>((d, a), n) \<in> set vs. 0 \<le> n) \<longleftrightarrow> (\<forall>k n. map_of vs k = Some n \<longrightarrow> 0 \<le> n)"
    by (simp add: Ball_def case_prod_beta)
  then show ?thesis unfolding vouchers_valid_def by blast
qed (simp add: vouchers_valid_def)

lemma voucher_of_nonneg: "vouchers_valid vs \<Longrightarrow> 0 \<le> voucher_of vs d a"
  by (simp add: vouchers_valid_iff voucher_of_def split: option.split)

lemma vouchers_valid_add:
  assumes "vouchers_valid vs" "0 \<le> n"
  shows "vouchers_valid (AList.update (d, a) (voucher_of vs d a + n) vs)"
  using assms voucher_of_nonneg [OF assms(1), of d a] by (simp add: vouchers_valid_iff distinct_store update_conv')

lemma vouchers_valid_delete: "vouchers_valid vs \<Longrightarrow> vouchers_valid (AList.delete k vs)"
  by (simp add: vouchers_valid_iff distinct_store delete_conv' restrict_map_def)

lemma voucher_of_add: "voucher_of (AList.update (d, a) (voucher_of vs d a + n) vs) d' a = voucher_of vs d' a + (if d' = d then n else 0)"
  by (simp add: voucher_of_def update_conv')

text \<open>What the modules rely on of the bank: a transfer moves exactly its amount between two accounts.\<close>

definition moves_coins :: "('b \<Rightarrow> address \<Rightarrow> denom \<Rightarrow> int) \<Rightarrow> ('b \<Rightarrow> address \<Rightarrow> address \<Rightarrow> denom \<Rightarrow> int \<Rightarrow> 'e + 'b) \<Rightarrow> bool" where
  "moves_coins balance transfer \<longleftrightarrow> (\<forall>b x y d n b' z d'. transfer b x y d n = Inr b' \<longrightarrow> x \<noteq> y \<longrightarrow>
     balance b' z d' = balance b z d' - (if z = x \<and> d' = d then n else 0) + (if z = y \<and> d' = d then n else 0))"

lemma moves_coinsD:
  assumes "moves_coins balance transfer" "transfer b x y d n = Inr b'" "x \<noteq> y"
  shows "balance b' z d' = balance b z d' - (if z = x \<and> d' = d then n else 0) + (if z = y \<and> d' = d then n else 0)"
  using assms unfolding moves_coins_def by blast

text \<open>A claim takes from the account of the module what it takes off the vouchers.\<close>

lemma claim_keeps_backing:
  assumes "moves_coins balance transfer" "distinct (map fst vs)" "a \<noteq> m"
    and "ClaimVoucher V (\<lambda>b. transfer b m) b vs a d = Inr (b', vs')"
  shows "balance b' m d' - vouchers_in vs' d' = balance b m d' - vouchers_in vs d'" "distinct (map fst vs')"
  using ClaimVoucher_Inr [OF assms(4)] assms(2,3) moves_coinsD [OF assms(1), of b m a d "voucher_of vs d a" b' m d']
  by (auto simp: vouchers_in_delete distinct_store)

end
