(* ===== verification/Permissions.thy ===== *)
theory Permissions
  imports Vouchers
begin

unbundle bit_operations_syntax

text \<open>
  The permissions module: namespaces with roles, actors, role managers and policies
  (\<^verbatim>\<open>permissions/keeper\<close>, \<^verbatim>\<open>permissions/types\<close>), the restriction applied to every bank send
  (\<^verbatim>\<open>send_restriction.go\<close>) and its reroute to a voucher.

  The stores are association lists whose keys are the tuples the key bytes encode: a denom contains no
  \<^verbatim>\<open>|\<close>, and account addresses have one length, so the encodings are injective. The values are stored
  decoded; a role whose fields are all zero marshals to no bytes, which reads back as missing. An
  \<^verbatim>\<open>Action\<close> is its 32-bit pattern. Address formats, the bank, contract hooks and denom admins belong to other
  modules and are fields of the environment. Gas and events are left out. A panic on a malformed address
  is the error \<open>PanicBech32\<close>: both revert the transaction.
\<close>

section \<open>Types\<close>

type_synonym Action = "32 word"

definition Action_UNSPECIFIED :: Action where "Action_UNSPECIFIED = 0"
definition Action_MINT :: Action where "Action_MINT = 1"
definition Action_RECEIVE :: Action where "Action_RECEIVE = 2"
definition Action_BURN :: Action where "Action_BURN = 4"
definition Action_SEND :: Action where "Action_SEND = 8"
definition Action_SUPER_BURN :: Action where "Action_SUPER_BURN = 16"
definition Action_MODIFY_POLICY_MANAGERS :: Action where "Action_MODIFY_POLICY_MANAGERS = 134217728"
definition Action_MODIFY_CONTRACT_HOOK :: Action where "Action_MODIFY_CONTRACT_HOOK = 268435456"
definition Action_MODIFY_ROLE_PERMISSIONS :: Action where "Action_MODIFY_ROLE_PERMISSIONS = 536870912"
definition Action_MODIFY_ROLE_MANAGERS :: Action where "Action_MODIFY_ROLE_MANAGERS = 1073741824"

lemmas action_defs = Action_UNSPECIFIED_def Action_MINT_def Action_RECEIVE_def Action_BURN_def Action_SEND_def Action_SUPER_BURN_def
  Action_MODIFY_POLICY_MANAGERS_def Action_MODIFY_CONTRACT_HOOK_def Action_MODIFY_ROLE_PERMISSIONS_def Action_MODIFY_ROLE_MANAGERS_def

definition EVERYONE :: string where "EVERYONE = ''EVERYONE''"

definition MaxRoleNameLength :: nat where "MaxRoleNameLength = 20"

definition Actions :: "Action list" where
  "Actions = [Action_MINT, Action_RECEIVE, Action_BURN, Action_SEND, Action_SUPER_BURN,
     Action_MODIFY_POLICY_MANAGERS, Action_MODIFY_CONTRACT_HOOK, Action_MODIFY_ROLE_PERMISSIONS, Action_MODIFY_ROLE_MANAGERS]"

definition ValidActionsBitmask :: "32 word" where
  "ValidActionsBitmask = Action_MINT OR Action_RECEIVE OR Action_BURN OR Action_SEND OR Action_SUPER_BURN
     OR Action_MODIFY_POLICY_MANAGERS OR Action_MODIFY_CONTRACT_HOOK OR Action_MODIFY_ROLE_PERMISSIONS OR Action_MODIFY_ROLE_MANAGERS"

definition DisallowedEveryoneActions :: "32 word" where
  "DisallowedEveryoneActions = Action_MINT OR Action_SUPER_BURN OR Action_MODIFY_POLICY_MANAGERS
     OR Action_MODIFY_CONTRACT_HOOK OR Action_MODIFY_ROLE_PERMISSIONS OR Action_MODIFY_ROLE_MANAGERS"

definition IsValidPermission :: "32 word \<Rightarrow> bool" where
  "IsValidPermission perm \<longleftrightarrow> perm AND ValidActionsBitmask = perm"

definition IsValidPolicyActionPermission :: "32 word \<Rightarrow> bool" where
  "IsValidPolicyActionPermission perm \<longleftrightarrow> (0 < perm \<and> perm AND (perm - 1) = 0) \<and> IsValidPermission perm"

definition Has :: "32 word \<Rightarrow> Action \<Rightarrow> bool" where
  "Has a action \<longleftrightarrow> a AND action \<noteq> 0"

definition Add :: "32 word \<Rightarrow> 32 word \<Rightarrow> 32 word" where
  "Add a actions = a OR actions"

record Role =
  role_Name :: string
  RoleId :: "32 word"
  role_Permissions :: "32 word"

record ActorRoles =
  ar_Actor :: string
  ar_Roles :: "string list"

record RoleActors =
  ra_Role :: string
  ra_Actors :: "string list"

record RoleManager =
  rm_Manager :: string
  rm_Roles :: "string list"

record PolicyStatus =
  ps_Action :: Action
  IsDisabled :: bool
  IsSealed :: bool

record PolicyManagerCapability =
  pc_Manager :: string
  pc_Action :: Action
  CanDisable :: bool
  CanSeal :: bool

record Namespace =
  ns_Denom :: denom
  ns_WasmHook :: string
  ns_RolePermissions :: "Role list"
  ns_ActorRoles :: "ActorRoles list"
  ns_RoleManagers :: "RoleManager list"
  ns_PolicyStatuses :: "PolicyStatus list"
  ns_PolicyManagerCapabilities :: "PolicyManagerCapability list"
  ns_EvmHook :: string

record MsgUpdateNamespace =
  un_Sender :: string
  un_Denom :: denom
  un_WasmHook :: "string option"
  un_RolePermissions :: "Role list"
  un_RoleManagers :: "RoleManager list"
  un_PolicyStatuses :: "PolicyStatus list"
  un_PolicyManagerCapabilities :: "PolicyManagerCapability list"
  un_EvmHook :: "string option"

record MsgUpdateActorRoles =
  ur_Sender :: string
  ur_Denom :: denom
  ur_RoleActorsToAdd :: "RoleActors list"
  ur_RoleActorsToRevoke :: "RoleActors list"

datatype perm_error = ErrDenomNamespaceExists | ErrUnauthorized | ErrInvalidNamespace | ErrInvalidPermission | ErrUnknownRole
  | ErrUnknownWasmHook | ErrRestrictedAction | ErrInvalidRole | ErrUnknownDenom | ErrContractHookError
  | ErrInvalidWasmHook | ErrUnknownPolicy | ErrUnauthorizedPolicyChange | ErrInvalidEVMHook | ErrInvalidAddress
  | ErrVoucher voucher_error | PanicBech32

section \<open>State and environment\<close>

record permissions_state =
  namespaces :: "(denom \<times> Namespace) list"
  roles :: "((denom \<times> 32 word) \<times> Role) list"
  role_names :: "((denom \<times> string) \<times> 32 word) list"
  actor_roles :: "((denom \<times> address) \<times> 32 word list) list"
  role_managers :: "((denom \<times> address \<times> 32 word) \<times> 32 word) list"
  policy_statuses :: "((denom \<times> Action) \<times> PolicyStatus) list"
  capabilities :: "((denom \<times> address \<times> Action) \<times> PolicyManagerCapability) list"
  vouchers :: voucher_store
  enforced_contracts :: "string list"
  enforced_cache :: "string list option"

record perm_env =
  FromBech32 :: "string \<Rightarrow> address option"
  ToBech32 :: "address \<Rightarrow> string"
  tfModuleAddress :: string
  moduleAccounts :: "string list"
  perm_authority :: string
  perm_module_address :: address
  ContractHex :: "string \<Rightarrow> string"
  GetDenomAdmin :: "denom \<Rightarrow> address option"
  getEVMContractOwner :: "denom \<Rightarrow> address option"
  IsHexAddress :: "string \<Rightarrow> bool"
  validateEvmHook :: "string \<Rightarrow> perm_error + unit"
  validateWasmHook :: "address \<Rightarrow> perm_error + unit"
  QueryWasmHook :: "address \<Rightarrow> address \<Rightarrow> address \<Rightarrow> denom \<Rightarrow> int \<Rightarrow> bool"
  callEvmHook :: "string \<Rightarrow> address \<Rightarrow> address \<Rightarrow> denom \<Rightarrow> int \<Rightarrow> bool option"
  ValidDenom :: "denom \<Rightarrow> bool"

section \<open>Roles\<close>

definition empty_role :: Role where
  "empty_role = \<lparr>role_Name = '''', RoleId = 0, role_Permissions = 0\<rparr>"

definition HasRoleName :: "permissions_state \<Rightarrow> denom \<Rightarrow> string \<Rightarrow> bool" where
  "HasRoleName s denom role \<longleftrightarrow> map_of (role_names s) (denom, role) \<noteq> None"

definition HasRoleID :: "permissions_state \<Rightarrow> denom \<Rightarrow> 32 word \<Rightarrow> bool" where
  "HasRoleID s denom roleID \<longleftrightarrow> map_of (roles s) (denom, roleID) \<noteq> None"

definition GetRoleID :: "permissions_state \<Rightarrow> denom \<Rightarrow> string \<Rightarrow> 32 word option" where
  "GetRoleID s denom roleName = map_of (role_names s) (denom, roleName)"

definition GetRoleByID :: "permissions_state \<Rightarrow> denom \<Rightarrow> 32 word \<Rightarrow> perm_error + Role" where
  "GetRoleByID s denom roleID =
     (case map_of (roles s) (denom, roleID) of
        None \<Rightarrow> Inl ErrUnknownRole
      | Some role \<Rightarrow> if role = empty_role then Inl ErrUnknownRole else Inr role)"

definition GetRoleByName :: "permissions_state \<Rightarrow> denom \<Rightarrow> string \<Rightarrow> perm_error + Role" where
  "GetRoleByName s denom role = ebind (of_opt ErrUnknownRole (GetRoleID s denom role)) (\<lambda>roleId. GetRoleByID s denom roleId)"

definition setRole :: "permissions_state \<Rightarrow> denom \<Rightarrow> Role \<Rightarrow> permissions_state" where
  "setRole s denom role =
     s\<lparr>roles := AList.update (denom, RoleId role) role (roles s),
       role_names := AList.update (denom, role_Name role) (RoleId role) (role_names s)\<rparr>"

definition updateRole :: "permissions_state \<Rightarrow> denom \<Rightarrow> Role \<Rightarrow> perm_error + permissions_state" where
  "updateRole s denom role =
     (let existsRoleName = HasRoleName s denom (role_Name role);
          existsRoleID = HasRoleID s denom (RoleId role)
      in if \<not> existsRoleName \<and> \<not> existsRoleID then Inr (setRole s denom role)
         else ebind (GetRoleByName s denom (role_Name role)) (\<lambda>oldRole.
           if existsRoleName \<noteq> existsRoleID \<or> RoleId oldRole \<noteq> RoleId role then Inl ErrUnknownRole
           else Inr (setRole s denom role)))"

definition GetActorRoleIDs :: "permissions_state \<Rightarrow> denom \<Rightarrow> address \<Rightarrow> 32 word list" where
  "GetActorRoleIDs s denom addr = (case map_of (actor_roles s) (denom, addr) of None \<Rightarrow> [] | Some ids \<Rightarrow> ids)"

definition setActorRoles :: "permissions_state \<Rightarrow> denom \<Rightarrow> address \<Rightarrow> 32 word list \<Rightarrow> permissions_state" where
  "setActorRoles s denom addr roleIDs =
     (if roleIDs = [] then s\<lparr>actor_roles := AList.delete (denom, addr) (actor_roles s)\<rparr>
      else s\<lparr>actor_roles := AList.update (denom, addr) roleIDs (actor_roles s)\<rparr>)"

text \<open>\<^verbatim>\<open>slices.Compact\<close> drops an element equal to its predecessor; \<^verbatim>\<open>slices.DeleteFunc\<close> is a filter.\<close>

definition addActorRoles :: "permissions_state \<Rightarrow> denom \<Rightarrow> address \<Rightarrow> 32 word list \<Rightarrow> permissions_state" where
  "addActorRoles s denom addr roleIDs =
     setActorRoles s denom addr (remdups_adj (GetActorRoleIDs s denom addr @ roleIDs))"

definition revokeActorRoles :: "permissions_state \<Rightarrow> denom \<Rightarrow> address \<Rightarrow> 32 word list \<Rightarrow> permissions_state" where
  "revokeActorRoles s denom addr roleIDs =
     setActorRoles s denom addr (filter (\<lambda>roleId. \<not> List.member roleIDs roleId) (GetActorRoleIDs s denom addr))"

fun sumAllowedActions :: "permissions_state \<Rightarrow> denom \<Rightarrow> 32 word list \<Rightarrow> 32 word \<Rightarrow> perm_error + 32 word" where
  "sumAllowedActions s denom [] totalAllowedActions = Inr totalAllowedActions"
| "sumAllowedActions s denom (roleID # roleIDs) totalAllowedActions =
     (case GetRoleByID s denom roleID of
        Inl _ \<Rightarrow> Inl ErrRestrictedAction
      | Inr role \<Rightarrow>
          if role_Permissions role = 0 then Inr 0
          else sumAllowedActions s denom roleIDs (Add totalAllowedActions (role_Permissions role)))"

definition getTotalAllowedActionsForAddress :: "permissions_state \<Rightarrow> denom \<Rightarrow> address \<Rightarrow> perm_error + 32 word" where
  "getTotalAllowedActionsForAddress s denom actor =
     (let roleIDs = GetActorRoleIDs s denom actor;
          roleIDs = (if roleIDs = [] then [case GetRoleID s denom EVERYONE of None \<Rightarrow> 0 | Some i \<Rightarrow> i] else roleIDs)
      in sumAllowedActions s denom roleIDs 0)"

section \<open>Role managers\<close>

definition setRoleManager :: "permissions_state \<Rightarrow> denom \<Rightarrow> address \<Rightarrow> 32 word \<Rightarrow> permissions_state" where
  "setRoleManager s denom manager roleID = s\<lparr>role_managers := AList.update (denom, manager, roleID) roleID (role_managers s)\<rparr>"

definition isRoleManager :: "permissions_state \<Rightarrow> denom \<Rightarrow> address \<Rightarrow> 32 word \<Rightarrow> bool" where
  "isRoleManager s denom manager roleID \<longleftrightarrow> map_of (role_managers s) (denom, manager, roleID) \<noteq> None"

definition getAllRolesIDsForManager :: "permissions_state \<Rightarrow> denom \<Rightarrow> address \<Rightarrow> 32 word list" where
  "getAllRolesIDsForManager s denom manager =
     map snd (filter (\<lambda>((d, m, r), v). d = denom \<and> m = manager) (role_managers s))"

definition deleteManagerRole :: "permissions_state \<Rightarrow> denom \<Rightarrow> address \<Rightarrow> 32 word \<Rightarrow> permissions_state" where
  "deleteManagerRole s denom manager roleID = s\<lparr>role_managers := AList.delete (denom, manager, roleID) (role_managers s)\<rparr>"

definition deleteManagerFromAllRoles :: "permissions_state \<Rightarrow> denom \<Rightarrow> address \<Rightarrow> permissions_state" where
  "deleteManagerFromAllRoles s denom manager =
     foldl (\<lambda>s roleID. deleteManagerRole s denom manager roleID) s (getAllRolesIDsForManager s denom manager)"

definition updateManagerRoles :: "permissions_state \<Rightarrow> denom \<Rightarrow> address \<Rightarrow> string list \<Rightarrow> perm_error + permissions_state" where
  "updateManagerRoles s denom manager rs =
     (if rs = [] then Inr (deleteManagerFromAllRoles s denom manager)
      else efold (\<lambda>s roleName. ebind (GetRoleByName s denom roleName) (\<lambda>role. Inr (setRoleManager s denom manager (RoleId role)))) s rs)"

definition verifySenderIsRoleManagerForAffectedRoles ::
  "permissions_state \<Rightarrow> denom \<Rightarrow> address \<Rightarrow> string list \<Rightarrow> perm_error + (string \<times> 32 word) list" where
  "verifySenderIsRoleManagerForAffectedRoles s denom sender affectedRoles =
     efold (\<lambda>roleIDs roleName.
       (case GetRoleID s denom roleName of
          None \<Rightarrow> Inl ErrUnauthorized
        | Some roleID \<Rightarrow> if isRoleManager s denom sender roleID then Inr (AList.update roleName roleID roleIDs) else Inl ErrUnauthorized))
     [] affectedRoles"

section \<open>Policies\<close>

definition GetPolicyStatus :: "permissions_state \<Rightarrow> denom \<Rightarrow> Action \<Rightarrow> perm_error + PolicyStatus" where
  "GetPolicyStatus s denom action = of_opt ErrUnknownPolicy (map_of (policy_statuses s) (denom, action))"

definition setPolicyStatus :: "permissions_state \<Rightarrow> denom \<Rightarrow> PolicyStatus \<Rightarrow> permissions_state" where
  "setPolicyStatus s denom status = s\<lparr>policy_statuses := AList.update (denom, ps_Action status) status (policy_statuses s)\<rparr>"

definition IsActionDisabledByPolicy :: "permissions_state \<Rightarrow> denom \<Rightarrow> Action \<Rightarrow> bool" where
  "IsActionDisabledByPolicy s denom action = (case GetPolicyStatus s denom action of Inl _ \<Rightarrow> True | Inr status \<Rightarrow> IsDisabled status)"

definition getPolicyManagerCapability :: "permissions_state \<Rightarrow> denom \<Rightarrow> address \<Rightarrow> Action \<Rightarrow> perm_error + PolicyManagerCapability" where
  "getPolicyManagerCapability s denom manager action = of_opt ErrUnauthorized (map_of (capabilities s) (denom, manager, action))"

definition TryUpdatePolicyStatus :: "permissions_state \<Rightarrow> address \<Rightarrow> denom \<Rightarrow> PolicyStatus \<Rightarrow> perm_error + permissions_state" where
  "TryUpdatePolicyStatus s sender denom newPolicyStatus =
     ebind (GetPolicyStatus s denom (ps_Action newPolicyStatus)) (\<lambda>oldPolicyStatus.
     ebind (echeck (\<not> IsSealed oldPolicyStatus) ErrUnauthorizedPolicyChange) (\<lambda>_.
     ebind (getPolicyManagerCapability s denom sender (ps_Action newPolicyStatus)) (\<lambda>capability.
       if \<not> CanDisable capability \<and> IsDisabled newPolicyStatus \<noteq> IsDisabled oldPolicyStatus then Inl ErrUnauthorizedPolicyChange
       else if \<not> CanSeal capability \<and> IsSealed newPolicyStatus then Inl ErrUnauthorizedPolicyChange
       else Inr (setPolicyStatus s denom newPolicyStatus))))"

definition setPolicyManagerCapability :: "perm_env \<Rightarrow> permissions_state \<Rightarrow> denom \<Rightarrow> PolicyManagerCapability \<Rightarrow> perm_error + permissions_state" where
  "setPolicyManagerCapability E s denom capability =
     ebind (of_opt ErrInvalidAddress (FromBech32 E (pc_Manager capability))) (\<lambda>manager.
       Inr (s\<lparr>capabilities := AList.update (denom, manager, pc_Action capability) capability (capabilities s)\<rparr>))"

definition deletePolicyManagerCapability :: "permissions_state \<Rightarrow> denom \<Rightarrow> address \<Rightarrow> Action \<Rightarrow> permissions_state" where
  "deletePolicyManagerCapability s denom manager action = s\<lparr>capabilities := AList.delete (denom, manager, action) (capabilities s)\<rparr>"

definition updatePolicyManagerCapability ::
  "perm_env \<Rightarrow> permissions_state \<Rightarrow> denom \<Rightarrow> PolicyManagerCapability \<Rightarrow> perm_error + permissions_state" where
  "updatePolicyManagerCapability E s denom capability =
     (if \<not> CanSeal capability \<and> \<not> CanDisable capability
      then ebind (of_opt ErrInvalidAddress (FromBech32 E (pc_Manager capability))) (\<lambda>manager.
             Inr (deletePolicyManagerCapability s denom manager (pc_Action capability)))
      else setPolicyManagerCapability E s denom capability)"

definition CheckPermissionsForAction :: "permissions_state \<Rightarrow> denom \<Rightarrow> address \<Rightarrow> Action \<Rightarrow> perm_error + unit" where
  "CheckPermissionsForAction s denom actor action =
     (if IsActionDisabledByPolicy s denom action then Inl ErrRestrictedAction
      else ebind (getTotalAllowedActionsForAddress s denom actor) (\<lambda>totalAllowedActions.
        echeck (Has totalAllowedActions action) ErrRestrictedAction))"

definition HasPermissionsForAction :: "permissions_state \<Rightarrow> denom \<Rightarrow> address \<Rightarrow> Action \<Rightarrow> bool" where
  "HasPermissionsForAction s denom actor action \<longleftrightarrow> CheckPermissionsForAction s denom actor action = Inr ()"

section \<open>Validation of a namespace\<close>

definition validateEveryoneRole :: "Namespace \<Rightarrow> bool \<Rightarrow> perm_error + unit" where
  "validateEveryoneRole n isForUpdate =
     (case List.find (\<lambda>rolePerm. role_Name rolePerm = EVERYONE) (ns_RolePermissions n) of
        Some rolePerm \<Rightarrow> echeck (role_Permissions rolePerm AND DisallowedEveryoneActions = 0) ErrInvalidPermission
      | None \<Rightarrow> echeck isForUpdate ErrInvalidPermission)"

definition validateRole :: "Role set \<Rightarrow> Role \<Rightarrow> perm_error + Role set" where
  "validateRole found role =
     ebind (echeck (IsValidPermission (role_Permissions role)) ErrInvalidPermission) (\<lambda>_.
     ebind (echeck (\<not> (role_Name role = '''' \<or> MaxRoleNameLength < length (role_Name role))) ErrInvalidRole) (\<lambda>_.
     ebind (echeck (role_Name role \<notin> role_Name ` found) ErrInvalidRole) (\<lambda>_.
     ebind (echeck (RoleId role \<notin> RoleId ` found) ErrInvalidRole) (\<lambda>_.
     ebind (echeck (role_Permissions role \<notin> role_Permissions ` found) ErrInvalidRole) (\<lambda>_.
       Inr (insert role found))))))"

definition validateActorRoles :: "perm_env \<Rightarrow> Role set \<Rightarrow> string set \<Rightarrow> ActorRoles \<Rightarrow> perm_error + string set" where
  "validateActorRoles E found foundActors actorRoles =
     ebind (of_opt ErrInvalidAddress (FromBech32 E (ar_Actor actorRoles))) (\<lambda>actor.
     ebind (echeck (\<not> HasDuplicate (ar_Roles actorRoles)) ErrInvalidRole) (\<lambda>_.
     ebind (echeck (ToBech32 E actor \<notin> foundActors) ErrInvalidRole) (\<lambda>_.
     ebind (efold (\<lambda>_ role.
              ebind (echeck (role \<in> role_Name ` found) ErrUnknownRole) (\<lambda>_. echeck (role \<noteq> EVERYONE) ErrInvalidRole)) () (ar_Roles actorRoles))
       (\<lambda>_. Inr (insert (ToBech32 E actor) foundActors)))))"

definition validateRoleManager :: "perm_env \<Rightarrow> Role set \<Rightarrow> bool \<Rightarrow> string set \<Rightarrow> RoleManager \<Rightarrow> perm_error + string set" where
  "validateRoleManager E found isForUpdate foundRoleManagers roleManager =
     ebind (of_opt ErrInvalidAddress (FromBech32 E (rm_Manager roleManager))) (\<lambda>manager.
     ebind (echeck (ToBech32 E manager \<notin> foundRoleManagers) ErrInvalidNamespace) (\<lambda>_.
     ebind (echeck (\<not> HasDuplicate (rm_Roles roleManager)) ErrInvalidRole) (\<lambda>_.
     ebind (if isForUpdate then Inr () else efold (\<lambda>_ role. echeck (role \<in> role_Name ` found) ErrUnknownRole) () (rm_Roles roleManager))
       (\<lambda>_. Inr (insert (ToBech32 E manager) foundRoleManagers)))))"

definition ValidateRoles :: "perm_env \<Rightarrow> Namespace \<Rightarrow> bool \<Rightarrow> perm_error + unit" where
  "ValidateRoles E n isForUpdate =
     ebind (validateEveryoneRole n isForUpdate) (\<lambda>_.
     ebind (efold validateRole {} (ns_RolePermissions n)) (\<lambda>found.
     ebind (efold (validateActorRoles E found) {} (ns_ActorRoles n)) (\<lambda>_.
     ebind (efold (validateRoleManager E found isForUpdate) {} (ns_RoleManagers n)) (\<lambda>_. Inr ()))))"

definition validatePolicyStatus :: "Action set \<Rightarrow> PolicyStatus \<Rightarrow> perm_error + Action set" where
  "validatePolicyStatus found policyStatus =
     ebind (echeck (IsValidPolicyActionPermission (ps_Action policyStatus)) ErrInvalidPermission) (\<lambda>_.
     ebind (echeck (ps_Action policyStatus \<notin> found) ErrInvalidNamespace) (\<lambda>_. Inr (insert (ps_Action policyStatus) found)))"

definition validateCapability :: "perm_env \<Rightarrow> (string \<times> Action) set \<Rightarrow> PolicyManagerCapability \<Rightarrow> perm_error + (string \<times> Action) set" where
  "validateCapability E found capability =
     ebind (of_opt ErrInvalidAddress (FromBech32 E (pc_Manager capability))) (\<lambda>manager.
     ebind (echeck (IsValidPolicyActionPermission (pc_Action capability)) ErrInvalidPermission) (\<lambda>_.
     ebind (echeck ((ToBech32 E manager, pc_Action capability) \<notin> found) ErrInvalidNamespace) (\<lambda>_.
       Inr (insert (ToBech32 E manager, pc_Action capability) found))))"

definition ValidatePolicies :: "perm_env \<Rightarrow> Namespace \<Rightarrow> perm_error + unit" where
  "ValidatePolicies E n =
     ebind (efold validatePolicyStatus {} (ns_PolicyStatuses n)) (\<lambda>_.
     ebind (efold (validateCapability E) {} (ns_PolicyManagerCapabilities n)) (\<lambda>_. Inr ()))"

section \<open>Creation of a namespace\<close>

definition NewPolicyStatus :: "Action \<Rightarrow> bool \<Rightarrow> bool \<Rightarrow> PolicyStatus" where
  "NewPolicyStatus action isDisabled isSealed = \<lparr>ps_Action = action, IsDisabled = isDisabled, IsSealed = isSealed\<rparr>"

definition NewDefaultPolicyStatuses :: "PolicyStatus list" where
  "NewDefaultPolicyStatuses = map (\<lambda>action. NewPolicyStatus action False False) Actions"

definition NewDefaultPolicyManagerCapabilities :: "perm_env \<Rightarrow> address \<Rightarrow> PolicyManagerCapability list" where
  "NewDefaultPolicyManagerCapabilities E creator =
     map (\<lambda>action. \<lparr>pc_Manager = ToBech32 E creator, pc_Action = action, CanDisable = True, CanSeal = True\<rparr>) Actions"

definition PopulateEmptyValuesWithDefaults :: "perm_env \<Rightarrow> address \<Rightarrow> Namespace \<Rightarrow> Namespace" where
  "PopulateEmptyValuesWithDefaults E creator n =
     n\<lparr>ns_RoleManagers :=
         (if ns_RoleManagers n = [] then [\<lparr>rm_Manager = ToBech32 E creator, rm_Roles = map role_Name (ns_RolePermissions n)\<rparr>]
          else ns_RoleManagers n),
       ns_PolicyStatuses :=
         (if ns_PolicyStatuses n = [] then NewDefaultPolicyStatuses
          else ns_PolicyStatuses n @ map (\<lambda>action. NewPolicyStatus action False False)
                 (filter (\<lambda>action. action \<notin> ps_Action ` set (ns_PolicyStatuses n)) Actions)),
       ns_PolicyManagerCapabilities :=
         (if ns_PolicyManagerCapabilities n = [] then NewDefaultPolicyManagerCapabilities E creator
          else ns_PolicyManagerCapabilities n)\<rparr>"

definition HasNamespace :: "permissions_state \<Rightarrow> denom \<Rightarrow> bool" where
  "HasNamespace s denom \<longleftrightarrow> map_of (namespaces s) denom \<noteq> None"

definition setNamespace :: "permissions_state \<Rightarrow> Namespace \<Rightarrow> permissions_state" where
  "setNamespace s ns = s\<lparr>namespaces := AList.update (ns_Denom ns) ns (namespaces s)\<rparr>"

definition roleIDsOf :: "(string \<times> 32 word) list \<Rightarrow> string list \<Rightarrow> perm_error + 32 word list" where
  "roleIDsOf roleNameToRoleID names =
     efold (\<lambda>roleIDs roleName. ebind (of_opt ErrUnknownRole (map_of roleNameToRoleID roleName)) (\<lambda>roleID. Inr (roleIDs @ [roleID]))) [] names"

definition createActorRoles ::
  "perm_env \<Rightarrow> (string \<times> 32 word) list \<Rightarrow> denom \<Rightarrow> permissions_state \<Rightarrow> ActorRoles \<Rightarrow> perm_error + permissions_state" where
  "createActorRoles E roleNameToRoleID denom s actorRole =
     ebind (of_opt ErrInvalidAddress (FromBech32 E (ar_Actor actorRole))) (\<lambda>actor.
     ebind (roleIDsOf roleNameToRoleID (ar_Roles actorRole)) (\<lambda>roleIDs. Inr (setActorRoles s denom actor roleIDs)))"

definition createRoleManagers ::
  "perm_env \<Rightarrow> (string \<times> 32 word) list \<Rightarrow> denom \<Rightarrow> permissions_state \<Rightarrow> RoleManager \<Rightarrow> perm_error + permissions_state" where
  "createRoleManagers E roleNameToRoleID denom s managerRoles =
     ebind (of_opt ErrInvalidAddress (FromBech32 E (rm_Manager managerRoles))) (\<lambda>manager.
       efold (\<lambda>s roleName. ebind (of_opt ErrUnknownRole (map_of roleNameToRoleID roleName)) (\<lambda>roleID.
         Inr (setRoleManager s denom manager roleID))) s (rm_Roles managerRoles))"

definition createNamespace :: "perm_env \<Rightarrow> permissions_state \<Rightarrow> Namespace \<Rightarrow> perm_error + permissions_state" where
  "createNamespace E s ns =
     (let denom = ns_Denom ns;
          s = foldl (\<lambda>s role. setRole s denom role) s (ns_RolePermissions ns);
          roleNameToRoleID = foldl (\<lambda>m role. AList.update (role_Name role) (RoleId role) m) [] (ns_RolePermissions ns)
      in ebind (efold (createActorRoles E roleNameToRoleID denom) s (ns_ActorRoles ns)) (\<lambda>s.
         ebind (efold (createRoleManagers E roleNameToRoleID denom) s (ns_RoleManagers ns)) (\<lambda>s.
         let s = foldl (\<lambda>s status. setPolicyStatus s denom status) s (ns_PolicyStatuses ns)
         in ebind (efold (\<lambda>s capability. setPolicyManagerCapability E s denom capability) s (ns_PolicyManagerCapabilities ns)) (\<lambda>s.
            Inr (setNamespace s (ns\<lparr>ns_RolePermissions := [], ns_ActorRoles := [], ns_RoleManagers := [], ns_PolicyStatuses := [],
              ns_PolicyManagerCapabilities := []\<rparr>))))))"

definition DenomPrefix :: string where "DenomPrefix = ''erc20:''"

definition HasPrefix :: "string \<Rightarrow> string \<Rightarrow> bool" where
  "HasPrefix str prefix \<longleftrightarrow> take (length prefix) str = prefix"

definition checkSenderPermissions :: "perm_env \<Rightarrow> address \<Rightarrow> address \<Rightarrow> perm_error + unit" where
  "checkSenderPermissions E sender denomAdmin =
     echeck (\<not> (ToBech32 E sender \<noteq> perm_authority E \<and> sender \<noteq> denomAdmin)) ErrUnauthorized"

definition MsgCreateNamespace_ValidateBasic :: "perm_env \<Rightarrow> string \<Rightarrow> Namespace \<Rightarrow> perm_error + unit" where
  "MsgCreateNamespace_ValidateBasic E sender n =
     ebind (of_opt ErrInvalidAddress (FromBech32 E sender)) (\<lambda>_.
     ebind (echeck (ns_Denom n \<noteq> '''') ErrUnknownDenom) (\<lambda>_.
     ebind (echeck (ns_WasmHook n = '''' \<or> FromBech32 E (ns_WasmHook n) \<noteq> None) ErrInvalidWasmHook) (\<lambda>_.
     ebind (echeck (ns_EvmHook n = '''' \<or> IsHexAddress E (ns_EvmHook n)) ErrInvalidEVMHook) (\<lambda>_.
     ebind (ValidateRoles E n False) (\<lambda>_. ValidatePolicies E n)))))"

definition CreateNamespace :: "perm_env \<Rightarrow> permissions_state \<Rightarrow> string \<Rightarrow> Namespace \<Rightarrow> perm_error + permissions_state" where
  "CreateNamespace E s msg_Sender ns =
     ebind (of_opt PanicBech32 (FromBech32 E msg_Sender)) (\<lambda>sender.
     ebind (echeck (\<not> HasNamespace s (ns_Denom ns)) ErrDenomNamespaceExists) (\<lambda>_.
     ebind (of_opt ErrUnauthorized
              (if HasPrefix (ns_Denom ns) DenomPrefix then getEVMContractOwner E (ns_Denom ns) else GetDenomAdmin E (ns_Denom ns))) (\<lambda>admin.
     ebind (checkSenderPermissions E sender admin) (\<lambda>_.
     ebind (if ns_EvmHook ns \<noteq> '''' then validateEvmHook E (ns_EvmHook ns) else Inr ()) (\<lambda>_.
     ebind (if ns_WasmHook ns \<noteq> ''''
            then ebind (of_opt PanicBech32 (FromBech32 E (ns_WasmHook ns))) (validateWasmHook E) else Inr ()) (\<lambda>_.
       createNamespace E s (PopulateEmptyValuesWithDefaults E sender ns)))))))"


section \<open>Updates\<close>

record NamespaceUpdates =
  HasContractHookChange :: bool
  HasRolePermissionsChange :: bool
  HasRoleManagersChange :: bool
  HasPolicyStatusesChange :: bool
  HasPolicyManagersChange :: bool
  ChangeActions :: "Action list"

definition GetNamespaceUpdates :: "MsgUpdateNamespace \<Rightarrow> NamespaceUpdates" where
  "GetNamespaceUpdates msg =
     (let hook = un_WasmHook msg \<noteq> None \<or> un_EvmHook msg \<noteq> None;
          perms = un_RolePermissions msg \<noteq> [];
          managers = un_RoleManagers msg \<noteq> [];
          policy_managers = un_PolicyManagerCapabilities msg \<noteq> []
      in \<lparr>HasContractHookChange = hook, HasRolePermissionsChange = perms, HasRoleManagersChange = managers,
          HasPolicyStatusesChange = un_PolicyStatuses msg \<noteq> [], HasPolicyManagersChange = policy_managers,
          ChangeActions = (if hook then [Action_MODIFY_CONTRACT_HOOK] else []) @ (if perms then [Action_MODIFY_ROLE_PERMISSIONS] else [])
            @ (if managers then [Action_MODIFY_ROLE_MANAGERS] else [])
            @ (if policy_managers then [Action_MODIFY_POLICY_MANAGERS] else [])\<rparr>)"

definition ValidateNamespaceUpdatePermissions :: "permissions_state \<Rightarrow> address \<Rightarrow> denom \<Rightarrow> NamespaceUpdates \<Rightarrow> perm_error + unit" where
  "ValidateNamespaceUpdatePermissions s sender denom namespaceChanges =
     efold (\<lambda>_ action. echeck (HasPermissionsForAction s denom sender action) ErrUnauthorized) () (ChangeActions namespaceChanges)"

definition MsgUpdateNamespace_ValidateBasic :: "perm_env \<Rightarrow> MsgUpdateNamespace \<Rightarrow> perm_error + unit" where
  "MsgUpdateNamespace_ValidateBasic E msg =
     (let namespace = \<lparr>ns_Denom = un_Denom msg, ns_WasmHook = '''', ns_RolePermissions = un_RolePermissions msg, ns_ActorRoles = [],
            ns_RoleManagers = un_RoleManagers msg, ns_PolicyStatuses = un_PolicyStatuses msg,
            ns_PolicyManagerCapabilities = un_PolicyManagerCapabilities msg, ns_EvmHook = ''''\<rparr>
      in ebind (of_opt ErrInvalidAddress (FromBech32 E (un_Sender msg))) (\<lambda>_.
         ebind (echeck (case un_WasmHook msg of None \<Rightarrow> True | Some v \<Rightarrow> v = '''' \<or> FromBech32 E v \<noteq> None) ErrInvalidWasmHook) (\<lambda>_.
         ebind (echeck (case un_EvmHook msg of None \<Rightarrow> True | Some v \<Rightarrow> v = '''' \<or> IsHexAddress E v) ErrInvalidEVMHook) (\<lambda>_.
         ebind (ValidateRoles E namespace True) (\<lambda>_. ValidatePolicies E namespace)))))"

definition updateWasmHook :: "perm_env \<Rightarrow> string option \<Rightarrow> Namespace \<Rightarrow> perm_error + Namespace" where
  "updateWasmHook E hook namespace =
     (case hook of None \<Rightarrow> Inr namespace
      | Some v \<Rightarrow>
          if v = '''' then Inr (namespace\<lparr>ns_WasmHook := ''''\<rparr>)
          else ebind (of_opt PanicBech32 (FromBech32 E v)) (\<lambda>wasmContract.
               ebind (validateWasmHook E wasmContract) (\<lambda>_. Inr (namespace\<lparr>ns_WasmHook := ToBech32 E wasmContract\<rparr>))))"

definition updateEvmHook :: "perm_env \<Rightarrow> string option \<Rightarrow> Namespace \<Rightarrow> perm_error + Namespace" where
  "updateEvmHook E hook namespace =
     (case hook of None \<Rightarrow> Inr namespace
      | Some v \<Rightarrow>
          if v = '''' then Inr (namespace\<lparr>ns_EvmHook := ''''\<rparr>)
          else ebind (validateEvmHook E v) (\<lambda>_. Inr (namespace\<lparr>ns_EvmHook := ContractHex E v\<rparr>)))"

definition UpdateNamespace :: "perm_env \<Rightarrow> permissions_state \<Rightarrow> MsgUpdateNamespace \<Rightarrow> perm_error + permissions_state" where
  "UpdateNamespace E s msg =
     ebind (of_opt PanicBech32 (FromBech32 E (un_Sender msg))) (\<lambda>sender.
     let denom = un_Denom msg; changes = GetNamespaceUpdates msg
     in (case map_of (namespaces s) denom of
           None \<Rightarrow> Inl ErrUnknownDenom
         | Some namespace \<Rightarrow>
             ebind (ValidateNamespaceUpdatePermissions s sender denom changes) (\<lambda>_.
             ebind (if HasContractHookChange changes
                    then ebind (updateWasmHook E (un_WasmHook msg) namespace) (\<lambda>namespace.
                         ebind (updateEvmHook E (un_EvmHook msg) namespace) (\<lambda>namespace. Inr (setNamespace s namespace)))
                    else Inr s) (\<lambda>s.
             ebind (if HasRolePermissionsChange changes then efold (\<lambda>s role. updateRole s denom role) s (un_RolePermissions msg) else Inr s) (\<lambda>s.
             ebind (if HasRoleManagersChange changes
                    then efold (\<lambda>s roleManager. ebind (of_opt PanicBech32 (FromBech32 E (rm_Manager roleManager))) (\<lambda>manager.
                           updateManagerRoles s denom manager (rm_Roles roleManager))) s (un_RoleManagers msg)
                    else Inr s) (\<lambda>s.
             ebind (if HasPolicyStatusesChange changes
                    then efold (\<lambda>s policyStatus. TryUpdatePolicyStatus s sender denom policyStatus) s (un_PolicyStatuses msg) else Inr s) (\<lambda>s.
               if HasPolicyManagersChange changes
               then efold (\<lambda>s capability. updatePolicyManagerCapability E s denom capability) s (un_PolicyManagerCapabilities msg)
               else Inr s)))))))"

text \<open>The roles of each actor, actors in ascending order, roles in the order of the message.\<close>

definition RoleActorsToActorRoles :: "RoleActors list \<Rightarrow> ActorRoles list" where
  "RoleActorsToActorRoles roleActors =
     map (\<lambda>actor. \<lparr>ar_Actor = actor,
            ar_Roles = concat (map (\<lambda>ra. map (\<lambda>_. ra_Role ra) (filter (\<lambda>a. a = actor) (ra_Actors ra))) roleActors)\<rparr>)
       (sort (remdups (concat (map ra_Actors roleActors))))"

definition GetAffectedRoles :: "MsgUpdateActorRoles \<Rightarrow> string list" where
  "GetAffectedRoles msg =
     foldl (\<lambda>rs role. if role \<in> set rs then rs else rs @ [role]) []
       (map ra_Role (ur_RoleActorsToAdd msg) @ map ra_Role (ur_RoleActorsToRevoke msg))"

definition validateRoleActors :: "perm_env \<Rightarrow> string set \<Rightarrow> RoleActors \<Rightarrow> perm_error + string set" where
  "validateRoleActors E found role =
     ebind (echeck (ra_Role role \<noteq> '''') ErrInvalidRole) (\<lambda>_.
     ebind (echeck (ra_Role role \<noteq> EVERYONE) ErrInvalidRole) (\<lambda>_.
     ebind (echeck (ra_Role role \<notin> found) ErrInvalidRole) (\<lambda>_.
     ebind (echeck (\<not> HasDuplicate (ra_Actors role)) ErrInvalidRole) (\<lambda>_.
     ebind (efold (\<lambda>_ actor. echeck (FromBech32 E actor \<noteq> None) ErrInvalidAddress) () (ra_Actors role)) (\<lambda>_.
       Inr (insert (ra_Role role) found))))))"

definition MsgUpdateActorRoles_ValidateBasic :: "perm_env \<Rightarrow> MsgUpdateActorRoles \<Rightarrow> perm_error + unit" where
  "MsgUpdateActorRoles_ValidateBasic E msg =
     ebind (of_opt ErrInvalidAddress (FromBech32 E (ur_Sender msg))) (\<lambda>_.
     ebind (echeck (ur_Denom msg \<noteq> '''') ErrUnknownDenom) (\<lambda>_.
     ebind (echeck (\<not> (ur_RoleActorsToAdd msg = [] \<and> ur_RoleActorsToRevoke msg = [])) ErrUnknownRole) (\<lambda>_.
     ebind (efold (validateRoleActors E) {} (ur_RoleActorsToAdd msg)) (\<lambda>_.
     ebind (efold (validateRoleActors E) {} (ur_RoleActorsToRevoke msg)) (\<lambda>_. Inr ())))))"

text \<open>Go reads a missing map entry as zero.\<close>

definition actorRoleIDs :: "(string \<times> 32 word) list \<Rightarrow> string list \<Rightarrow> 32 word list" where
  "actorRoleIDs roleIDs rs = map (\<lambda>role. case map_of roleIDs role of None \<Rightarrow> 0 | Some i \<Rightarrow> i) rs"

definition changeActorRoles ::
  "perm_env \<Rightarrow> (permissions_state \<Rightarrow> denom \<Rightarrow> address \<Rightarrow> 32 word list \<Rightarrow> permissions_state) \<Rightarrow> (string \<times> 32 word) list \<Rightarrow> denom
     \<Rightarrow> permissions_state \<Rightarrow> ActorRoles list \<Rightarrow> perm_error + permissions_state" where
  "changeActorRoles E change roleIDs denom s ars =
     efold (\<lambda>s roleActors. ebind (of_opt PanicBech32 (FromBech32 E (ar_Actor roleActors))) (\<lambda>actor.
       Inr (change s denom actor (actorRoleIDs roleIDs (ar_Roles roleActors))))) s ars"

definition UpdateActorRoles :: "perm_env \<Rightarrow> permissions_state \<Rightarrow> MsgUpdateActorRoles \<Rightarrow> perm_error + permissions_state" where
  "UpdateActorRoles E s msg =
     ebind (of_opt PanicBech32 (FromBech32 E (ur_Sender msg))) (\<lambda>sender.
     ebind (echeck (HasNamespace s (ur_Denom msg)) ErrUnknownDenom) (\<lambda>_.
     ebind (verifySenderIsRoleManagerForAffectedRoles s (ur_Denom msg) sender (GetAffectedRoles msg)) (\<lambda>roleIDs.
     ebind (changeActorRoles E addActorRoles roleIDs (ur_Denom msg) s (RoleActorsToActorRoles (ur_RoleActorsToAdd msg))) (\<lambda>s.
       changeActorRoles E revokeActorRoles roleIDs (ur_Denom msg) s (RoleActorsToActorRoles (ur_RoleActorsToRevoke msg))))))"

section \<open>Vouchers\<close>

text \<open>\<open>send\<close> is the bank's transfer out of the module account.\<close>

definition perm_ClaimVoucher ::
  "perm_env \<Rightarrow> ('b \<Rightarrow> address \<Rightarrow> denom \<Rightarrow> int \<Rightarrow> 'e + 'b) \<Rightarrow> 'b \<Rightarrow> permissions_state \<Rightarrow> string \<Rightarrow> denom
     \<Rightarrow> perm_error + 'b \<times> permissions_state" where
  "perm_ClaimVoucher E send b s msg_Sender denom =
     ebind (of_opt PanicBech32 (FromBech32 E msg_Sender)) (\<lambda>receiver.
       case ClaimVoucher (ValidDenom E) send b (vouchers s) receiver denom of
         Inl e \<Rightarrow> Inl (ErrVoucher e)
       | Inr (b, vs) \<Rightarrow> Inr (b, s\<lparr>vouchers := vs\<rparr>))"

section \<open>Restriction of bank sends\<close>

definition getEnforcedRestrictionsEvmContracts :: "perm_env \<Rightarrow> permissions_state \<Rightarrow> string list \<times> permissions_state" where
  "getEnforcedRestrictionsEvmContracts E s =
     (case enforced_cache s of
        Some val \<Rightarrow> (val, s)
      | None \<Rightarrow> let decodedContracts = map (ContractHex E) (enforced_contracts s)
                in (decodedContracts, s\<lparr>enforced_cache := Some decodedContracts\<rparr>))"

definition SetParams :: "permissions_state \<Rightarrow> string list \<Rightarrow> permissions_state" where
  "SetParams s contracts = s\<lparr>enforced_contracts := contracts, enforced_cache := None\<rparr>"

definition Perm_IsEnforcedRestrictionsDenom :: "perm_env \<Rightarrow> permissions_state \<Rightarrow> denom \<Rightarrow> bool \<times> permissions_state" where
  "Perm_IsEnforcedRestrictionsDenom E s denom =
     (let (contracts, s) = getEnforcedRestrictionsEvmContracts E s
      in (list_ex (\<lambda>contract. DenomPrefix @ contract = denom) contracts, s))"

definition IsModuleAcc :: "perm_env \<Rightarrow> address \<Rightarrow> bool" where
  "IsModuleAcc E addr \<longleftrightarrow> List.member (moduleAccounts E) (ToBech32 E addr)"

definition executeWasmHook :: "perm_env \<Rightarrow> Namespace \<Rightarrow> address \<Rightarrow> address \<Rightarrow> denom \<Rightarrow> int \<Rightarrow> perm_error + unit" where
  "executeWasmHook E namespace fromAddr toAddr denom amount =
     (if ns_WasmHook namespace = '''' then Inr ()
      else ebind (of_opt ErrInvalidWasmHook (FromBech32 E (ns_WasmHook namespace))) (\<lambda>contractAddr.
        echeck (QueryWasmHook E contractAddr fromAddr toAddr denom amount) ErrRestrictedAction))"

definition ExecuteEvmHook :: "perm_env \<Rightarrow> Namespace \<Rightarrow> address \<Rightarrow> address \<Rightarrow> denom \<Rightarrow> int \<Rightarrow> perm_error + unit" where
  "ExecuteEvmHook E namespace fromAddr toAddr denom amount =
     (if ns_EvmHook namespace = '''' then Inr ()
      else echeck (callEvmHook E (ns_EvmHook namespace) fromAddr toAddr denom amount = Some False) ErrRestrictedAction)"

definition rerouteToVoucherOnFail ::
  "perm_env \<Rightarrow> permissions_state \<Rightarrow> bool \<Rightarrow> address \<Rightarrow> denom \<Rightarrow> int \<Rightarrow> perm_error \<Rightarrow> permissions_state \<times> address \<times> (perm_error + unit)" where
  "rerouteToVoucherOnFail E s doNotFailFast toAddr denom amount origErr =
     (if \<not> doNotFailFast then (s, toAddr, Inl origErr)
      else (case AddVoucher (ValidDenom E) (vouchers s) toAddr denom amount of
              Inl e \<Rightarrow> (s, toAddr, Inl (ErrVoucher e))
            | Inr vs \<Rightarrow> (s\<lparr>vouchers := vs\<rparr>, perm_module_address E, Inr ())))"

definition checkSend :: "perm_env \<Rightarrow> permissions_state \<Rightarrow> bool \<Rightarrow> address \<Rightarrow> address \<Rightarrow> denom \<Rightarrow> int \<Rightarrow> perm_error + unit" where
  "checkSend E s isEnforcedRestrictionDenom fromAddr toAddr denom amount =
     (if IsModuleAcc E fromAddr \<and> IsModuleAcc E toAddr \<and> \<not> isEnforcedRestrictionDenom then Inr ()
      else (case map_of (namespaces s) denom of
              None \<Rightarrow> Inr ()
            | Some namespace \<Rightarrow>
                let isRecipientTfModule = ToBech32 E toAddr = tfModuleAddress E;
                    canSkipSendPermissionsCheck = isRecipientTfModule \<or> IsModuleAcc E fromAddr
                in ebind (if canSkipSendPermissionsCheck then Inr ()
                          else CheckPermissionsForAction s (ns_Denom namespace) fromAddr Action_SEND) (\<lambda>_.
                   ebind (if isRecipientTfModule then Inr ()
                          else CheckPermissionsForAction s (ns_Denom namespace) toAddr Action_RECEIVE) (\<lambda>_.
                   ebind (executeWasmHook E namespace fromAddr toAddr denom amount) (\<lambda>_.
                     ExecuteEvmHook E namespace fromAddr toAddr denom amount)))))"

definition SendRestrictionFn ::
  "perm_env \<Rightarrow> permissions_state \<Rightarrow> bool \<Rightarrow> address \<Rightarrow> address \<Rightarrow> denom \<Rightarrow> int \<Rightarrow> permissions_state \<times> address \<times> (perm_error + unit)" where
  "SendRestrictionFn E s doNotFailFast fromAddr toAddr denom amount =
     (let (isEnforcedRestrictionDenom, s) = Perm_IsEnforcedRestrictionsDenom E s denom
      in case checkSend E s isEnforcedRestrictionDenom fromAddr toAddr denom amount of
           Inr _ \<Rightarrow> (s, toAddr, Inr ())
         | Inl e \<Rightarrow>
             if e \<in> {ErrRestrictedAction, ErrInvalidWasmHook, ErrInvalidEVMHook, ErrContractHookError} \<and> \<not> isEnforcedRestrictionDenom
             then rerouteToVoucherOnFail E s doNotFailFast toAddr denom amount e
             else (s, toAddr, Inl e))"


section \<open>Bytes of a key\<close>

definition Uint32ToLittleEndian :: "32 word \<Rightarrow> 8 word list" where
  "Uint32ToLittleEndian i = [ucast i, ucast (drop_bit 8 i), ucast (drop_bit 16 i), ucast (drop_bit 24 i)]"

text \<open>\<^term>\<open>None\<close> is the panic on a slice of one to three bytes.\<close>

definition LittleEndianToUint32 :: "8 word list \<Rightarrow> 32 word option" where
  "LittleEndianToUint32 bz =
     (if bz = [] then Some 0
      else if length bz < 4 then None
      else Some (ucast (bz ! 0) OR push_bit 8 (ucast (bz ! 1)) OR push_bit 16 (ucast (bz ! 2)) OR push_bit 24 (ucast (bz ! 3))))"


end
