(* ===== verification/Permission_Laws.thy ===== *)
theory Permission_Laws
  imports Permissions
begin

unbundle bit_operations_syntax

text \<open>
  What the permissions module guarantees: the role stores of a namespace stay consistent under every
  message, sealed policies stay as they are, actors without an explicit role have no administrative
  power, a bank send passes exactly when both parties are allowed, and every refused send that was
  turned into a voucher stays backed by the module account.
\<close>

section \<open>The part of the state that belongs to a denom\<close>

definition part_of :: "permissions_state \<Rightarrow> denom \<Rightarrow> Namespace option \<times> (32 word \<Rightarrow> Role option) \<times> (string \<Rightarrow> 32 word option)
    \<times> (address \<Rightarrow> 32 word list option) \<times> (address \<Rightarrow> 32 word \<Rightarrow> 32 word option) \<times> (Action \<Rightarrow> PolicyStatus option)" where
  "part_of s d = (map_of (namespaces s) d, \<lambda>i. map_of (roles s) (d, i), \<lambda>n. map_of (role_names s) (d, n),
     \<lambda>a. map_of (actor_roles s) (d, a), \<lambda>a i. map_of (role_managers s) (d, a, i), \<lambda>a. map_of (policy_statuses s) (d, a))"

lemma part_of_eq:
  "part_of s d = part_of s' d \<longleftrightarrow> map_of (namespaces s) d = map_of (namespaces s') d
     \<and> (\<forall>i. map_of (roles s) (d, i) = map_of (roles s') (d, i)) \<and> (\<forall>n. map_of (role_names s) (d, n) = map_of (role_names s') (d, n))
     \<and> (\<forall>a. map_of (actor_roles s) (d, a) = map_of (actor_roles s') (d, a))
     \<and> (\<forall>a i. map_of (role_managers s) (d, a, i) = map_of (role_managers s') (d, a, i))
     \<and> (\<forall>a. map_of (policy_statuses s) (d, a) = map_of (policy_statuses s') (d, a))"
  by (simp add: part_of_def fun_eq_iff)

named_theorems elsewhere \<open>operations leave the other denoms alone\<close>

lemma elsewhere_writes [elsewhere]:
  assumes "d' \<noteq> d"
  shows "part_of (setRole s d role) d' = part_of s d'" "part_of (setActorRoles s d a ids) d' = part_of s d'"
    "part_of (setRoleManager s d m i) d' = part_of s d'" "part_of (deleteManagerRole s d m i) d' = part_of s d'"
    "part_of (setPolicyStatus s d st) d' = part_of s d'" "part_of (setNamespace s (ns\<lparr>ns_Denom := d\<rparr>)) d' = part_of s d'"
  using assms
  by (auto simp: part_of_eq setRole_def setActorRoles_def setRoleManager_def deleteManagerRole_def setPolicyStatus_def setNamespace_def
      update_conv' delete_conv')

definition roles_ok :: "permissions_state \<Rightarrow> denom \<Rightarrow> bool" where
  "roles_ok s d \<longleftrightarrow>
     (\<forall>i r. map_of (roles s) (d, i) = Some r \<longrightarrow> RoleId r = i \<and> role_Name r \<noteq> '''' \<and> map_of (role_names s) (d, role_Name r) = Some i)
     \<and> (\<forall>n i. map_of (role_names s) (d, n) = Some i \<longrightarrow> (\<exists>r. map_of (roles s) (d, i) = Some r \<and> role_Name r = n))"

definition refs_ok :: "permissions_state \<Rightarrow> denom \<Rightarrow> bool" where
  "refs_ok s d \<longleftrightarrow>
     (\<forall>a ids. map_of (actor_roles s) (d, a) = Some ids \<longrightarrow> ids \<noteq> [] \<and> (\<forall>i \<in> set ids. map_of (roles s) (d, i) \<noteq> None))
     \<and> (\<forall>a i j. map_of (role_managers s) (d, a, i) = Some j \<longrightarrow> j = i \<and> map_of (roles s) (d, i) \<noteq> None)"

definition everyone_ok :: "permissions_state \<Rightarrow> denom \<Rightarrow> bool" where
  "everyone_ok s d \<longleftrightarrow> (\<exists>i r. map_of (role_names s) (d, EVERYONE) = Some i \<and> map_of (roles s) (d, i) = Some r
     \<and> role_Permissions r AND DisallowedEveryoneActions = 0)"

definition policies_ok :: "permissions_state \<Rightarrow> denom \<Rightarrow> bool" where
  "policies_ok s d \<longleftrightarrow> (\<forall>a \<in> set Actions. map_of (policy_statuses s) (d, a) \<noteq> None)"

definition no_entries :: "permissions_state \<Rightarrow> denom \<Rightarrow> bool" where
  "no_entries s d \<longleftrightarrow> (\<forall>i. map_of (roles s) (d, i) = None) \<and> (\<forall>n. map_of (role_names s) (d, n) = None)
     \<and> (\<forall>a. map_of (actor_roles s) (d, a) = None) \<and> (\<forall>a i. map_of (role_managers s) (d, a, i) = None)
     \<and> (\<forall>a. map_of (policy_statuses s) (d, a) = None)"

definition denom_ok :: "permissions_state \<Rightarrow> denom \<Rightarrow> bool" where
  "denom_ok s d \<longleftrightarrow>
     (case map_of (namespaces s) d of
        None \<Rightarrow> no_entries s d
      | Some ns \<Rightarrow> ns_Denom ns = d \<and> roles_ok s d \<and> refs_ok s d \<and> everyone_ok s d \<and> policies_ok s d)"

definition perm_ok :: "permissions_state \<Rightarrow> bool" where
  "perm_ok s \<longleftrightarrow> (\<forall>d. denom_ok s d)"

lemma part_cong:
  assumes "part_of s d = part_of s' d"
  shows "roles_ok s d = roles_ok s' d" "refs_ok s d = refs_ok s' d" "everyone_ok s d = everyone_ok s' d"
    "policies_ok s d = policies_ok s' d" "denom_ok s d = denom_ok s' d"
proof -
  note e = assms [unfolded part_of_eq]
  show r: "roles_ok s d = roles_ok s' d" "refs_ok s d = refs_ok s' d" "everyone_ok s d = everyone_ok s' d"
    "policies_ok s d = policies_ok s' d"
    by (simp_all add: roles_ok_def refs_ok_def everyone_ok_def policies_ok_def e)
  have "no_entries s d = no_entries s' d" by (simp add: no_entries_def e)
  then show "denom_ok s d = denom_ok s' d" by (simp add: denom_ok_def e r split: option.split)
qed

section \<open>Operations on the stores of a namespace\<close>

definition live :: "permissions_state \<Rightarrow> denom \<Rightarrow> bool" where
  "live s d \<longleftrightarrow> (\<exists>ns. map_of (namespaces s) d = Some ns \<and> ns_Denom ns = d) \<and> roles_ok s d \<and> refs_ok s d \<and> everyone_ok s d \<and> policies_ok s d"

lemma live_iff: "live s d \<longleftrightarrow> denom_ok s d \<and> HasNamespace s d"
  by (auto simp: live_def denom_ok_def HasNamespace_def split: option.splits)

lemma live_cong: "part_of s d = part_of s' d \<Longrightarrow> live s d = live s' d"
  using part_cong [of s d s'] by (simp add: live_def part_of_eq)

lemma role_by_id:
  assumes "roles_ok s d" "map_of (roles s) (d, i) = Some r"
  shows "RoleId r = i" "role_Name r \<noteq> ''''" "map_of (role_names s) (d, role_Name r) = Some i"
  using assms unfolding roles_ok_def by blast+

lemma role_by_name:
  assumes "roles_ok s d" "map_of (role_names s) (d, n) = Some i"
  obtains r where "map_of (roles s) (d, i) = Some r" "role_Name r = n" "RoleId r = i"
  using assms unfolding roles_ok_def by blast

lemma GetRoleByName_ok:
  assumes "roles_ok s d" "GetRoleByName s d n = Inr r"
  shows "map_of (role_names s) (d, n) = Some (RoleId r) \<and> map_of (roles s) (d, RoleId r) = Some r"
  using assms(2) role_by_id(1) [OF assms(1)]
  by (auto simp: GetRoleByName_def GetRoleID_def GetRoleByID_def split: option.splits if_splits)

definition role_fits :: "permissions_state \<Rightarrow> denom \<Rightarrow> Role \<Rightarrow> bool" where
  "role_fits s d role \<longleftrightarrow> role_Name role \<noteq> ''''
     \<and> (map_of (role_names s) (d, role_Name role) = None \<and> map_of (roles s) (d, RoleId role) = None
        \<or> map_of (role_names s) (d, role_Name role) = Some (RoleId role))"

lemma setRole_stores [simp]:
  "map_of (roles (setRole s d role)) = (map_of (roles s))((d, RoleId role) \<mapsto> role)"
  "map_of (role_names (setRole s d role)) = (map_of (role_names s))((d, role_Name role) \<mapsto> RoleId role)"
  "actor_roles (setRole s d role) = actor_roles s" "role_managers (setRole s d role) = role_managers s"
  "policy_statuses (setRole s d role) = policy_statuses s" "namespaces (setRole s d role) = namespaces s"
  "vouchers (setRole s d role) = vouchers s"
  by (simp_all add: setRole_def update_conv')

lemma other_role:
  assumes "roles_ok s d" "role_fits s d role" "map_of (role_names s) (d, n) = Some i" "n \<noteq> role_Name role"
  shows "i \<noteq> RoleId role"
proof
  assume i: "i = RoleId role"
  obtain r where r: "map_of (roles s) (d, i) = Some r" "role_Name r = n" by (rule role_by_name [OF assms(1,3)])
  then have "map_of (role_names s) (d, role_Name role) = Some i" using assms(2) i by (auto simp: role_fits_def)
  then obtain r' where "map_of (roles s) (d, i) = Some r'" "role_Name r' = role_Name role" by (rule role_by_name [OF assms(1)])
  then show False using r assms(4) by simp
qed

lemma setRole_roles_ok:
  assumes "roles_ok s d" "role_fits s d role"
  shows "roles_ok (setRole s d role) d"
  unfolding roles_ok_def
proof (intro conjI allI impI)
  fix i r
  assume a: "map_of (roles (setRole s d role)) (d, i) = Some r"
  have "RoleId r = i \<and> role_Name r \<noteq> '''' \<and> map_of (role_names (setRole s d role)) (d, role_Name r) = Some i"
  proof (cases "i = RoleId role")
    case True
    then show ?thesis using a assms(2) by (simp add: role_fits_def)
  next
    case False
    then have "map_of (roles s) (d, i) = Some r" using a by simp
    note r = role_by_id [OF assms(1) this]
    then have "role_Name r \<noteq> role_Name role" using assms(2) False by (auto simp: role_fits_def)
    then show ?thesis using r by simp
  qed
  then show "RoleId r = i" "role_Name r \<noteq> ''''" "map_of (role_names (setRole s d role)) (d, role_Name r) = Some i" by blast+
next
  fix n i
  assume a: "map_of (role_names (setRole s d role)) (d, n) = Some i"
  show "\<exists>r. map_of (roles (setRole s d role)) (d, i) = Some r \<and> role_Name r = n"
  proof (cases "n = role_Name role")
    case False
    then have n: "map_of (role_names s) (d, n) = Some i" using a by simp
    then obtain r where "map_of (roles s) (d, i) = Some r" "role_Name r = n" by (rule role_by_name [OF assms(1)])
    then show ?thesis using other_role [OF assms n False] by simp
  qed (use a in auto)
qed

lemma setRole_refs_ok: "refs_ok s d \<Longrightarrow> refs_ok (setRole s d role) d"
  by (simp add: refs_ok_def) blast

lemma setRole_live:
  assumes "live s d" "role_fits s d role" "role_Name role = EVERYONE \<longrightarrow> role_Permissions role AND DisallowedEveryoneActions = 0"
  shows "live (setRole s d role) d"
proof -
  obtain i r where e: "map_of (role_names s) (d, EVERYONE) = Some i" "map_of (roles s) (d, i) = Some r"
    "role_Permissions r AND DisallowedEveryoneActions = 0"
    using assms(1) by (auto simp: live_def everyone_ok_def)
  have r: "roles_ok s d" using assms(1) by (simp add: live_def)
  have "everyone_ok (setRole s d role) d"
  proof (cases "role_Name role = EVERYONE")
    case True
    then show ?thesis using assms(3) by (simp add: everyone_ok_def)
  next
    case False
    then have "i \<noteq> RoleId role" using other_role [OF r assms(2) e(1)] by simp
    then show ?thesis using e False by (simp add: everyone_ok_def)
  qed
  then show ?thesis using assms setRole_roles_ok setRole_refs_ok by (simp add: live_def policies_ok_def)
qed

lemma updateRole_ok:
  assumes "updateRole s d role = Inr s'" "roles_ok s d" "role_Name role \<noteq> ''''"
  shows "s' = setRole s d role \<and> role_fits s d role"
  using assms GetRoleByName_ok [OF assms(2), of "role_Name role"]
  by (auto simp: updateRole_def Let_def HasRoleName_def HasRoleID_def role_fits_def split: if_splits)

lemma setActorRoles_live:
  assumes "live s d" "\<forall>i \<in> set ids. map_of (roles s) (d, i) \<noteq> None"
  shows "live (setActorRoles s d a ids) d"
  using assms
  by (simp add: live_def setActorRoles_def roles_ok_def refs_ok_def everyone_ok_def policies_ok_def update_conv' delete_conv')

lemma setRoleManager_live:
  "live s d \<Longrightarrow> map_of (roles s) (d, i) \<noteq> None \<Longrightarrow> live (setRoleManager s d m i) d"
  by (simp add: live_def setRoleManager_def roles_ok_def refs_ok_def everyone_ok_def policies_ok_def update_conv')

lemma deleteManagerRole_live: "live s d \<Longrightarrow> live (deleteManagerRole s d m i) d"
  by (simp add: live_def deleteManagerRole_def roles_ok_def refs_ok_def everyone_ok_def policies_ok_def delete_conv')

lemma setPolicyStatus_live: "live s d \<Longrightarrow> live (setPolicyStatus s d st) d"
  by (simp add: live_def setPolicyStatus_def roles_ok_def refs_ok_def everyone_ok_def policies_ok_def update_conv')


section \<open>Messages\<close>

text \<open>What the steps of an update keep, from the state at the start of the message on.\<close>

definition kept :: "permissions_state \<Rightarrow> denom \<Rightarrow> permissions_state \<Rightarrow> bool" where
  "kept s0 d s \<longleftrightarrow> live s d \<and> (\<forall>d'. d' \<noteq> d \<longrightarrow> part_of s d' = part_of s0 d') \<and> vouchers s = vouchers s0
     \<and> (\<forall>a st. map_of (policy_statuses s0) (d, a) = Some st \<longrightarrow> IsSealed st \<longrightarrow> map_of (policy_statuses s) (d, a) = Some st)"

lemma kept_start: "live s d \<Longrightarrow> kept s d s"
  by (simp add: kept_def)

lemma frame [simp]:
  "policy_statuses (setActorRoles s d a ids) = policy_statuses s" "vouchers (setActorRoles s d a ids) = vouchers s"
  "roles (setActorRoles s d a ids) = roles s" "role_names (setActorRoles s d a ids) = role_names s"
  "namespaces (setActorRoles s d a ids) = namespaces s"
  "policy_statuses (setRoleManager s d m i) = policy_statuses s" "vouchers (setRoleManager s d m i) = vouchers s"
  "roles (setRoleManager s d m i) = roles s" "role_names (setRoleManager s d m i) = role_names s"
  "namespaces (setRoleManager s d m i) = namespaces s"
  "policy_statuses (deleteManagerRole s d m i) = policy_statuses s" "vouchers (deleteManagerRole s d m i) = vouchers s"
  "vouchers (setPolicyStatus s d st) = vouchers s" "namespaces (setPolicyStatus s d st) = namespaces s"
  "roles (setPolicyStatus s d st) = roles s" "role_names (setPolicyStatus s d st) = role_names s"
  "actor_roles (setPolicyStatus s d st) = actor_roles s" "role_managers (setPolicyStatus s d st) = role_managers s"
  by (simp_all add: setActorRoles_def setRoleManager_def deleteManagerRole_def setPolicyStatus_def)

lemma kept_updateRole:
  assumes "kept s0 d s" "updateRole s d role = Inr s'" "role_Name role \<noteq> ''''"
    "role_Name role = EVERYONE \<longrightarrow> role_Permissions role AND DisallowedEveryoneActions = 0"
  shows "kept s0 d s'"
  using assms updateRole_ok [OF assms(2)] setRole_live [of s d role] elsewhere_writes(1) [of _ d s role]
  by (auto simp: kept_def live_def)

lemma kept_setActorRoles:
  assumes "kept s0 d s" "\<forall>i \<in> set ids. map_of (roles s) (d, i) \<noteq> None"
  shows "kept s0 d (setActorRoles s d a ids)"
  using assms setActorRoles_live [of s d ids a] elsewhere_writes(2) [of _ d s a ids] by (auto simp: kept_def)

lemma kept_setRoleManager:
  assumes "kept s0 d s" "map_of (roles s) (d, i) \<noteq> None"
  shows "kept s0 d (setRoleManager s d m i)"
  using assms setRoleManager_live [of s d i m] elsewhere_writes(3) [of _ d s m i] by (auto simp: kept_def)

lemma kept_deleteManagerRole: "kept s0 d s \<Longrightarrow> kept s0 d (deleteManagerRole s d m i)"
  using deleteManagerRole_live [of s d m i] elsewhere_writes(4) [of _ d s m i] by (auto simp: kept_def)

lemma kept_updateManagerRoles:
  assumes "kept s0 d s" "updateManagerRoles s d m rs = Inr s'"
  shows "kept s0 d s'"
proof (cases "rs = []")
  case True
  have "kept s0 d (foldl (\<lambda>s i. deleteManagerRole s d m i) s ids)" for ids
    using assms(1) by (induction ids arbitrary: s) (auto intro: kept_deleteManagerRole)
  then show ?thesis using True assms(2) by (auto simp: updateManagerRoles_def deleteManagerFromAllRoles_def)
next
  case False
  then have e: "efold (\<lambda>s roleName. ebind (GetRoleByName s d roleName) (\<lambda>role. Inr (setRoleManager s d m (RoleId role)))) s rs = Inr s'"
    using assms(2) by (simp add: updateManagerRoles_def)
  show ?thesis
  proof (rule efold_invariant [OF e, of "kept s0 d", OF assms(1)])
    fix u v n
    assume u: "kept s0 d u" "ebind (GetRoleByName u d n) (\<lambda>role. Inr (setRoleManager u d m (RoleId role))) = Inr v"
    then obtain r where r: "GetRoleByName u d n = Inr r" "v = setRoleManager u d m (RoleId r)" by auto
    have "roles_ok u d" using u(1) by (simp add: kept_def live_def)
    then show "kept s0 d v" using kept_setRoleManager [OF u(1)] GetRoleByName_ok [of u d n r] r by simp
  qed
qed

lemma kept_TryUpdatePolicyStatus:
  assumes "kept s0 d s" "TryUpdatePolicyStatus s sender d st = Inr s'"
  shows "kept s0 d s'"
proof -
  obtain old where o: "map_of (policy_statuses s) (d, ps_Action st) = Some old" "\<not> IsSealed old" "s' = setPolicyStatus s d st"
    using assms(2) by (auto simp: TryUpdatePolicyStatus_def GetPolicyStatus_def split: if_splits)
  then have "map_of (policy_statuses s0) (d, ps_Action st) = Some st' \<Longrightarrow> \<not> IsSealed st'" for st'
    using assms(1) by (auto simp: kept_def)
  then show ?thesis
    using assms(1) o(3) setPolicyStatus_live [of s d st] elsewhere_writes(5) [of _ d s st]
    by (auto simp: kept_def setPolicyStatus_def update_conv')
qed

lemma kept_updatePolicyManagerCapability:
  assumes "kept s0 d s" "updatePolicyManagerCapability E s d c = Inr s'"
  shows "kept s0 d s'"
proof -
  have "part_of s' d' = part_of s d'" "vouchers s' = vouchers s" "policy_statuses s' = policy_statuses s" for d'
    using assms(2) by (auto simp: updatePolicyManagerCapability_def deletePolicyManagerCapability_def setPolicyManagerCapability_def
        part_of_eq split: if_splits)
  then show ?thesis using assms(1) live_cong [of s' d s] by (simp add: kept_def)
qed


definition roles_valid :: "Role list \<Rightarrow> bool" where
  "roles_valid rs \<longleftrightarrow> distinct (map role_Name rs) \<and> distinct (map RoleId rs)
     \<and> (\<forall>r \<in> set rs. role_Name r \<noteq> '''' \<and> (role_Name r = EVERYONE \<longrightarrow> role_Permissions r AND DisallowedEveryoneActions = 0))"

lemma validateRole_Inr:
  "validateRole F r = Inr G \<Longrightarrow> G = insert r F \<and> role_Name r \<noteq> '''' \<and> role_Name r \<notin> role_Name ` F \<and> RoleId r \<notin> RoleId ` F"
  by (simp add: validateRole_def)

lemma validateRoles_fold:
  assumes "efold validateRole F rs = Inr G"
  shows "G = F \<union> set rs \<and> distinct (map role_Name rs) \<and> distinct (map RoleId rs)
    \<and> (\<forall>r \<in> set rs. role_Name r \<noteq> '''' \<and> role_Name r \<notin> role_Name ` F \<and> RoleId r \<notin> RoleId ` F)"
  using assms
proof (induction rs arbitrary: F)
  case (Cons r rs)
  have h: "efold validateRole (insert r F) rs = Inr G" "role_Name r \<noteq> ''''" "role_Name r \<notin> role_Name ` F" "RoleId r \<notin> RoleId ` F"
    using Cons.prems validateRole_Inr [of F r] by auto
  note ih = Cons.IH [OF h(1)]
  show ?case
  proof (intro conjI)
    show "G = F \<union> set (r # rs)" using ih by simp
    show "distinct (map role_Name (r # rs))" "distinct (map RoleId (r # rs))" using ih by (auto simp: image_iff)
    show "\<forall>x \<in> set (r # rs). role_Name x \<noteq> '''' \<and> role_Name x \<notin> role_Name ` F \<and> RoleId x \<notin> RoleId ` F"
      using ih h(2-4) by simp
  qed
qed simp

lemma ValidateRoles_ok:
  assumes "ValidateRoles E n upd = Inr u"
  shows "roles_valid (ns_RolePermissions n)" "upd \<or> (\<exists>r \<in> set (ns_RolePermissions n). role_Name r = EVERYONE)"
proof -
  obtain G where e: "validateEveryoneRole n upd = Inr ()" and G: "efold validateRole {} (ns_RolePermissions n) = Inr G"
    using assms by (auto simp: ValidateRoles_def)
  note f = validateRoles_fold [OF G]
  have "role_Permissions r AND DisallowedEveryoneActions = 0" if a: "r \<in> set (ns_RolePermissions n)" "role_Name r = EVERYONE" for r
  proof -
    obtain r' where r': "List.find (\<lambda>r. role_Name r = EVERYONE) (ns_RolePermissions n) = Some r'"
      using a by (cases "List.find (\<lambda>r. role_Name r = EVERYONE) (ns_RolePermissions n)") (auto simp: find_None_iff)
    then have "r' \<in> set (ns_RolePermissions n)" "role_Name r' = EVERYONE" by (auto simp: find_Some_iff)
    then have "r' = r" using a f by (auto simp: distinct_map inj_on_def)
    then show ?thesis using e r' by (simp add: validateEveryoneRole_def)
  qed
  then show "roles_valid (ns_RolePermissions n)" using f by (auto simp: roles_valid_def)
  show "upd \<or> (\<exists>r \<in> set (ns_RolePermissions n). role_Name r = EVERYONE)"
    using e by (auto simp: validateEveryoneRole_def find_Some_iff split: option.splits)
qed

text \<open>A conditional phase of the update handler.\<close>

lemma kept_phase:
  assumes "kept s0 d s" "(if c then efold f s xs else Inr s) = Inr s'"
    and "\<And>u v x. x \<in> set xs \<Longrightarrow> kept s0 d u \<Longrightarrow> f u x = Inr v \<Longrightarrow> kept s0 d v"
  shows "kept s0 d s'"
  using assms by (cases c) (auto intro: efold_invariant [of f s xs s' "kept s0 d"])

lemma updated_hooks_denom:
  "updateWasmHook E h ns = Inr ns' \<Longrightarrow> ns_Denom ns' = ns_Denom ns" "updateEvmHook E h ns = Inr ns' \<Longrightarrow> ns_Denom ns' = ns_Denom ns"
  by (auto simp: updateWasmHook_def updateEvmHook_def split: option.splits if_splits)

lemma kept_setNamespace:
  assumes "kept s0 d s" "ns_Denom ns = d"
  shows "kept s0 d (setNamespace s ns)"
proof -
  have "part_of (setNamespace s ns) d' = part_of s d'" if "d' \<noteq> d" for d'
    using that assms(2) by (simp add: part_of_eq setNamespace_def update_conv')
  then show ?thesis using assms
    by (simp add: kept_def live_def setNamespace_def update_conv' roles_ok_def refs_ok_def everyone_ok_def policies_ok_def)
qed

lemma UpdateNamespace_kept:
  assumes "UpdateNamespace E s msg = Inr s'" "MsgUpdateNamespace_ValidateBasic E msg = Inr u" "perm_ok s"
  shows "kept s (un_Denom msg) s'"
proof -
  let ?d = "un_Denom msg"
  have rv: "roles_valid (un_RolePermissions msg)"
    using assms(2) ValidateRoles_ok(1) by (fastforce simp: MsgUpdateNamespace_ValidateBasic_def Let_def)
  obtain sender ns s1 s2 s3 s4 where ns: "map_of (namespaces s) ?d = Some ns"
    and p1: "(if HasContractHookChange (GetNamespaceUpdates msg)
        then ebind (updateWasmHook E (un_WasmHook msg) ns) (\<lambda>ns. ebind (updateEvmHook E (un_EvmHook msg) ns) (\<lambda>ns. Inr (setNamespace s ns)))
        else Inr s) = Inr s1"
    and p2: "(if HasRolePermissionsChange (GetNamespaceUpdates msg)
        then efold (\<lambda>s role. updateRole s ?d role) s1 (un_RolePermissions msg) else Inr s1) = Inr s2"
    and p3: "(if HasRoleManagersChange (GetNamespaceUpdates msg)
        then efold (\<lambda>s rm. ebind (of_opt PanicBech32 (FromBech32 E (rm_Manager rm))) (\<lambda>manager.
               updateManagerRoles s ?d manager (rm_Roles rm))) s2 (un_RoleManagers msg) else Inr s2) = Inr s3"
    and p4: "(if HasPolicyStatusesChange (GetNamespaceUpdates msg)
        then efold (\<lambda>s st. TryUpdatePolicyStatus s sender ?d st) s3 (un_PolicyStatuses msg) else Inr s3) = Inr s4"
    and p5: "(if HasPolicyManagersChange (GetNamespaceUpdates msg)
        then efold (\<lambda>s c. updatePolicyManagerCapability E s ?d c) s4 (un_PolicyManagerCapabilities msg) else Inr s4) = Inr s'"
    using assms(1) unfolding UpdateNamespace_def Let_def ebind_eq_Inr
    by (cases "map_of (namespaces s) ?d") (simp_all only: option.case ebind_eq_Inr Inl_Inr_False simp_thms, blast)
  have "live s ?d" using assms(3) ns by (simp add: live_iff perm_ok_def HasNamespace_def)
  then have k0: "kept s ?d s" and "ns_Denom ns = ?d" using ns by (auto simp: kept_start live_def)
  then have "kept s ?d s1" using p1 kept_setNamespace [OF k0] updated_hooks_denom by (fastforce split: if_splits)
  then have "kept s ?d s2"
    by (rule kept_phase [OF _ p2]) (use rv in \<open>auto simp: roles_valid_def intro: kept_updateRole\<close>)
  then have "kept s ?d s3" by (rule kept_phase [OF _ p3]) (auto intro: kept_updateManagerRoles)
  then have "kept s ?d s4" by (rule kept_phase [OF _ p4]) (auto intro: kept_TryUpdatePolicyStatus)
  then show ?thesis by (rule kept_phase [OF _ p5]) (auto intro: kept_updatePolicyManagerCapability)
qed

lemma kept_perm_ok: "perm_ok s \<Longrightarrow> kept s d s' \<Longrightarrow> perm_ok s'"
  unfolding perm_ok_def kept_def live_iff using part_cong(5) by metis


section \<open>Actors and their roles\<close>

lemma GetActorRoleIDs_set:
  "GetActorRoleIDs (setActorRoles s d a ids) d' a' = (if d' = d \<and> a' = a then ids else GetActorRoleIDs s d' a')"
  by (auto simp: GetActorRoleIDs_def setActorRoles_def update_conv' delete_conv')

lemma added_ids: "set (GetActorRoleIDs (addActorRoles s d a ids) d a') = set (GetActorRoleIDs s d a') \<union> (if a' = a then set ids else {})"
  by (simp add: addActorRoles_def GetActorRoleIDs_set)

lemma revoked_ids: "set (GetActorRoleIDs (revokeActorRoles s d a ids) d a') = set (GetActorRoleIDs s d a') - (if a' = a then set ids else {})"
  by (auto simp: revokeActorRoles_def GetActorRoleIDs_set)

definition ids_for :: "perm_env \<Rightarrow> (string \<times> 32 word) list \<Rightarrow> ActorRoles list \<Rightarrow> address \<Rightarrow> 32 word set" where
  "ids_for E roleIDs ars a = (\<Union>ar \<in> {ar \<in> set ars. FromBech32 E (ar_Actor ar) = Some a}. set (actorRoleIDs roleIDs (ar_Roles ar)))"

lemma ids_for_simps [simp]:
  "ids_for E roleIDs [] a = {}"
  "ids_for E roleIDs (ar # ars) a
     = (if FromBech32 E (ar_Actor ar) = Some a then set (actorRoleIDs roleIDs (ar_Roles ar)) else {}) \<union> ids_for E roleIDs ars a"
  by (auto simp: ids_for_def)

lemma changeActorRoles_Cons:
  assumes "changeActorRoles E f roleIDs d s (ar # ars) = Inr s'"
  obtains x where "FromBech32 E (ar_Actor ar) = Some x"
    "changeActorRoles E f roleIDs d (f s d x (actorRoleIDs roleIDs (ar_Roles ar))) ars = Inr s'"
  using assms by (auto simp: changeActorRoles_def)

lemma changeActorRoles_add:
  assumes "changeActorRoles E addActorRoles roleIDs d s ars = Inr s'"
  shows "set (GetActorRoleIDs s' d a) = set (GetActorRoleIDs s d a) \<union> ids_for E roleIDs ars a"
  using assms
proof (induction ars arbitrary: s)
  case (Cons ar ars)
  obtain x where "FromBech32 E (ar_Actor ar) = Some x"
    "changeActorRoles E addActorRoles roleIDs d (addActorRoles s d x (actorRoleIDs roleIDs (ar_Roles ar))) ars = Inr s'"
    by (rule changeActorRoles_Cons [OF Cons.prems])
  then show ?case using Cons.IH by (auto simp: added_ids)
qed (simp add: changeActorRoles_def)

lemma changeActorRoles_revoke:
  assumes "changeActorRoles E revokeActorRoles roleIDs d s ars = Inr s'"
  shows "set (GetActorRoleIDs s' d a) = set (GetActorRoleIDs s d a) - ids_for E roleIDs ars a"
  using assms
proof (induction ars arbitrary: s)
  case (Cons ar ars)
  obtain x where "FromBech32 E (ar_Actor ar) = Some x"
    "changeActorRoles E revokeActorRoles roleIDs d (revokeActorRoles s d x (actorRoleIDs roleIDs (ar_Roles ar))) ars = Inr s'"
    by (rule changeActorRoles_Cons [OF Cons.prems])
  then show ?case using Cons.IH by (auto simp: revoked_ids)
qed (simp add: changeActorRoles_def)

lemma affected_roles: "set (GetAffectedRoles msg) = ra_Role ` (set (ur_RoleActorsToAdd msg) \<union> set (ur_RoleActorsToRevoke msg))"
proof -
  have "set (foldl (\<lambda>rs role. if role \<in> set rs then rs else rs @ [role]) acc xs) = set acc \<union> set xs" for acc xs :: "string list"
    by (induction xs arbitrary: acc) auto
  then show ?thesis by (simp add: GetAffectedRoles_def image_Un)
qed

lemma verified_ids:
  assumes "verifySenderIsRoleManagerForAffectedRoles s d sender rs = Inr ids" "n \<in> set rs"
  shows "\<exists>i. map_of ids n = Some i \<and> GetRoleID s d n = Some i \<and> isRoleManager s d sender i"
proof -
  have "n \<in> set rs \<or> n \<in> set N \<Longrightarrow> efold (\<lambda>roleIDs roleName.
       (case GetRoleID s d roleName of None \<Rightarrow> Inl ErrUnauthorized
        | Some roleID \<Rightarrow> if isRoleManager s d sender roleID then Inr (AList.update roleName roleID roleIDs) else Inl ErrUnauthorized))
      acc rs = Inr ids \<Longrightarrow> \<forall>n \<in> set N. \<exists>i. map_of acc n = Some i \<and> GetRoleID s d n = Some i \<and> isRoleManager s d sender i
      \<Longrightarrow> \<exists>i. map_of ids n = Some i \<and> GetRoleID s d n = Some i \<and> isRoleManager s d sender i" for acc N
  proof (induction rs arbitrary: acc N)
    case (Cons r rs)
    from Cons.prems(2) obtain i where i: "GetRoleID s d r = Some i" "isRoleManager s d sender i"
      "efold (\<lambda>roleIDs roleName.
       (case GetRoleID s d roleName of None \<Rightarrow> Inl ErrUnauthorized
        | Some roleID \<Rightarrow> if isRoleManager s d sender roleID then Inr (AList.update roleName roleID roleIDs) else Inl ErrUnauthorized))
      (AList.update r i acc) rs = Inr ids"
      by (auto split: option.splits if_splits)
    show ?case
      by (rule Cons.IH [OF _ i(3), of "r # N"]) (use Cons.prems i in \<open>auto simp: update_conv'\<close>)
  qed auto
  from this [of "[]" "[]"] show ?thesis using assms by (simp add: verifySenderIsRoleManagerForAffectedRoles_def)
qed

text \<open>The role ids a list of role-actor assignments stands for.\<close>

definition assigned :: "perm_env \<Rightarrow> permissions_state \<Rightarrow> denom \<Rightarrow> RoleActors list \<Rightarrow> address \<Rightarrow> 32 word set" where
  "assigned E s d ras a = {i. \<exists>ra \<in> set ras. \<exists>x \<in> set (ra_Actors ra). FromBech32 E x = Some a \<and> GetRoleID s d (ra_Role ra) = Some i}"

lemma ids_for_assigned:
  assumes "\<forall>ra \<in> set ras. \<exists>i. map_of ids (ra_Role ra) = Some i \<and> GetRoleID s d (ra_Role ra) = Some i"
  shows "ids_for E ids (RoleActorsToActorRoles ras) a = assigned E s d ras a"
proof -
  have e: "(case map_of ids (ra_Role ra) of None \<Rightarrow> 0 | Some i \<Rightarrow> i) = i \<longleftrightarrow> GetRoleID s d (ra_Role ra) = Some i" if "ra \<in> set ras" for ra i
    using assms that by fastforce
  have "i \<in> ids_for E ids (RoleActorsToActorRoles ras) a \<longleftrightarrow>
      (\<exists>ra \<in> set ras. \<exists>x \<in> set (ra_Actors ra). FromBech32 E x = Some a \<and> (case map_of ids (ra_Role ra) of None \<Rightarrow> 0 | Some i \<Rightarrow> i) = i)" for i
    by (fastforce simp: ids_for_def RoleActorsToActorRoles_def actorRoleIDs_def)
  then show ?thesis using e by (auto simp: assigned_def)
qed


lemma kept_role_ids:
  assumes "kept s0 d s"
  shows "\<forall>i \<in> set (GetActorRoleIDs s d a). map_of (roles s) (d, i) \<noteq> None"
proof (cases "map_of (actor_roles s) (d, a)")
  case (Some ids)
  then show ?thesis using assms unfolding kept_def live_def refs_ok_def GetActorRoleIDs_def by simp
qed (simp add: GetActorRoleIDs_def)

lemma kept_add: "kept s0 d s \<Longrightarrow> \<forall>i \<in> set ids. map_of (roles s) (d, i) \<noteq> None \<Longrightarrow> kept s0 d (addActorRoles s d a ids)"
  unfolding addActorRoles_def using kept_role_ids by (intro kept_setActorRoles) auto

lemma kept_revoke: "kept s0 d s \<Longrightarrow> kept s0 d (revokeActorRoles s d a ids)"
  unfolding revokeActorRoles_def using kept_role_ids by (intro kept_setActorRoles) auto

lemma kept_changeActorRoles:
  assumes "changeActorRoles E f roleIDs d s ars = Inr s'" "kept s0 d s" "f = addActorRoles \<or> f = revokeActorRoles"
    and "\<forall>ar \<in> set ars. \<forall>i \<in> set (actorRoleIDs roleIDs (ar_Roles ar)). map_of (roles s) (d, i) \<noteq> None"
  shows "kept s0 d s' \<and> roles s' = roles s"
  using assms(1,2,4)
proof (induction ars arbitrary: s)
  case (Cons ar ars)
  obtain x where x: "changeActorRoles E f roleIDs d (f s d x (actorRoleIDs roleIDs (ar_Roles ar))) ars = Inr s'"
    by (rule changeActorRoles_Cons [OF Cons.prems(1)])
  have r: "roles (f s d x (actorRoleIDs roleIDs (ar_Roles ar))) = roles s"
    using assms(3) by (auto simp: addActorRoles_def revokeActorRoles_def)
  have "kept s0 d (f s d x (actorRoleIDs roleIDs (ar_Roles ar)))"
    using assms(3) kept_add [OF Cons.prems(2)] kept_revoke [OF Cons.prems(2)] Cons.prems(3) by auto
  then show ?case using Cons.IH [OF x] Cons.prems(3) r by simp
qed (simp add: changeActorRoles_def)

lemma actorRoleIDs_known:
  assumes "roles_ok s d" "\<forall>ra \<in> set ras. \<exists>i. map_of ids (ra_Role ra) = Some i \<and> GetRoleID s d (ra_Role ra) = Some i"
    and "ar \<in> set (RoleActorsToActorRoles ras)" "i \<in> set (actorRoleIDs ids (ar_Roles ar))"
  shows "map_of (roles s) (d, i) \<noteq> None"
proof -
  obtain ra where "ra \<in> set ras" "i = (case map_of ids (ra_Role ra) of None \<Rightarrow> 0 | Some i \<Rightarrow> i)"
    using assms(3,4) by (auto simp: RoleActorsToActorRoles_def actorRoleIDs_def)
  then have "map_of (role_names s) (d, ra_Role ra) = Some i" using assms(2) by (fastforce simp: GetRoleID_def)
  then show ?thesis by (rule role_by_name [OF assms(1)]) simp
qed

lemma UpdateActorRoles_effect:
  assumes "UpdateActorRoles E s msg = Inr s'" "perm_ok s"
  shows "kept s (ur_Denom msg) s'"
    and "set (GetActorRoleIDs s' (ur_Denom msg) a) = set (GetActorRoleIDs s (ur_Denom msg) a)
      \<union> assigned E s (ur_Denom msg) (ur_RoleActorsToAdd msg) a - assigned E s (ur_Denom msg) (ur_RoleActorsToRevoke msg) a"
    and "\<exists>sender. FromBech32 E (ur_Sender msg) = Some sender
      \<and> (\<forall>ra \<in> set (ur_RoleActorsToAdd msg) \<union> set (ur_RoleActorsToRevoke msg).
          \<exists>i. GetRoleID s (ur_Denom msg) (ra_Role ra) = Some i \<and> isRoleManager s (ur_Denom msg) sender i)"
proof -
  let ?d = "ur_Denom msg"
  obtain sender ids s1 where h: "FromBech32 E (ur_Sender msg) = Some sender" "HasNamespace s ?d"
    "verifySenderIsRoleManagerForAffectedRoles s ?d sender (GetAffectedRoles msg) = Inr ids"
    "changeActorRoles E addActorRoles ids ?d s (RoleActorsToActorRoles (ur_RoleActorsToAdd msg)) = Inr s1"
    "changeActorRoles E revokeActorRoles ids ?d s1 (RoleActorsToActorRoles (ur_RoleActorsToRevoke msg)) = Inr s'"
    using assms(1) by (auto simp: UpdateActorRoles_def)
  have v: "\<exists>i. map_of ids (ra_Role ra) = Some i \<and> GetRoleID s ?d (ra_Role ra) = Some i \<and> isRoleManager s ?d sender i"
    if "ra \<in> set (ur_RoleActorsToAdd msg) \<union> set (ur_RoleActorsToRevoke msg)" for ra
    by (rule verified_ids [OF h(3)]) (use that in \<open>auto simp: affected_roles\<close>)
  then have v': "\<forall>ra \<in> set (ur_RoleActorsToAdd msg). \<exists>i. map_of ids (ra_Role ra) = Some i \<and> GetRoleID s ?d (ra_Role ra) = Some i"
    "\<forall>ra \<in> set (ur_RoleActorsToRevoke msg). \<exists>i. map_of ids (ra_Role ra) = Some i \<and> GetRoleID s ?d (ra_Role ra) = Some i"
    by blast+
  have l: "live s ?d" using assms(2) h(2) by (simp add: live_iff perm_ok_def)
  then have r: "roles_ok s ?d" by (simp add: live_def)
  have k1: "kept s ?d s1 \<and> roles s1 = roles s"
    by (rule kept_changeActorRoles [OF h(4) kept_start [OF l]]) (auto dest: actorRoleIDs_known [OF r v'(1)])
  then have "kept s ?d s' \<and> roles s' = roles s1"
    by (intro kept_changeActorRoles [OF h(5)]) (auto dest: actorRoleIDs_known [OF r v'(2)])
  then show "kept s ?d s'" by blast
  show "set (GetActorRoleIDs s' ?d a) = set (GetActorRoleIDs s ?d a)
      \<union> assigned E s ?d (ur_RoleActorsToAdd msg) a - assigned E s ?d (ur_RoleActorsToRevoke msg) a"
    using changeActorRoles_add [OF h(4), of a] changeActorRoles_revoke [OF h(5), of a] ids_for_assigned [OF v'(1)] ids_for_assigned [OF v'(2)]
    by simp
  show "\<exists>sender. FromBech32 E (ur_Sender msg) = Some sender
      \<and> (\<forall>ra \<in> set (ur_RoleActorsToAdd msg) \<union> set (ur_RoleActorsToRevoke msg).
          \<exists>i. GetRoleID s ?d (ra_Role ra) = Some i \<and> isRoleManager s ?d sender i)"
    using h(1) v by blast
qed

section \<open>Creation\<close>

definition fresh_part :: "permissions_state \<Rightarrow> denom \<Rightarrow> Role list \<Rightarrow> permissions_state \<Rightarrow> bool" where
  "fresh_part s0 d rs s \<longleftrightarrow> roles_ok s d \<and> refs_ok s d \<and> (\<forall>d'. d' \<noteq> d \<longrightarrow> part_of s d' = part_of s0 d') \<and> vouchers s = vouchers s0
     \<and> (\<forall>i r. map_of (roles s) (d, i) = Some r \<longleftrightarrow> r \<in> set rs \<and> RoleId r = i)"

lemma created_roles:
  assumes "fresh_part s0 d qs s" "distinct (map role_Name (qs @ rs))" "distinct (map RoleId (qs @ rs))" "\<forall>r \<in> set rs. role_Name r \<noteq> ''''"
  shows "fresh_part s0 d (qs @ rs) (foldl (\<lambda>s role. setRole s d role) s rs)"
  using assms
proof (induction rs arbitrary: qs s)
  case (Cons r rs)
  have ok: "roles_ok s d" using Cons.prems(1) by (simp add: fresh_part_def)
  have nr: "RoleId r \<notin> RoleId ` set qs" using Cons.prems(3) by simp
  have "map_of (roles s) (d, RoleId r) = None"
  proof (rule ccontr)
    assume "map_of (roles s) (d, RoleId r) \<noteq> None"
    then obtain q where "map_of (roles s) (d, RoleId r) = Some q" by auto
    then have "q \<in> set qs \<and> RoleId q = RoleId r" using Cons.prems(1) unfolding fresh_part_def by blast
    then have "RoleId r \<in> RoleId ` set qs" by (metis image_eqI)
    then show False using nr by simp
  qed
  moreover have "map_of (role_names s) (d, role_Name r) = None"
  proof (rule ccontr)
    assume "map_of (role_names s) (d, role_Name r) \<noteq> None"
    then obtain i where "map_of (role_names s) (d, role_Name r) = Some i" by auto
    then obtain q where "map_of (roles s) (d, i) = Some q" "role_Name q = role_Name r" by (rule role_by_name [OF ok])
    moreover from this(1) have "q \<in> set qs" using Cons.prems(1) unfolding fresh_part_def by blast
    ultimately have "role_Name r \<in> role_Name ` set qs" by (metis image_eqI)
    then show False using Cons.prems(2) by simp
  qed
  ultimately have fits: "role_fits s d r" using Cons.prems(4) by (simp add: role_fits_def)
  have "fresh_part s0 d (qs @ [r]) (setRole s d r)"
    using Cons.prems(1) setRole_roles_ok [OF ok fits] setRole_refs_ok [of s d r] elsewhere_writes(1) [of _ d s r] nr
    by (auto simp: fresh_part_def image_iff)
  from Cons.IH [OF this] show ?case using Cons.prems(2-4) by simp
qed simp


lemma roles_ok_frame: "roles s' = roles s \<Longrightarrow> role_names s' = role_names s \<Longrightarrow> roles_ok s' d = roles_ok s d"
  by (simp add: roles_ok_def)

lemma refs_ok_writes:
  assumes "refs_ok s d"
  shows "\<forall>i \<in> set ids. map_of (roles s) (d, i) \<noteq> None \<Longrightarrow> refs_ok (setActorRoles s d a ids) d"
    and "map_of (roles s) (d, i) \<noteq> None \<Longrightarrow> refs_ok (setRoleManager s d a i) d"
    and "refs_ok (setPolicyStatus s d st) d"
  using assms by (simp_all add: refs_ok_def setActorRoles_def setRoleManager_def update_conv' delete_conv')

lemma fresh_partI:
  assumes "fresh_part s0 d rs s" "roles s' = roles s" "role_names s' = role_names s" "vouchers s' = vouchers s" "refs_ok s' d"
    and "\<And>d'. d' \<noteq> d \<Longrightarrow> part_of s' d' = part_of s d'"
  shows "fresh_part s0 d rs s'"
  using assms(1,5,6) roles_ok_frame [OF assms(2,3), of d] unfolding fresh_part_def assms(2,4) by simp

lemma fresh_writes:
  assumes "fresh_part s0 d rs s"
  shows "\<forall>i \<in> set ids. map_of (roles s) (d, i) \<noteq> None \<Longrightarrow> fresh_part s0 d rs (setActorRoles s d a ids)"
    and "map_of (roles s) (d, i) \<noteq> None \<Longrightarrow> fresh_part s0 d rs (setRoleManager s d a i)"
    and "fresh_part s0 d rs (setPolicyStatus s d st)"
    and "setPolicyManagerCapability E s d c = Inr s' \<Longrightarrow> fresh_part s0 d rs s' \<and> policy_statuses s' = policy_statuses s"
proof -
  have r: "refs_ok s d" using assms by (simp add: fresh_part_def)
  show "fresh_part s0 d rs (setActorRoles s d a ids)" if "\<forall>i \<in> set ids. map_of (roles s) (d, i) \<noteq> None"
    by (rule fresh_partI [OF assms]) (simp_all add: elsewhere_writes(2) refs_ok_writes(1) [OF r that])
  show "fresh_part s0 d rs (setRoleManager s d a i)" if "map_of (roles s) (d, i) \<noteq> None"
    by (rule fresh_partI [OF assms]) (simp_all add: elsewhere_writes(3) refs_ok_writes(2) [OF r that])
  show "fresh_part s0 d rs (setPolicyStatus s d st)"
    by (rule fresh_partI [OF assms]) (simp_all add: elsewhere_writes(5) refs_ok_writes(3) [OF r])
  show "fresh_part s0 d rs s' \<and> policy_statuses s' = policy_statuses s" if c: "setPolicyManagerCapability E s d c = Inr s'"
  proof -
    obtain x where s': "s' = s\<lparr>capabilities := x\<rparr>" using c by (auto simp: setPolicyManagerCapability_def)
    then have p: "part_of s' d' = part_of s d'" for d' by (simp add: part_of_eq)
    have "fresh_part s0 d rs s'"
      by (rule fresh_partI [OF assms _ _ _ _ p]) (simp_all add: s' part_cong(2) [OF p, unfolded s'] r)
    then show ?thesis by (simp add: s')
  qed
qed

lemma name_map:
  assumes "map_of (foldl (\<lambda>m role. AList.update (role_Name role) (RoleId role) m) acc rs) n = Some i"
  shows "(\<exists>r \<in> set rs. RoleId r = i) \<or> map_of acc n = Some i"
  using assms
proof (induction rs arbitrary: acc)
  case (Cons r rs)
  have "map_of (foldl (\<lambda>m role. AList.update (role_Name role) (RoleId role) m) (AList.update (role_Name r) (RoleId r) acc) rs) n = Some i"
    using Cons.prems by simp
  from Cons.IH [OF this] show ?case by (auto simp: update_conv' split: if_splits)
qed simp

lemma roleIDsOf_known:
  assumes "roleIDsOf m names = Inr ids" "i \<in> set ids"
  shows "\<exists>n. map_of m n = Some i"
proof -
  note e = assms(1) [unfolded roleIDsOf_def]
  have "\<forall>i \<in> set ids. \<exists>n. map_of m n = Some i"
    by (rule efold_invariant [OF e, of "\<lambda>ids. \<forall>i \<in> set ids. \<exists>n. map_of m n = Some i"]) auto
  then show ?thesis using assms(2) by blast
qed

lemma fresh_actors:
  assumes "efold (createActorRoles E m d) s ars = Inr s'" "fresh_part s0 d rs s" "\<And>n i. map_of m n = Some i \<Longrightarrow> \<exists>r \<in> set rs. RoleId r = i"
  shows "fresh_part s0 d rs s'"
proof (rule efold_invariant [OF assms(1), of "fresh_part s0 d rs", OF assms(2)])
  fix u v ar
  assume u: "fresh_part s0 d rs u" "createActorRoles E m d u ar = Inr v"
  then obtain a ids where a: "roleIDsOf m (ar_Roles ar) = Inr ids" "v = setActorRoles u d a ids"
    by (auto simp: createActorRoles_def)
  have "\<forall>i \<in> set ids. map_of (roles u) (d, i) \<noteq> None"
    using roleIDsOf_known [OF a(1)] assms(3) u(1) unfolding fresh_part_def by (metis option.distinct(1))
  then show "fresh_part s0 d rs v" using fresh_writes(1) [OF u(1)] a(2) by simp
qed

lemma fresh_managers:
  assumes "efold (createRoleManagers E m d) s ms = Inr s'" "fresh_part s0 d rs s" "\<And>n i. map_of m n = Some i \<Longrightarrow> \<exists>r \<in> set rs. RoleId r = i"
  shows "fresh_part s0 d rs s'"
proof (rule efold_invariant [OF assms(1), of "fresh_part s0 d rs", OF assms(2)])
  fix u v rm
  assume u: "fresh_part s0 d rs u" "createRoleManagers E m d u rm = Inr v"
  then obtain a where a: "efold (\<lambda>s roleName. ebind (of_opt ErrUnknownRole (map_of m roleName)) (\<lambda>roleID.
         Inr (setRoleManager s d a roleID))) u (rm_Roles rm) = Inr v"
    by (auto simp: createRoleManagers_def)
  show "fresh_part s0 d rs v"
  proof (rule efold_invariant [OF a, of "fresh_part s0 d rs", OF u(1)])
    fix x y n
    assume x: "fresh_part s0 d rs x" "ebind (of_opt ErrUnknownRole (map_of m n)) (\<lambda>roleID. Inr (setRoleManager x d a roleID)) = Inr y"
    then obtain i where i: "map_of m n = Some i" "y = setRoleManager x d a i" by auto
    then have "map_of (roles x) (d, i) \<noteq> None" using assms(3) [OF i(1)] x(1) unfolding fresh_part_def by (metis option.distinct(1))
    then show "fresh_part s0 d rs y" using fresh_writes(2) [OF x(1)] i(2) by simp
  qed
qed

lemma fresh_policies:
  assumes "fresh_part s0 d rs s"
  shows "fresh_part s0 d rs (foldl (\<lambda>s st. setPolicyStatus s d st) s sts)
    \<and> (\<forall>a \<in> ps_Action ` set sts. map_of (policy_statuses (foldl (\<lambda>s st. setPolicyStatus s d st) s sts)) (d, a) \<noteq> None)
    \<and> (\<forall>a. map_of (policy_statuses s) (d, a) \<noteq> None \<longrightarrow> map_of (policy_statuses (foldl (\<lambda>s st. setPolicyStatus s d st) s sts)) (d, a) \<noteq> None)"
  using assms
proof (induction sts arbitrary: s)
  case (Cons st sts)
  have p: "map_of (policy_statuses (setPolicyStatus s d st)) (d, ps_Action st) \<noteq> None"
    "map_of (policy_statuses s) (d, a) \<noteq> None \<Longrightarrow> map_of (policy_statuses (setPolicyStatus s d st)) (d, a) \<noteq> None" for a
    by (auto simp: setPolicyStatus_def update_conv')
  note ih = Cons.IH [OF fresh_writes(3) [OF Cons.prems], of st]
  let ?t = "foldl (\<lambda>s st. setPolicyStatus s d st) (setPolicyStatus s d st) sts"
  have later: "map_of (policy_statuses (setPolicyStatus s d st)) (d, a) \<noteq> None \<Longrightarrow> map_of (policy_statuses ?t) (d, a) \<noteq> None" for a
    using ih by blast
  have "\<forall>a \<in> ps_Action ` set (st # sts). map_of (policy_statuses ?t) (d, a) \<noteq> None"
    using ih later [OF p(1)] by simp
  moreover have "\<forall>a. map_of (policy_statuses s) (d, a) \<noteq> None \<longrightarrow> map_of (policy_statuses ?t) (d, a) \<noteq> None"
    using later [OF p(2)] by blast
  ultimately show ?case unfolding foldl_Cons using ih by blast
qed simp


lemma populated:
  "set Actions \<subseteq> ps_Action ` set (ns_PolicyStatuses (PopulateEmptyValuesWithDefaults E c n))"
  "ns_RolePermissions (PopulateEmptyValuesWithDefaults E c n) = ns_RolePermissions n"
  "ns_Denom (PopulateEmptyValuesWithDefaults E c n) = ns_Denom n"
proof -
  have "ps_Action ` set (map (\<lambda>action. NewPolicyStatus action False False) xs) = set xs" for xs
    by (simp add: NewPolicyStatus_def image_image)
  then show "set Actions \<subseteq> ps_Action ` set (ns_PolicyStatuses (PopulateEmptyValuesWithDefaults E c n))"
    by (auto simp: PopulateEmptyValuesWithDefaults_def NewDefaultPolicyStatuses_def image_Un simp del: set_map)
qed (simp_all add: PopulateEmptyValuesWithDefaults_def)

lemma setNamespace_live:
  assumes "everyone_ok s d" "roles_ok s d" "refs_ok s d" "policies_ok s d" "ns_Denom ns = d"
  shows "live (setNamespace s ns) d"
  using assms by (simp add: live_def setNamespace_def update_conv' roles_ok_def refs_ok_def everyone_ok_def policies_ok_def)

lemma createNamespace_kept:
  assumes "createNamespace E s ns = Inr s'" "no_entries s (ns_Denom ns)" "roles_valid (ns_RolePermissions ns)"
    and "\<exists>r \<in> set (ns_RolePermissions ns). role_Name r = EVERYONE" "set Actions \<subseteq> ps_Action ` set (ns_PolicyStatuses ns)"
  shows "kept s (ns_Denom ns) s'"
proof -
  let ?d = "ns_Denom ns" and ?rs = "ns_RolePermissions ns"
  let ?m = "foldl (\<lambda>m role. AList.update (role_Name role) (RoleId role) m) [] ?rs"
  obtain s1 s2 s3 where h: "efold (createActorRoles E ?m ?d) (foldl (\<lambda>s role. setRole s ?d role) s ?rs) (ns_ActorRoles ns) = Inr s1"
    "efold (createRoleManagers E ?m ?d) s1 (ns_RoleManagers ns) = Inr s2"
    "efold (\<lambda>s c. setPolicyManagerCapability E s ?d c) (foldl (\<lambda>s st. setPolicyStatus s ?d st) s2 (ns_PolicyStatuses ns))
       (ns_PolicyManagerCapabilities ns) = Inr s3"
    and s': "s' = setNamespace s3 (ns\<lparr>ns_RolePermissions := [], ns_ActorRoles := [], ns_RoleManagers := [], ns_PolicyStatuses := [],
              ns_PolicyManagerCapabilities := []\<rparr>)"
    using assms(1) by (auto simp: createNamespace_def Let_def)
  have m: "\<exists>r \<in> set ?rs. RoleId r = i" if "map_of ?m n = Some i" for n i
    using name_map [OF that] by simp
  have "fresh_part s ?d [] s" using assms(2) by (simp add: fresh_part_def no_entries_def roles_ok_def refs_ok_def)
  then have "fresh_part s ?d ?rs (foldl (\<lambda>s role. setRole s ?d role) s ?rs)"
    using created_roles [of s ?d "[]" s ?rs] assms(3) by (simp add: roles_valid_def)
  then have "fresh_part s ?d ?rs s2" using fresh_actors [OF h(1)] fresh_managers [OF h(2)] m by blast
  note p = fresh_policies [OF this, of "ns_PolicyStatuses ns"]
  have s3: "fresh_part s ?d ?rs s3 \<and> (\<forall>a \<in> set Actions. map_of (policy_statuses s3) (?d, a) \<noteq> None)"
    by (rule efold_invariant [OF h(3), of "\<lambda>t. fresh_part s ?d ?rs t \<and> (\<forall>a \<in> set Actions. map_of (policy_statuses t) (?d, a) \<noteq> None)"])
      (use p assms(5) fresh_writes(4) in \<open>auto dest!: subsetD\<close>)
  obtain r where r: "r \<in> set ?rs" "role_Name r = EVERYONE" using assms(4) by blast
  have ok: "roles_ok s3 ?d" and rr: "map_of (roles s3) (?d, RoleId r) = Some r" using s3 r(1) unfolding fresh_part_def by blast+
  have "everyone_ok s3 ?d"
    using role_by_id(3) [OF ok rr] rr r assms(3) unfolding everyone_ok_def roles_valid_def by auto
  moreover have "refs_ok s3 ?d" "policies_ok s3 ?d" using s3 by (simp_all add: fresh_part_def policies_ok_def)
  ultimately have "live s' ?d" unfolding s' by (rule setNamespace_live [OF _ ok]) simp
  moreover have "part_of s' d' = part_of s d'" if "d' \<noteq> ?d" for d'
  proof -
    have "part_of s' d' = part_of s3 d'" using that by (simp add: s' part_of_eq setNamespace_def update_conv')
    then show ?thesis using s3 that by (simp add: fresh_part_def)
  qed
  moreover have "vouchers s' = vouchers s" using s3 by (simp add: s' setNamespace_def fresh_part_def)
  ultimately show ?thesis using assms(2) by (simp add: kept_def no_entries_def)
qed

lemma CreateNamespace_kept:
  assumes "CreateNamespace E s sender ns = Inr s'" "MsgCreateNamespace_ValidateBasic E sender ns = Inr u" "perm_ok s"
  shows "kept s (ns_Denom ns) s'"
proof -
  obtain a where c: "createNamespace E s (PopulateEmptyValuesWithDefaults E a ns) = Inr s'" and n: "\<not> HasNamespace s (ns_Denom ns)"
    using assms(1) by (auto simp: CreateNamespace_def)
  have v: "ValidateRoles E ns False = Inr ()" using assms(2) by (auto simp: MsgCreateNamespace_ValidateBasic_def)
  have "no_entries s (ns_Denom ns)"
    using assms(3) n by (auto simp: perm_ok_def denom_ok_def HasNamespace_def dest!: spec [of _ "ns_Denom ns"])
  then show ?thesis
    using createNamespace_kept [OF c] ValidateRoles_ok [OF v] by (simp add: populated)
qed

section \<open>Steps of the module\<close>

text \<open>A message runs its handler after its stateless validation; a claim deletes the voucher it paid.\<close>

inductive perm_step :: "perm_env \<Rightarrow> permissions_state \<Rightarrow> permissions_state \<Rightarrow> bool" for E where
  create: "MsgCreateNamespace_ValidateBasic E sender ns = Inr () \<Longrightarrow> CreateNamespace E s sender ns = Inr s' \<Longrightarrow> perm_step E s s'"
| update: "MsgUpdateNamespace_ValidateBasic E msg = Inr () \<Longrightarrow> UpdateNamespace E s msg = Inr s' \<Longrightarrow> perm_step E s s'"
| update_actors: "MsgUpdateActorRoles_ValidateBasic E amsg = Inr () \<Longrightarrow> UpdateActorRoles E s amsg = Inr s' \<Longrightarrow> perm_step E s s'"
| send: "SendRestrictionFn E s doNotFailFast fromAddr toAddr d n = (s', toAddr', r) \<Longrightarrow> perm_step E s s'"
| claim: "perm_step E s (s\<lparr>vouchers := DeleteVoucher (vouchers s) a d\<rparr>)"
| params: "perm_step E s (SetParams s contracts)"

lemma enforced_state: "\<exists>c. snd (Perm_IsEnforcedRestrictionsDenom E s d) = s\<lparr>enforced_cache := c\<rparr>"
proof (cases "enforced_cache s")
  case None
  then show ?thesis
    by (auto simp: Perm_IsEnforcedRestrictionsDenom_def getEnforcedRestrictionsEvmContracts_def Let_def)
next
  case (Some v)
  then have "s = s\<lparr>enforced_cache := Some v\<rparr>" by simp
  then show ?thesis using Some
    by (auto simp: Perm_IsEnforcedRestrictionsDenom_def getEnforcedRestrictionsEvmContracts_def Let_def intro!: exI [of _ "Some v"])
qed

lemma reroute_state:
  "\<exists>v. fst (rerouteToVoucherOnFail E s f t d n e) = s\<lparr>vouchers := v\<rparr>"
proof -
  have e: "\<exists>v. s = s\<lparr>vouchers := v\<rparr>" by (rule exI [of _ "vouchers s"]) simp
  show ?thesis
  proof (cases "f \<and> (\<exists>s'. AddVoucher (ValidDenom E) (vouchers s) t d n = Inr s')")
    case True
    then show ?thesis by (auto simp: rerouteToVoucherOnFail_def AddVoucher_def SetVoucher_def)
  next
    case False
    then have "fst (rerouteToVoucherOnFail E s f t d n e) = s"
      by (cases "AddVoucher (ValidDenom E) (vouchers s) t d n") (auto simp: rerouteToVoucherOnFail_def)
    then show ?thesis using e by metis
  qed
qed

lemma SendRestriction_state:
  assumes "SendRestrictionFn E s f a b d n = (s', t, r)"
  shows "\<exists>c v. s' = s\<lparr>enforced_cache := c, vouchers := v\<rparr>"
proof -
  define s1 where "s1 = snd (Perm_IsEnforcedRestrictionsDenom E s d)"
  obtain c where c: "s1 = s\<lparr>enforced_cache := c\<rparr>" using enforced_state s1_def by blast
  have "s1 = s1\<lparr>vouchers := vouchers s1\<rparr>" by simp
  moreover have "s' = s1 \<or> (\<exists>e. s' = fst (rerouteToVoucherOnFail E s1 f b d n e))"
    using assms unfolding SendRestrictionFn_def case_prod_beta Let_def s1_def [symmetric]
    by (cases "checkSend E s1 (fst (Perm_IsEnforcedRestrictionsDenom E s d)) a b d n")
      (simp_all split: if_split_asm del: insert_iff, metis fst_conv)
  ultimately obtain v where "s' = s1\<lparr>vouchers := v\<rparr>" using reroute_state by metis
  then show ?thesis using c by auto
qed

lemma SendRestriction_frame:
  assumes "SendRestrictionFn E s f a b d n = (s', t, r)"
  shows "part_of s' d' = part_of s d'" "policy_statuses s' = policy_statuses s"
  using SendRestriction_state [OF assms] by (auto simp: part_of_eq)

lemma voucher_frame:
  "part_of (s\<lparr>vouchers := v\<rparr>) d' = part_of s d'" "policy_statuses (s\<lparr>vouchers := v\<rparr>) = policy_statuses s"
  "part_of (SetParams s cs) d' = part_of s d'" "policy_statuses (SetParams s cs) = policy_statuses s"
  by (simp_all add: SetParams_def part_of_eq)

lemma kept_sealed:
  assumes "kept s d s'" "map_of (policy_statuses s) (d', a) = Some st" "IsSealed st"
  shows "map_of (policy_statuses s') (d', a) = Some st"
  using assms by (cases "d' = d") (auto simp: kept_def part_of_eq)

lemma perm_step_ok:
  assumes "perm_step E s s'" "perm_ok s"
  shows "perm_ok s' \<and> (\<forall>d a st. map_of (policy_statuses s) (d, a) = Some st \<longrightarrow> IsSealed st \<longrightarrow> map_of (policy_statuses s') (d, a) = Some st)"
  using assms(1)
proof cases
  case (create sender ns)
  then show ?thesis using CreateNamespace_kept [OF create(2,1) assms(2)] kept_perm_ok [OF assms(2)] kept_sealed by blast
next
  case (update msg)
  then show ?thesis using UpdateNamespace_kept [OF update(2,1) assms(2)] kept_perm_ok [OF assms(2)] kept_sealed by blast
next
  case (update_actors amsg)
  then show ?thesis using UpdateActorRoles_effect(1) [OF update_actors(2) assms(2)] kept_perm_ok [OF assms(2)] kept_sealed by blast
next
  case (send f a b d n t r)
  then show ?thesis using SendRestriction_frame [OF send] part_cong(5) assms(2) by (metis perm_ok_def)
next
  case (claim a d)
  then show ?thesis using voucher_frame part_cong(5) assms(2) by (metis perm_ok_def)
next
  case (params cs)
  then show ?thesis using voucher_frame part_cong(5) assms(2) by (metis perm_ok_def)
qed

lemma perm_steps_ok:
  assumes "(perm_step E)\<^sup>*\<^sup>* s s'" "perm_ok s"
  shows "perm_ok s' \<and> (\<forall>d a st. map_of (policy_statuses s) (d, a) = Some st \<longrightarrow> IsSealed st \<longrightarrow> map_of (policy_statuses s') (d, a) = Some st)"
  using assms
proof (induction rule: rtranclp_induct)
  case (step s1 s2)
  then show ?case using perm_step_ok [OF step(2)] by blast
qed simp


section \<open>What an actor may do\<close>

text \<open>The specification of a permission check: no role of the actor is a blacklist (a role without
  permissions), and one of them grants the action.\<close>

definition role_ids :: "permissions_state \<Rightarrow> denom \<Rightarrow> address \<Rightarrow> 32 word list" where
  "role_ids s d a = (if GetActorRoleIDs s d a = [] then [the (GetRoleID s d EVERYONE)] else GetActorRoleIDs s d a)"

definition role_perms :: "permissions_state \<Rightarrow> denom \<Rightarrow> 32 word \<Rightarrow> 32 word" where
  "role_perms s d i = role_Permissions (the (map_of (roles s) (d, i)))"

definition granted :: "permissions_state \<Rightarrow> denom \<Rightarrow> address \<Rightarrow> Action \<Rightarrow> bool" where
  "granted s d a act \<longleftrightarrow> (\<forall>i \<in> set (role_ids s d a). role_perms s d i \<noteq> 0) \<and> (\<exists>i \<in> set (role_ids s d a). Has (role_perms s d i) act)"

definition allowed :: "permissions_state \<Rightarrow> denom \<Rightarrow> address \<Rightarrow> Action \<Rightarrow> bool" where
  "allowed s d a act \<longleftrightarrow> (\<exists>st. map_of (policy_statuses s) (d, act) = Some st \<and> \<not> IsDisabled st) \<and> granted s d a act"

lemma Has_Add: "Has (Add t p) act \<longleftrightarrow> Has t act \<or> Has p act"
  by (simp add: Has_def Add_def bit.conj_disj_distrib2 or_eq_0_iff)

lemma Has_0 [simp]: "\<not> Has 0 act"
  by (simp add: Has_def)

lemma GetRoleByID_known:
  assumes "roles_ok s d" "map_of (roles s) (d, i) \<noteq> None"
  shows "\<exists>r. GetRoleByID s d i = Inr r \<and> role_Permissions r = role_perms s d i"
proof -
  obtain r where r: "map_of (roles s) (d, i) = Some r" using assms(2) by auto
  then have "role_Name r \<noteq> ''''" by (rule role_by_id(2) [OF assms(1)])
  then have "r \<noteq> empty_role" by (auto simp: empty_role_def)
  then show ?thesis using r by (simp add: GetRoleByID_def role_perms_def)
qed

lemma sumAllowedActions_spec:
  assumes "roles_ok s d" "\<forall>i \<in> set ids. map_of (roles s) (d, i) \<noteq> None"
  shows "\<exists>t'. sumAllowedActions s d ids t = Inr t'
    \<and> (Has t' act \<longleftrightarrow> (\<forall>i \<in> set ids. role_perms s d i \<noteq> 0) \<and> (Has t act \<or> (\<exists>i \<in> set ids. Has (role_perms s d i) act)))"
  using assms(2)
proof (induction ids arbitrary: t)
  case (Cons i ids)
  obtain r where r: "GetRoleByID s d i = Inr r" "role_Permissions r = role_perms s d i"
    using GetRoleByID_known [OF assms(1)] Cons.prems by auto
  show ?case
  proof (cases "role_perms s d i = 0")
    case True
    then show ?thesis using r by simp
  next
    case False
    obtain t' where "sumAllowedActions s d ids (Add t (role_perms s d i)) = Inr t'"
      "Has t' act \<longleftrightarrow> (\<forall>i \<in> set ids. role_perms s d i \<noteq> 0)
        \<and> (Has (Add t (role_perms s d i)) act \<or> (\<exists>i \<in> set ids. Has (role_perms s d i) act))"
      using Cons by fastforce
    then show ?thesis using False r by (auto simp: Has_Add)
  qed
qed simp

lemma role_ids_known:
  assumes "live s d"
  shows "\<forall>i \<in> set (role_ids s d a). map_of (roles s) (d, i) \<noteq> None"
proof (cases "GetActorRoleIDs s d a = []")
  case True
  obtain i r where "map_of (role_names s) (d, EVERYONE) = Some i" "map_of (roles s) (d, i) = Some r"
    using assms by (auto simp: live_def everyone_ok_def)
  then show ?thesis using True by (simp add: role_ids_def GetRoleID_def)
next
  case False
  then show ?thesis using kept_role_ids [OF kept_start [OF assms]] by (simp add: role_ids_def)
qed

lemma total_allowed:
  assumes "live s d"
  shows "\<exists>t. getTotalAllowedActionsForAddress s d a = Inr t \<and> (Has t act \<longleftrightarrow> granted s d a act)"
proof -
  have e: "GetRoleID s d EVERYONE \<noteq> None" using assms by (auto simp: live_def everyone_ok_def GetRoleID_def)
  then have "getTotalAllowedActionsForAddress s d a = sumAllowedActions s d (role_ids s d a) 0"
    by (auto simp: getTotalAllowedActionsForAddress_def role_ids_def Let_def)
  moreover obtain t where "sumAllowedActions s d (role_ids s d a) 0 = Inr t" "Has t act \<longleftrightarrow> granted s d a act"
    using sumAllowedActions_spec [OF _ role_ids_known [OF assms], of a 0 act] assms by (auto simp: live_def granted_def)
  ultimately show ?thesis by simp
qed

lemma check_allowed:
  assumes "live s d"
  shows "CheckPermissionsForAction s d a act = (if allowed s d a act then Inr () else Inl ErrRestrictedAction)"
proof -
  obtain t where "getTotalAllowedActionsForAddress s d a = Inr t" "Has t act \<longleftrightarrow> granted s d a act"
    using total_allowed [OF assms] by blast
  then show ?thesis
    by (auto simp: CheckPermissionsForAction_def allowed_def IsActionDisabledByPolicy_def GetPolicyStatus_def of_opt_def split: option.splits)
qed

section \<open>Bank sends\<close>

lemma everyone_denied:
  assumes "live s d" "GetActorRoleIDs s d a = []" "DisallowedEveryoneActions AND act = act"
  shows "\<not> HasPermissionsForAction s d a act"
proof -
  obtain i r where r: "map_of (role_names s) (d, EVERYONE) = Some i" "map_of (roles s) (d, i) = Some r"
    "role_Permissions r AND DisallowedEveryoneActions = 0"
    using assms(1) by (auto simp: live_def everyone_ok_def)
  have "role_Permissions r AND act = (role_Permissions r AND DisallowedEveryoneActions) AND act" using assms(3) by (simp add: and.assoc)
  then have "\<not> Has (role_Permissions r) act" using r(3) by (simp add: Has_def)
  then have "\<not> granted s d a act" using r assms(2) by (simp add: granted_def role_ids_def role_perms_def GetRoleID_def)
  then show ?thesis by (simp add: HasPermissionsForAction_def check_allowed [OF assms(1)] allowed_def)
qed

text \<open>Policy statuses are only changed by their policy managers.\<close>

lemma statuses_by_managers:
  assumes "efold (\<lambda>s p. TryUpdatePolicyStatus s a d p) s ps = Inr s'"
  shows "\<exists>q. s' = s\<lparr>policy_statuses := q\<rparr> \<and> (\<forall>k. map_of q k \<noteq> map_of (policy_statuses s) k
    \<longrightarrow> (\<exists>act. k = (d, act) \<and> map_of (capabilities s) (d, a, act) \<noteq> None))"
  using assms
proof (induction ps arbitrary: s)
  case Nil
  then show ?case by (auto intro: exI [of _ "policy_statuses s"])
next
  case (Cons p ps)
  then obtain t where t: "TryUpdatePolicyStatus s a d p = Inr t" "efold (\<lambda>s p. TryUpdatePolicyStatus s a d p) t ps = Inr s'" by auto
  then have p: "map_of (capabilities s) (d, a, ps_Action p) \<noteq> None"
    and ts: "t = s\<lparr>policy_statuses := AList.update (d, ps_Action p) p (policy_statuses s)\<rparr>"
    by (auto simp: TryUpdatePolicyStatus_def getPolicyManagerCapability_def setPolicyStatus_def split: if_splits)
  obtain q where q: "s' = t\<lparr>policy_statuses := q\<rparr>"
    "map_of q k \<noteq> map_of (policy_statuses t) k \<Longrightarrow> \<exists>act. k = (d, act) \<and> map_of (capabilities t) (d, a, act) \<noteq> None" for k
    using Cons.IH [OF t(2)] by blast
  have "\<exists>act. k = (d, act) \<and> map_of (capabilities s) (d, a, act) \<noteq> None" if "map_of q k \<noteq> map_of (policy_statuses s) k" for k
    using q(2) [of k] that p by (cases "k = (d, ps_Action p)") (simp_all add: ts update_conv')
  then show ?case using q(1) by (auto simp: ts)
qed

lemma refused_changes:
  assumes "ValidateNamespaceUpdatePermissions s a d (GetNamespaceUpdates msg) = Inr ()"
    and "\<And>act. act \<in> {Action_MODIFY_POLICY_MANAGERS, Action_MODIFY_CONTRACT_HOOK, Action_MODIFY_ROLE_PERMISSIONS, Action_MODIFY_ROLE_MANAGERS}
      \<Longrightarrow> \<not> HasPermissionsForAction s d a act"
  shows "\<not> HasContractHookChange (GetNamespaceUpdates msg)" "\<not> HasRolePermissionsChange (GetNamespaceUpdates msg)"
    "\<not> HasRoleManagersChange (GetNamespaceUpdates msg)" "\<not> HasPolicyManagersChange (GetNamespaceUpdates msg)"
proof -
  have none: "ChangeActions (GetNamespaceUpdates msg) = []"
  proof (rule ccontr)
    assume "ChangeActions (GetNamespaceUpdates msg) \<noteq> []"
    then obtain act as where c: "ChangeActions (GetNamespaceUpdates msg) = act # as" by (cases "ChangeActions (GetNamespaceUpdates msg)") auto
    then have "act \<in> set (ChangeActions (GetNamespaceUpdates msg))" by simp
    then have "\<not> HasPermissionsForAction s d a act"
      by (intro assms(2)) (auto simp: GetNamespaceUpdates_def Let_def split: if_splits)
    then show False using assms(1) c by (simp add: ValidateNamespaceUpdatePermissions_def)
  qed
  show "\<not> HasContractHookChange (GetNamespaceUpdates msg)" "\<not> HasRolePermissionsChange (GetNamespaceUpdates msg)"
    "\<not> HasRoleManagersChange (GetNamespaceUpdates msg)" "\<not> HasPolicyManagersChange (GetNamespaceUpdates msg)"
    using none by (auto simp: GetNamespaceUpdates_def Let_def split: if_splits)
qed

lemma powerless_update:
  assumes "\<And>act. act \<in> {Action_MODIFY_POLICY_MANAGERS, Action_MODIFY_CONTRACT_HOOK, Action_MODIFY_ROLE_PERMISSIONS, Action_MODIFY_ROLE_MANAGERS}
      \<Longrightarrow> \<not> HasPermissionsForAction s d a act"
    and "un_Denom msg = d" "FromBech32 E (un_Sender msg) = Some a" "UpdateNamespace E s msg = Inr s'"
  shows "\<exists>q. s' = s\<lparr>policy_statuses := q\<rparr> \<and> (\<forall>k. map_of q k \<noteq> map_of (policy_statuses s) k
    \<longrightarrow> (\<exists>act. k = (d, act) \<and> map_of (capabilities s) (d, a, act) \<noteq> None))"
proof -
  obtain ns where ns: "map_of (namespaces s) d = Some ns" using assms(2-4) by (cases "map_of (namespaces s) d") (auto simp: UpdateNamespace_def Let_def)
  have v: "ValidateNamespaceUpdatePermissions s a d (GetNamespaceUpdates msg) = Inr ()"
    using assms(2-4) ns by (auto simp: UpdateNamespace_def Let_def)
  note no = refused_changes [OF v assms(1)]
  have "(if HasPolicyStatusesChange (GetNamespaceUpdates msg) then efold (\<lambda>s p. TryUpdatePolicyStatus s a d p) s (un_PolicyStatuses msg) else Inr s) = Inr s'"
    using assms(2-4) ns no by (auto simp: UpdateNamespace_def Let_def)
  then show ?thesis using statuses_by_managers [of a d s "un_PolicyStatuses msg" s']
    by (auto split: if_splits intro: exI [of _ "policy_statuses s"])
qed

definition hooks_pass :: "perm_env \<Rightarrow> Namespace \<Rightarrow> address \<Rightarrow> address \<Rightarrow> denom \<Rightarrow> int \<Rightarrow> bool" where
  "hooks_pass E ns fromAddr toAddr d n \<longleftrightarrow>
     (ns_WasmHook ns \<noteq> '''' \<longrightarrow> (\<exists>c. FromBech32 E (ns_WasmHook ns) = Some c \<and> QueryWasmHook E c fromAddr toAddr d n))
     \<and> (ns_EvmHook ns \<noteq> '''' \<longrightarrow> callEvmHook E (ns_EvmHook ns) fromAddr toAddr d n = Some False)"

definition send_allowed :: "perm_env \<Rightarrow> permissions_state \<Rightarrow> address \<Rightarrow> address \<Rightarrow> denom \<Rightarrow> int \<Rightarrow> bool" where
  "send_allowed E s fromAddr toAddr d n \<longleftrightarrow>
     (IsModuleAcc E fromAddr \<and> IsModuleAcc E toAddr \<and> \<not> fst (Perm_IsEnforcedRestrictionsDenom E s d))
     \<or> (case map_of (namespaces s) d of None \<Rightarrow> True
        | Some ns \<Rightarrow> (ToBech32 E toAddr = tfModuleAddress E
              \<or> (IsModuleAcc E fromAddr \<or> allowed s d fromAddr Action_SEND) \<and> allowed s d toAddr Action_RECEIVE)
            \<and> hooks_pass E ns fromAddr toAddr d n)"

lemma hooks_result:
  "(\<exists>e \<in> {ErrRestrictedAction, ErrInvalidWasmHook}.
      ebind (executeWasmHook E ns a b d n) (\<lambda>_. ExecuteEvmHook E ns a b d n) = (if hooks_pass E ns a b d n then Inr () else Inl e))"
  by (cases "FromBech32 E (ns_WasmHook ns)") (auto simp: executeWasmHook_def ExecuteEvmHook_def hooks_pass_def echeck_def)

lemma checkSend_cases:
  assumes "perm_ok s"
  shows "\<exists>e \<in> {ErrRestrictedAction, ErrInvalidWasmHook}.
    checkSend E s (fst (Perm_IsEnforcedRestrictionsDenom E s d)) a b d n = (if send_allowed E s a b d n then Inr () else Inl e)"
proof (cases "map_of (namespaces s) d")
  case None
  then have "checkSend E s (fst (Perm_IsEnforcedRestrictionsDenom E s d)) a b d n = Inr ()" "send_allowed E s a b d n"
    unfolding checkSend_def send_allowed_def by simp_all
  then show ?thesis by (intro bexI [of _ ErrRestrictedAction]) simp_all
next
  case (Some ns)
  then have l: "live s d" using assms by (simp add: perm_ok_def live_iff HasNamespace_def)
  then have d: "ns_Denom ns = d" using Some by (simp add: live_def)
  obtain e where e: "e \<in> {ErrRestrictedAction, ErrInvalidWasmHook}"
    "ebind (executeWasmHook E ns a b d n) (\<lambda>_. ExecuteEvmHook E ns a b d n) = (if hooks_pass E ns a b d n then Inr () else Inl e)"
    by (rule bexE [OF hooks_result [of E ns a b d n]])
  define skip may where "skip \<longleftrightarrow> IsModuleAcc E a \<and> IsModuleAcc E b \<and> \<not> fst (Perm_IsEnforcedRestrictionsDenom E s d)"
    and "may \<longleftrightarrow> ToBech32 E b = tfModuleAddress E
      \<or> (IsModuleAcc E a \<or> allowed s d a Action_SEND) \<and> allowed s d b Action_RECEIVE"
  have "checkSend E s (fst (Perm_IsEnforcedRestrictionsDenom E s d)) a b d n
      = (if skip then Inr () else if may then (if hooks_pass E ns a b d n then Inr () else Inl e) else Inl ErrRestrictedAction)"
    unfolding checkSend_def skip_def may_def Let_def by (simp only: Some d check_allowed [OF l] e(2) option.case) simp
  moreover have "send_allowed E s a b d n \<longleftrightarrow> skip \<or> may \<and> hooks_pass E ns a b d n"
    unfolding send_allowed_def skip_def may_def by (simp add: Some)
  ultimately show ?thesis using e(1)
    by (intro bexI [of _ "if \<not> skip \<and> may then e else ErrRestrictedAction"]) (simp_all split: if_splits)
qed


lemma cached_state:
  defines "cached E s d \<equiv> snd (Perm_IsEnforcedRestrictionsDenom E s d)"
  shows "fst (Perm_IsEnforcedRestrictionsDenom E (cached E s d) d') = fst (Perm_IsEnforcedRestrictionsDenom E s d')"
    and "send_allowed E (cached E s d) a b d' n = send_allowed E s a b d' n" and "perm_ok (cached E s d) = perm_ok s"
    and "vouchers (cached E s d) = vouchers s"
proof -
  obtain c where c: "cached E s d = s\<lparr>enforced_cache := c\<rparr>" using enforced_state unfolding cached_def by blast
  show f: "fst (Perm_IsEnforcedRestrictionsDenom E (cached E s d) d') = fst (Perm_IsEnforcedRestrictionsDenom E s d')" for d'
    by (cases "enforced_cache s")
      (simp_all add: cached_def Perm_IsEnforcedRestrictionsDenom_def getEnforcedRestrictionsEvmContracts_def Let_def)
  show "send_allowed E (cached E s d) a b d' n = send_allowed E s a b d' n"
    unfolding send_allowed_def f
    by (simp add: c allowed_def granted_def role_ids_def role_perms_def GetActorRoleIDs_def GetRoleID_def cong: option.case_cong)
  have "part_of (cached E s d) d' = part_of s d'" for d' by (simp add: c part_of_eq)
  then show "perm_ok (cached E s d) = perm_ok s" using part_cong(5) unfolding perm_ok_def by blast
  show "vouchers (cached E s d) = vouchers s" by (simp add: c)
qed

lemma send_outcome:
  assumes "perm_ok s" "SendRestrictionFn E s f a b d n = (s', t, r)"
  shows "if send_allowed E s a b d n then t = b \<and> r = Inr () \<and> vouchers s' = vouchers s
    else if fst (Perm_IsEnforcedRestrictionsDenom E s d) \<or> \<not> f then t = b \<and> r \<noteq> Inr () \<and> vouchers s' = vouchers s
    else if \<not> ValidDenom E d then t = b \<and> r = Inl (ErrVoucher ErrInvalidVoucherDenom) \<and> vouchers s' = vouchers s
    else t = perm_module_address E \<and> r = Inr ()
      \<and> vouchers s' = AList.update (d, b) (voucher_of (vouchers s) d b + n) (vouchers s)"
proof -
  define s1 enf where "s1 = snd (Perm_IsEnforcedRestrictionsDenom E s d)" and "enf = fst (Perm_IsEnforcedRestrictionsDenom E s d)"
  note k = cached_state [of E s d, folded s1_def]
  obtain e where e: "e \<in> {ErrRestrictedAction, ErrInvalidWasmHook}"
    "checkSend E s1 enf a b d n = (if send_allowed E s a b d n then Inr () else Inl e)"
    using checkSend_cases [of s1 E d a b n] assms(1) k unfolding enf_def by auto
  show ?thesis
  proof (cases "send_allowed E s a b d n")
    case True
    then show ?thesis using assms(2) e k(4)
      by (simp add: SendRestrictionFn_def case_prod_beta s1_def [symmetric] enf_def [symmetric])
  next
    case False
    then have "(s', t, r) = (if \<not> enf then rerouteToVoucherOnFail E s1 f b d n e else (s1, b, Inl e))"
      using assms(2) e by (auto simp: SendRestrictionFn_def case_prod_beta s1_def [symmetric] enf_def [symmetric])
    then show ?thesis using False k(4) unfolding enf_def [symmetric]
      by (cases enf; cases f; cases "ValidDenom E d")
        (simp_all add: rerouteToVoucherOnFail_def AddVoucher_def GetVoucher_def SetVoucher_def voucher_of_def)
  qed
qed

section \<open>Vouchers and the bank\<close>

text \<open>A bank send goes to the address the restriction returns; users other than the module account pay
  and claim.\<close>

inductive voucher_step ::
  "perm_env \<Rightarrow> ('b \<Rightarrow> address \<Rightarrow> address \<Rightarrow> denom \<Rightarrow> int \<Rightarrow> 'e + 'b) \<Rightarrow> 'b \<times> permissions_state \<Rightarrow> 'b \<times> permissions_state \<Rightarrow> bool"
  for E transfer where
  sent: "SendRestrictionFn E s doNotFailFast x y d n = (s', y', Inr ()) \<Longrightarrow> transfer b x y' d n = Inr b'
    \<Longrightarrow> x \<noteq> y' \<Longrightarrow> x \<noteq> perm_module_address E \<Longrightarrow> y \<noteq> perm_module_address E \<Longrightarrow> voucher_step E transfer (b, s) (b', s')"
| claimed: "perm_ClaimVoucher E (\<lambda>b. transfer b (perm_module_address E)) b s sender d = Inr (b', s')
    \<Longrightarrow> FromBech32 E sender \<noteq> Some (perm_module_address E) \<Longrightarrow> voucher_step E transfer (b, s) (b', s')"
| governed: "perm_step E s s' \<Longrightarrow> vouchers s' = vouchers s \<Longrightarrow> voucher_step E transfer (b, s) (b, s')"

definition backing :: "perm_env \<Rightarrow> ('b \<Rightarrow> address \<Rightarrow> denom \<Rightarrow> int) \<Rightarrow> 'b \<times> permissions_state \<Rightarrow> denom \<Rightarrow> int" where
  "backing E balance bs d = balance (fst bs) (perm_module_address E) d - vouchers_in (vouchers (snd bs)) d"

definition vouchers_ok :: "permissions_state \<Rightarrow> bool" where
  "vouchers_ok s \<longleftrightarrow> perm_ok s \<and> distinct (map fst (vouchers s))"

lemma voucher_step_backing:
  assumes "voucher_step E transfer bs bs'" "moves_coins balance transfer" "vouchers_ok (snd bs)"
  shows "backing E balance bs' d' = backing E balance bs d' \<and> vouchers_ok (snd bs')"
  using assms(1)
proof cases
  case (sent s f x y d n s' y' b b')
  have ok: "perm_ok s" "distinct (map fst (vouchers s))" using assms(3) sent(1) by (simp_all add: vouchers_ok_def)
  have "perm_ok s'" using perm_step_ok [OF perm_step.send [OF sent(3)] ok(1)] by blast
  moreover have "balance b' (perm_module_address E) d'
      = balance b (perm_module_address E) d' + (if y' = perm_module_address E \<and> d' = d then n else 0)"
    using moves_coinsD [OF assms(2) sent(4,5), of "perm_module_address E" d'] sent(6) by auto
  moreover have "vouchers_in (vouchers s') d' = vouchers_in (vouchers s) d' + (if y' = perm_module_address E \<and> d' = d then n else 0)"
    and "distinct (map fst (vouchers s'))"
    using send_outcome [OF ok(1) sent(3)] ok(2) sent(7) by (auto simp: vouchers_in_add distinct_store split: if_splits)
  ultimately show ?thesis using sent(1,2) by (simp add: backing_def vouchers_ok_def)
next
  case (claimed b s sender d b' s')
  have ok: "perm_ok s" "distinct (map fst (vouchers s))" using assms(3) claimed(1) by (simp_all add: vouchers_ok_def)
  obtain receiver where r: "FromBech32 E sender = Some receiver" using claimed(3) by (auto simp: perm_ClaimVoucher_def)
  then obtain vs where v: "receiver \<noteq> perm_module_address E" "s' = s\<lparr>vouchers := vs\<rparr>"
    "ClaimVoucher (ValidDenom E) (\<lambda>b. transfer b (perm_module_address E)) b (vouchers s) receiver d = Inr (b', vs)"
    using claimed(3,4)
    by (cases "ClaimVoucher (ValidDenom E) (\<lambda>b. transfer b (perm_module_address E)) b (vouchers s) receiver d") (auto simp: perm_ClaimVoucher_def)
  have "perm_ok s'" using ok(1) voucher_frame part_cong(5) v(2) by (metis perm_ok_def)
  then show ?thesis
    using claim_keeps_backing [OF assms(2) ok(2) v(1,3)] claimed(1,2) v(2) by (simp add: backing_def vouchers_ok_def)
next
  case (governed s s' b)
  have "perm_ok s" using assms(3) governed(1) by (simp add: vouchers_ok_def)
  then have "perm_ok s'" using perm_step_ok [OF governed(3)] by blast
  then show ?thesis using governed(1,2,4) assms(3) by (simp add: backing_def vouchers_ok_def)
qed

lemma voucher_steps_backing:
  assumes "(voucher_step E transfer)\<^sup>*\<^sup>* bs bs'" "moves_coins balance transfer" "vouchers_ok (snd bs)"
  shows "backing E balance bs' d = backing E balance bs d \<and> vouchers_ok (snd bs')"
  using assms(1,3)
proof (induction rule: rtranclp_induct)
  case (step y z)
  then show ?case using voucher_step_backing [OF step(2) assms(2), of d] by simp
qed simp

section \<open>Properties\<close>

text \<open>C11: Every namespace stays well formed, whatever messages, sends, claims and parameter changes run: role
  names and role ids are in bijection, every role an actor holds or a manager manages exists, the
  EVERYONE role exists without administrative permissions, every action has a policy, and a denom
  without a namespace has no entries. Hence looking up an actor's permissions never fails.\<close>

theorem permissions_stay_well_formed:
  assumes "(perm_step E)\<^sup>*\<^sup>* s s'" "perm_ok s"
  shows "perm_ok s' \<and> (\<forall>d a. HasNamespace s' d \<longrightarrow> (\<exists>t. getTotalAllowedActionsForAddress s' d a = Inr t))"
proof -
  have "perm_ok s'" using perm_steps_ok [OF assms] by blast
  then show ?thesis using total_allowed by (meson live_iff perm_ok_def)
qed

text \<open>C24: A permission check is the union of the actor's roles with blacklisting: it passes exactly when the
  policy of the action is enabled, none of the actor's roles is without permissions, and one of them has
  the action's bit; an actor without roles is checked as EVERYONE. Whether the policy is sealed has no part in it: a namespace
  management action that was sealed as enabled still passes, although \<^verbatim>\<open>permissions/spec/01_concepts.md\<close> says that it is
  effectively permanently disabled.\<close>

theorem permission_check_spec:
  assumes "perm_ok s" "HasNamespace s d"
  shows "HasPermissionsForAction s d a act \<longleftrightarrow> (\<exists>st. map_of (policy_statuses s) (d, act) = Some st \<and> \<not> IsDisabled st)
    \<and> (\<forall>i \<in> set (role_ids s d a). role_perms s d i \<noteq> 0) \<and> (\<exists>i \<in> set (role_ids s d a). role_perms s d i AND act \<noteq> 0)"
proof -
  have "live s d" using assms by (simp add: live_iff perm_ok_def)
  then show ?thesis by (auto simp: HasPermissionsForAction_def check_allowed allowed_def granted_def Has_def)
qed

text \<open>C23: Who has no explicit role in a namespace has no administrative power over it, after any sequence of steps from a
  well formed state: the checks for minting, burning from others and changing hooks, roles, role managers or policy managers
  all fail, and a namespace update they send is refused unless it changes nothing but the status of policies they are a policy
  manager of. (The roles of actors are changed by role managers, who need no role themselves.)\<close>

theorem everyone_has_no_admin_power:
  assumes "(perm_step E)\<^sup>*\<^sup>* s s'" "perm_ok s" "HasNamespace s' d" "GetActorRoleIDs s' d a = []"
  shows "(\<forall>act \<in> {Action_MINT, Action_SUPER_BURN, Action_MODIFY_POLICY_MANAGERS, Action_MODIFY_CONTRACT_HOOK,
           Action_MODIFY_ROLE_PERMISSIONS, Action_MODIFY_ROLE_MANAGERS}. \<not> HasPermissionsForAction s' d a act)
    \<and> (\<forall>msg s''. un_Denom msg = d \<longrightarrow> FromBech32 E (un_Sender msg) = Some a \<longrightarrow> UpdateNamespace E s' msg = Inr s''
        \<longrightarrow> (\<exists>q. s'' = s'\<lparr>policy_statuses := q\<rparr> \<and> (\<forall>k. map_of q k \<noteq> map_of (policy_statuses s') k
              \<longrightarrow> (\<exists>act. k = (d, act) \<and> map_of (capabilities s') (d, a, act) \<noteq> None))))"
proof -
  have l: "live s' d" using perm_steps_ok [OF assms(1,2)] assms(3) by (simp add: live_iff perm_ok_def)
  have no: "\<not> HasPermissionsForAction s' d a act"
    if "act \<in> {Action_MINT, Action_SUPER_BURN, Action_MODIFY_POLICY_MANAGERS, Action_MODIFY_CONTRACT_HOOK,
           Action_MODIFY_ROLE_PERMISSIONS, Action_MODIFY_ROLE_MANAGERS}" for act
    by (rule everyone_denied [OF l assms(4)]) (use that in \<open>auto simp: DisallowedEveryoneActions_def action_defs\<close>)
  moreover have "\<exists>q. s'' = s'\<lparr>policy_statuses := q\<rparr> \<and> (\<forall>k. map_of q k \<noteq> map_of (policy_statuses s') k
      \<longrightarrow> (\<exists>act. k = (d, act) \<and> map_of (capabilities s') (d, a, act) \<noteq> None))"
    if "un_Denom msg = d" "FromBech32 E (un_Sender msg) = Some a" "UpdateNamespace E s' msg = Inr s''" for msg s''
    by (rule powerless_update [OF _ that]) (use no in blast)
  ultimately show ?thesis by blast
qed

text \<open>C17: A sealed policy is final: once sealed, the policy of an action keeps its value, disabled or not,
  through every later message, whoever sends it. An action sealed as enabled stays enabled, a namespace management action
  as well, although \<^verbatim>\<open>permissions/spec/01_concepts.md\<close> says that sealing such an action leaves it effectively
  permanently disabled.\<close>

theorem sealed_policy_is_final:
  assumes "(perm_step E)\<^sup>*\<^sup>* s s'" "perm_ok s" "GetPolicyStatus s d act = Inr st" "IsSealed st"
  shows "GetPolicyStatus s' d act = Inr st \<and> IsActionDisabledByPolicy s' d act = IsDisabled st"
proof -
  have "map_of (policy_statuses s) (d, act) = Some st" using assms(3) by (simp add: GetPolicyStatus_def)
  then have "map_of (policy_statuses s') (d, act) = Some st" using perm_steps_ok [OF assms(1,2)] assms(4) by blast
  then show ?thesis by (simp add: GetPolicyStatus_def IsActionDisabledByPolicy_def)
qed

text \<open>C25: Updating actor roles does what it says: a role manager of every affected role sent it, every actor
  then has exactly the old and the added roles without the revoked ones, and the other denoms are
  untouched.\<close>

theorem actor_roles_updated:
  assumes "perm_ok s" "UpdateActorRoles E s msg = Inr s'"
  shows "(\<exists>sender. FromBech32 E (ur_Sender msg) = Some sender
      \<and> (\<forall>ra \<in> set (ur_RoleActorsToAdd msg) \<union> set (ur_RoleActorsToRevoke msg).
          \<exists>i. GetRoleID s (ur_Denom msg) (ra_Role ra) = Some i \<and> isRoleManager s (ur_Denom msg) sender i))
    \<and> set (GetActorRoleIDs s' (ur_Denom msg) a) = set (GetActorRoleIDs s (ur_Denom msg) a)
      \<union> assigned E s (ur_Denom msg) (ur_RoleActorsToAdd msg) a - assigned E s (ur_Denom msg) (ur_RoleActorsToRevoke msg) a
    \<and> (d \<noteq> ur_Denom msg \<longrightarrow> GetActorRoleIDs s' d a = GetActorRoleIDs s d a)"
proof -
  have "d \<noteq> ur_Denom msg \<longrightarrow> GetActorRoleIDs s' d a = GetActorRoleIDs s d a"
    using UpdateActorRoles_effect(1) [OF assms(2,1)] by (simp add: kept_def part_of_eq GetActorRoleIDs_def)
  then show ?thesis using UpdateActorRoles_effect(2,3) [OF assms(2,1)] by blast
qed

text \<open>C18: A bank send passes to its recipient exactly when it is allowed: between module accounts, without a
  namespace, or with the sender allowed to send, the recipient allowed to receive and both contract hooks
  passing. A refused send fails, except that in block processing the coins of a denom without enforced restrictions go to the
  module account and the recipient's voucher grows by the amount.\<close>

theorem send_restriction_outcomes:
  assumes "perm_ok s" "SendRestrictionFn E s doNotFailFast x y d n = (s', t, r)"
  shows "if send_allowed E s x y d n then t = y \<and> r = Inr () \<and> vouchers s' = vouchers s
    else if fst (Perm_IsEnforcedRestrictionsDenom E s d) \<or> \<not> doNotFailFast then t = y \<and> r \<noteq> Inr () \<and> vouchers s' = vouchers s
    else if \<not> ValidDenom E d then t = y \<and> r = Inl (ErrVoucher ErrInvalidVoucherDenom) \<and> vouchers s' = vouchers s
    else t = perm_module_address E \<and> r = Inr ()
      \<and> vouchers s' = AList.update (d, y) (voucher_of (vouchers s) d y + n) (vouchers s)"
  by (rule send_outcome [OF assms])

text \<open>C12: Vouchers stay backed: with a bank whose transfers move exactly their amount, no sequence of
  restricted sends, claims and updates changes the difference between what the module account holds
  of a denom and the sum of its outstanding vouchers.\<close>

theorem vouchers_stay_backed:
  assumes "moves_coins balance transfer" "vouchers_ok s" "(voucher_step E transfer)\<^sup>*\<^sup>* (b, s) (b', s')"
  shows "balance b' (perm_module_address E) d - vouchers_in (vouchers s') d = balance b (perm_module_address E) d - vouchers_in (vouchers s) d"
  using voucher_steps_backing [OF assms(3,1), of d] assms(2) by (simp add: backing_def)

lemma uint32_bytes_round_trip: "LittleEndianToUint32 (Uint32ToLittleEndian i) = Some i"
proof -
  have "ucast (ucast i :: 8 word) OR push_bit 8 (ucast (ucast (drop_bit 8 i) :: 8 word)) OR push_bit 16 (ucast (ucast (drop_bit 16 i) :: 8 word))
      OR push_bit 24 (ucast (ucast (drop_bit 24 i) :: 8 word)) = i" (is "?l = i")
  proof (rule bit_word_eqI)
    fix k
    assume "k < LENGTH(32)"
    then have "k < 8 \<or> 8 \<le> k \<and> k < 16 \<or> 16 \<le> k \<and> k < 24 \<or> 24 \<le> k \<and> k < 32" by auto
    then show "bit ?l k = bit i k"
      by (auto simp: bit_or_iff bit_ucast_iff bit_push_bit_iff bit_drop_bit_eq)
  qed
  then show ?thesis
    by (simp add: LittleEndianToUint32_def Uint32ToLittleEndian_def numeral_eq_Suc)
qed

text \<open>C39: The listing of all vouchers reads a store key back as the denom and the address it was written for exactly when the address
  has 20 bytes and the denom is not empty. The key of a 32-byte address, such as that of a contract or an interchain account, is read
  as a denom that includes the delimiter and the start of the address. So on a store of valid vouchers of 20- and 32-byte
  addresses the listing is the store when all addresses have 20 bytes, and panics on the invalid denom otherwise.\<close>

theorem voucher_key_decoding:
  "(splitVoucherKey (voucherKey d a) = Some (d, a) \<longleftrightarrow> length a = 20 \<and> d \<noteq> '''')
   \<and> (length a = 32 \<longrightarrow> splitVoucherKey (voucherKey d a) = Some (d @ ''|'' @ take 11 a, drop 12 a))
   \<and> ((\<forall>((d, a), n) \<in> set vs. V d \<and> 0 \<le> n \<and> account_address a) \<longrightarrow> (\<forall>d. CHR ''|'' \<in> set d \<longrightarrow> \<not> V d) \<longrightarrow> \<not> V ''''
      \<longrightarrow> GetAllVouchers V vs = (if list_all (\<lambda>((d, a), n). length a = 20) vs then Inr vs else Inl PanicVoucherCoin))"
proof (intro conjI impI)
  have "length a = 20 \<and> d \<noteq> ''''" if k: "splitVoucherKey (voucherKey d a) = Some (d, a)"
  proof -
    have key: "21 < length (voucherKey d a)" "drop (length (voucherKey d a) - 20) (voucherKey d a) = a"
      using k by (auto simp: splitVoucherKey_def Let_def split: if_splits)
    have "length a = 20" using key(1) arg_cong [OF key(2), of length] by simp
    then show ?thesis using key(1) by (auto simp: voucherKey_def denomWithDelim_def)
  qed
  then show "splitVoucherKey (voucherKey d a) = Some (d, a) \<longleftrightarrow> length a = 20 \<and> d \<noteq> ''''" using splitVoucherKey_account by blast
qed (simp_all add: splitVoucherKey_contract GetAllVouchers_cases holders_listed_def)

end
