(* ===== verification/Permission_Examples.thy ===== *)
theory Permission_Examples
  imports Permission_Laws Subaccount_Deposits
begin

text \<open>
  A namespace for one token on a concrete environment: everyone may send and receive, the admin holds all
  powers, and a blocked actor has a role without permissions. The examples show that the hypotheses of the
  properties of \<^verbatim>\<open>Permission_Laws\<close> hold on states the handlers build.
\<close>

definition token :: denom where "token = ''gold''"

definition perm_example_env :: perm_env where
  "perm_example_env = \<lparr>FromBech32 = (\<lambda>a. if a = '''' then None else Some a), ToBech32 = (\<lambda>a. a), tfModuleAddress = ''tokenfactory'',
     moduleAccounts = [''permissions'', ''exchange''], perm_authority = ''gov'', perm_module_address = ''permissions'', ContractHex = (\<lambda>c. c),
     GetDenomAdmin = (\<lambda>d. if d = token then Some ''alice'' else None), getEVMContractOwner = (\<lambda>_. None), IsHexAddress = (\<lambda>_. False),
     validateEvmHook = (\<lambda>_. Inl ErrInvalidEVMHook), validateWasmHook = (\<lambda>_. Inl ErrInvalidWasmHook), QueryWasmHook = (\<lambda>_ _ _ _ _. False),
     callEvmHook = (\<lambda>_ _ _ _ _. None), ValidDenom = (\<lambda>d. d \<noteq> '''')\<rparr>"

definition perm_empty :: permissions_state where
  "perm_empty = \<lparr>namespaces = [], roles = [], role_names = [], actor_roles = [], role_managers = [], policy_statuses = [], capabilities = [],
     vouchers = [], enforced_contracts = [], enforced_cache = None\<rparr>"

definition example_namespace :: Namespace where
  "example_namespace = \<lparr>ns_Denom = token, ns_WasmHook = '''',
     ns_RolePermissions = [\<lparr>role_Name = EVERYONE, RoleId = 0, role_Permissions = 10\<rparr>,
       \<lparr>role_Name = ''admin'', RoleId = 1, role_Permissions = ValidActionsBitmask\<rparr>,
       \<lparr>role_Name = ''blocked'', RoleId = 2, role_Permissions = 0\<rparr>],
     ns_ActorRoles = [\<lparr>ar_Actor = ''alice'', ar_Roles = [''admin'']\<rparr>, \<lparr>ar_Actor = ''bob'', ar_Roles = [''blocked'']\<rparr>],
     ns_RoleManagers = [], ns_PolicyStatuses = [\<lparr>ps_Action = Action_MINT, IsDisabled = True, IsSealed = True\<rparr>],
     ns_PolicyManagerCapabilities = [\<lparr>pc_Manager = ''alice'', pc_Action = Action_SEND, CanDisable = True, CanSeal = True\<rparr>],
     ns_EvmHook = ''''\<rparr>"

definition example_created :: permissions_state where
  "example_created = \<lparr>
     namespaces = [(token, \<lparr>ns_Denom = token, ns_WasmHook = '''', ns_RolePermissions = [], ns_ActorRoles = [], ns_RoleManagers = [],
       ns_PolicyStatuses = [], ns_PolicyManagerCapabilities = [], ns_EvmHook = ''''\<rparr>)],
     roles = [((token, 0), \<lparr>role_Name = EVERYONE, RoleId = 0, role_Permissions = 10\<rparr>),
       ((token, 1), \<lparr>role_Name = ''admin'', RoleId = 1, role_Permissions = 2013265951\<rparr>),
       ((token, 2), \<lparr>role_Name = ''blocked'', RoleId = 2, role_Permissions = 0\<rparr>)],
     role_names = [((token, EVERYONE), 0), ((token, ''admin''), 1), ((token, ''blocked''), 2)],
     actor_roles = [((token, ''alice''), [1]), ((token, ''bob''), [2])],
     role_managers = [((token, ''alice'', 0), 0), ((token, ''alice'', 1), 1), ((token, ''alice'', 2), 2)],
     policy_statuses = ((token, 1), NewPolicyStatus 1 True True) # map (\<lambda>a. ((token, a), NewPolicyStatus a False False)) (tl Actions),
     capabilities = [((token, ''alice'', 8), \<lparr>pc_Manager = ''alice'', pc_Action = 8, CanDisable = True, CanSeal = True\<rparr>)],
     vouchers = [], enforced_contracts = [], enforced_cache = None\<rparr>"

definition unblock_bob :: MsgUpdateActorRoles where
  "unblock_bob = \<lparr>ur_Sender = ''alice'', ur_Denom = token, ur_RoleActorsToAdd = [],
     ur_RoleActorsToRevoke = [\<lparr>ra_Role = ''blocked'', ra_Actors = [''bob'']\<rparr>]\<rparr>"

definition example_unblocked :: permissions_state where
  "example_unblocked = example_created\<lparr>actor_roles := [((token, ''alice''), [1])]\<rparr>"

definition example_sent :: permissions_state where
  "example_sent = example_created\<lparr>vouchers := [((token, ''bob''), 5)], enforced_cache := Some []\<rparr>"

definition example_claimed :: permissions_state where
  "example_claimed = example_sent\<lparr>vouchers := []\<rparr>"

lemma namespace_create:
  "MsgCreateNamespace_ValidateBasic perm_example_env ''alice'' example_namespace = Inr ()"
  "CreateNamespace perm_example_env perm_empty ''alice'' example_namespace = Inr example_created"
  by code_simp+

lemma example_unblock:
  "MsgUpdateActorRoles_ValidateBasic perm_example_env unblock_bob = Inr ()"
  "UpdateActorRoles perm_example_env example_created unblock_bob = Inr example_unblocked"
  by code_simp+

lemma example_send:
  "SendRestrictionFn perm_example_env example_created True ''carol'' ''bob'' token 5 = (example_sent, ''permissions'', Inr ())"
  by code_simp

lemma perm_ok_empty: "perm_ok perm_empty"
  by (simp add: perm_ok_def denom_ok_def perm_empty_def no_entries_def)

lemma create_step: "(perm_step perm_example_env)\<^sup>*\<^sup>* perm_empty example_created"
  using perm_step.create [OF namespace_create] by blast

lemma created_ok: "perm_ok example_created"
  using perm_steps_ok [OF create_step perm_ok_empty] by blast

lemma unblock_step: "(perm_step perm_example_env)\<^sup>*\<^sup>* example_created example_unblocked"
  using perm_step.update_actors [OF example_unblock] by blast


text \<open>The bank of the voucher example: whole ledgers, transfers as in the exchange's ledger.\<close>

definition example_purse :: ledger where
  "example_purse = (\<lambda>k. if k = (''carol'', token) then 5 else 0)"

definition example_parked :: ledger where
  "example_parked = (example_purse((''carol'', token) := 0))((''permissions'', token) := 5)"

definition example_paid :: ledger where
  "example_paid = (example_parked((''permissions'', token) := 0))((''bob'', token) := 5)"

lemma ledger_moves: "moves_coins (\<lambda>b a d. b (a, d)) ledger_send"
  by (auto simp: moves_coins_def ledger_send_Inr)

lemma example_transfers:
  "ledger_send example_purse ''carol'' ''permissions'' token 5 = Inr example_parked"
  "ledger_send example_parked ''permissions'' ''bob'' token 5 = Inr example_paid"
  by (simp_all add: ledger_send_def example_purse_def example_parked_def example_paid_def Let_def)

lemma example_claim:
  "perm_ClaimVoucher perm_example_env (\<lambda>b. ledger_send b (perm_module_address perm_example_env)) example_parked example_sent ''bob'' token
     = Inr (example_paid, example_claimed)"
  using example_transfers(2)
  by (simp add: perm_ClaimVoucher_def ClaimVoucher_def GetVoucher_def DeleteVoucher_def perm_example_env_def token_def example_sent_def example_claimed_def)

lemma example_voucher_steps:
  "(voucher_step perm_example_env ledger_send)\<^sup>*\<^sup>* (example_purse, example_created) (example_paid, example_claimed)"
proof -
  have "voucher_step perm_example_env ledger_send (example_purse, example_created) (example_parked, example_sent)"
    by (rule voucher_step.sent [where transfer = ledger_send, OF example_send example_transfers(1)]) (simp_all add: perm_example_env_def)
  moreover have "voucher_step perm_example_env ledger_send (example_parked, example_sent) (example_paid, example_claimed)"
    by (rule voucher_step.claimed [where transfer = ledger_send, OF example_claim]) (simp add: perm_example_env_def)
  ultimately show ?thesis by (meson converse_rtranclp_into_rtranclp rtranclp.rtrancl_refl)
qed

section \<open>Witnesses\<close>

theorem permissions_stay_well_formed_witness:
  "perm_ok example_created \<and> (\<exists>t. getTotalAllowedActionsForAddress example_created token ''alice'' = Inr t)"
proof -
  have "HasNamespace example_created token" by code_simp
  then show ?thesis using permissions_stay_well_formed [OF create_step perm_ok_empty] by blast
qed

theorem permission_check_spec_witness:
  "HasPermissionsForAction example_created token ''carol'' Action_SEND \<and> role_perms example_created token 0 \<noteq> 0"
proof -
  have "HasNamespace example_created token" "HasPermissionsForAction example_created token ''carol'' Action_SEND"
    "0 \<in> set (role_ids example_created token ''carol'')" by code_simp+
  then show ?thesis using permission_check_spec [OF created_ok, of token "''carol''" Action_SEND] by blast
qed

definition unhook :: MsgUpdateNamespace where
  "unhook = \<lparr>un_Sender = ''carol'', un_Denom = token, un_WasmHook = Some '''', un_RolePermissions = [], un_RoleManagers = [],
     un_PolicyStatuses = [], un_PolicyManagerCapabilities = [], un_EvmHook = None\<rparr>"

definition no_change :: MsgUpdateNamespace where
  "no_change = unhook\<lparr>un_WasmHook := None\<rparr>"

theorem everyone_has_no_admin_power_witness:
  "GetActorRoleIDs example_created token ''carol'' = [] \<and> \<not> HasPermissionsForAction example_created token ''carol'' Action_SUPER_BURN
   \<and> UpdateNamespace perm_example_env example_created unhook = Inl ErrUnauthorized
   \<and> UpdateNamespace perm_example_env example_created no_change = Inr example_created
   \<and> (\<exists>q. example_created = example_created\<lparr>policy_statuses := q\<rparr>)"
proof -
  have h: "HasNamespace example_created token" "GetActorRoleIDs example_created token ''carol'' = []"
    "UpdateNamespace perm_example_env example_created unhook = Inl ErrUnauthorized"
    "UpdateNamespace perm_example_env example_created no_change = Inr example_created"
    "un_Denom no_change = token" "FromBech32 perm_example_env (un_Sender no_change) = Some ''carol''" by code_simp+
  note t = everyone_has_no_admin_power [OF create_step perm_ok_empty h(1,2)]
  have "\<exists>q. example_created = example_created\<lparr>policy_statuses := q\<rparr>" using conjunct2 [OF t] h(4-6) by blast
  moreover have "\<not> HasPermissionsForAction example_created token ''carol'' Action_SUPER_BURN" using conjunct1 [OF t] by blast
  ultimately show ?thesis using h by simp
qed

theorem sealed_policy_is_final_witness:
  "IsActionDisabledByPolicy example_unblocked token Action_MINT"
proof -
  have "GetPolicyStatus example_created token Action_MINT = Inr (NewPolicyStatus 1 True True)" by code_simp
  then show ?thesis using sealed_policy_is_final [OF unblock_step created_ok] by (simp add: NewPolicyStatus_def)
qed

theorem actor_roles_updated_witness:
  "set (GetActorRoleIDs example_unblocked token ''bob'')
     = set (GetActorRoleIDs example_created token ''bob'') - assigned perm_example_env example_created token (ur_RoleActorsToRevoke unblock_bob) ''bob''"
  using actor_roles_updated [OF created_ok example_unblock(2), of "''bob''" token]
  by (simp add: unblock_bob_def assigned_def)

theorem send_restriction_outcomes_witness:
  "\<not> send_allowed perm_example_env example_created ''carol'' ''bob'' token 5 \<and> vouchers example_sent = [((token, ''bob''), 5)]"
proof -
  have v: "vouchers example_created = []" by code_simp
  then show ?thesis
    using send_restriction_outcomes [OF created_ok example_send] by (auto simp: example_sent_def split: if_splits)
qed

theorem vouchers_stay_backed_witness:
  "example_paid (''permissions'', token) - vouchers_in (vouchers example_claimed) token
     = example_purse (''permissions'', token) - vouchers_in (vouchers example_created) token"
proof -
  have "vouchers example_created = []" by code_simp
  then have "vouchers_ok example_created" using created_ok by (simp add: vouchers_ok_def)
  then show ?thesis
    using vouchers_stay_backed [OF ledger_moves _ example_voucher_steps, of token] by (simp add: perm_example_env_def)
qed

theorem voucher_key_decoding_witness:
  "splitVoucherKey (voucherKey token (replicate 32 (CHR ''a''))) = Some (''gold|aaaaaaaaaaa'', replicate 20 (CHR ''a''))
   \<and> GetAllVouchers (\<lambda>d. d = token) [((token, replicate 32 (CHR ''a'')), 5)] = Inl PanicVoucherCoin"
proof -
  have "\<forall>d. CHR ''|'' \<in> set d \<longrightarrow> \<not> d = token" by (auto simp: token_def)
  then show ?thesis
    using voucher_key_decoding [of token "replicate 32 (CHR ''a'')" "[((token, replicate 32 (CHR ''a'')), 5)]" "\<lambda>d. d = token"]
    by (simp add: token_def numeral_eq_Suc account_address_def)
qed

end
