(* ===== verification/Store_Keys.thy ===== *)
theory Store_Keys
  imports Chain_Prelude
begin

text \<open>
  Byte keys of the exchange stores (\<^verbatim>\<open>exchange/types/key.go\<close>) and the scans over them
  (\<^verbatim>\<open>exchange/keeper/base/spot_orders.go\<close>, \<^verbatim>\<open>subaccount.go\<close>): the skip scan that lists the
  subaccounts of an address from the order index, and the range scans by address.

  A byte string is a \<^typ>\<open>string\<close>, ordered lexicographically. A store is the ascending list of its
  keys, the order in which an iterator visits them; an iterator has the keys from its start, inclusive,
  to its end, exclusive. Decimal strings are printed and parsed by two libraries, which are parameters.
\<close>

section \<open>Keys\<close>

definition TrueByte :: char where "TrueByte = CHR 0x01"
definition FalseByte :: char where "FalseByte = CHR 0x00"

definition SpotLimitOrdersIndexPrefix :: string where "SpotLimitOrdersIndexPrefix = [CHR 0x14]"
definition SubaccountOrderbookMetadataPrefix :: string where "SubaccountOrderbookMetadataPrefix = [CHR 0x03]"

definition HashLength :: nat where "HashLength = 32"
definition AddressLength :: nat where "AddressLength = 20"

definition MarketDirectionPrefix :: "string \<Rightarrow> bool \<Rightarrow> string" where
  "MarketDirectionPrefix marketID isLong = marketID @ [if isLong then TrueByte else FalseByte]"

definition GetLimitOrderIndexSubaccountPrefix :: "string \<Rightarrow> bool \<Rightarrow> subaccount_id \<Rightarrow> string" where
  "GetLimitOrderIndexSubaccountPrefix marketID isBuy subaccountID = MarketDirectionPrefix marketID isBuy @ subaccountID"

definition GetLimitOrderIndexAccountAddressPrefix :: "string \<Rightarrow> bool \<Rightarrow> address \<Rightarrow> string" where
  "GetLimitOrderIndexAccountAddressPrefix marketID isBuy account = MarketDirectionPrefix marketID isBuy @ account"

definition GetSpotLimitOrderIndexByAccountAddressPrefix :: "string \<Rightarrow> bool \<Rightarrow> address \<Rightarrow> string" where
  "GetSpotLimitOrderIndexByAccountAddressPrefix marketID isBuy account =
     SpotLimitOrdersIndexPrefix @ GetLimitOrderIndexAccountAddressPrefix marketID isBuy account"

definition SpotLimitOrderIndexKey :: "string \<Rightarrow> bool \<Rightarrow> subaccount_id \<Rightarrow> string \<Rightarrow> string" where
  "SpotLimitOrderIndexKey marketID isBuy subaccountID orderHash =
     SpotLimitOrdersIndexPrefix @ GetLimitOrderIndexSubaccountPrefix marketID isBuy subaccountID @ orderHash"

definition GetSubaccountOrderbookMetadataKey :: "string \<Rightarrow> subaccount_id \<Rightarrow> bool \<Rightarrow> string" where
  "GetSubaccountOrderbookMetadataKey marketID subaccountID isBuy =
     SubaccountOrderbookMetadataPrefix @ (marketID @ subaccountID) @ [if isBuy then TrueByte else FalseByte]"

section \<open>Stores\<close>

definition NewStore :: "string list \<Rightarrow> string \<Rightarrow> string list" where
  "NewStore keys p = map (drop (length p)) (filter (\<lambda>k. take (length p) k = p) keys)"

definition store_Iterator :: "string list \<Rightarrow> string option \<Rightarrow> string option \<Rightarrow> string list" where
  "store_Iterator keys start stop =
     filter (\<lambda>k. (case start of None \<Rightarrow> True | Some s \<Rightarrow> s \<le> k) \<and> (case stop of None \<Rightarrow> True | Some e \<Rightarrow> k < e)) keys"

text \<open>Go's \<open>copy\<close> into a slice, of which it returns the new contents.\<close>

definition go_copy :: "string \<Rightarrow> string \<Rightarrow> string" where
  "go_copy dst src = take (length dst) src @ drop (length src) dst"

definition zero_bytes :: "nat \<Rightarrow> string" where
  "zero_bytes n = replicate n (CHR 0x00)"

section \<open>Scans\<close>

definition byte_inc :: "char \<Rightarrow> char" where
  "byte_inc c = char_of (of_char c + 1 :: nat)"

fun incrementFrom :: "nat \<Rightarrow> string \<Rightarrow> string option" where
  "incrementFrom 0 result = None"
| "incrementFrom (Suc i) result =
     (let result = result[i := byte_inc (result ! i)]
      in if result ! i \<noteq> CHR 0x00 then Some result else incrementFrom i result)"

definition incrementBytes :: "string \<Rightarrow> string option" where
  "incrementBytes b = incrementFrom (length b) b"

definition collect :: "subaccount_id \<Rightarrow> subaccount_id list \<times> subaccount_id set \<Rightarrow> subaccount_id list \<times> subaccount_id set" where
  "collect subaccountID rs = (if subaccountID \<in> snd rs then rs else (fst rs @ [subaccountID], insert subaccountID (snd rs)))"

definition subaccount_of :: "address \<Rightarrow> string \<Rightarrow> subaccount_id" where
  "subaccount_of accountAddress nonce =
     go_copy (zero_bytes AddressLength) accountAddress @ go_copy (zero_bytes (HashLength - AddressLength)) nonce"

text \<open>\<^term>\<open>None\<close> is a loop that does not end, or the panic on a key shorter than the nonce.\<close>

partial_function (option) skipScan ::
  "string list \<Rightarrow> nat \<Rightarrow> address \<Rightarrow> string option \<Rightarrow> subaccount_id list \<times> subaccount_id set \<Rightarrow> (subaccount_id list \<times> subaccount_id set) option" where
  "skipScan store nonceLen accountAddress start rs =
     (case store_Iterator store start None of
        [] \<Rightarrow> Some rs
      | key # _ \<Rightarrow>
          if length key < nonceLen then None
          else
            let nonce = take nonceLen key;
                rs = collect (subaccount_of accountAddress nonce) rs
            in (case incrementBytes nonce of
                  None \<Rightarrow> Some rs
                | Some start \<Rightarrow> skipScan store nonceLen accountAddress (Some start) rs))"

definition collectSubaccountsBySkipScan ::
  "string list \<Rightarrow> nat \<Rightarrow> address \<Rightarrow> subaccount_id list \<times> subaccount_id set \<Rightarrow> (subaccount_id list \<times> subaccount_id set) option" where
  "collectSubaccountsBySkipScan store nonceLen accountAddress rs = skipScan store nonceLen accountAddress None rs"

definition GetSpotOrderSubaccountIDsByAccountAddress :: "string list \<Rightarrow> string \<Rightarrow> address \<Rightarrow> subaccount_id list option" where
  "GetSpotOrderSubaccountIDsByAccountAddress store marketID accountAddress = do {
     let nonceLen = HashLength - AddressLength;
     rs \<leftarrow> collectSubaccountsBySkipScan (NewStore store (GetSpotLimitOrderIndexByAccountAddressPrefix marketID True accountAddress))
             nonceLen accountAddress ([], {});
     rs \<leftarrow> collectSubaccountsBySkipScan (NewStore store (GetSpotLimitOrderIndexByAccountAddressPrefix marketID False accountAddress))
             nonceLen accountAddress rs;
     Some (fst rs)
   }"

text \<open>The range of the subaccounts of an address: from the address to the next one, both padded with zeros.\<close>

definition addressRange :: "address \<Rightarrow> string option \<times> string option" where
  "addressRange accountAddress =
     (Some (go_copy (zero_bytes HashLength) accountAddress),
      map_option (go_copy (zero_bytes HashLength)) (incrementBytes accountAddress))"

definition collectRange ::
  "string list \<Rightarrow> address \<Rightarrow> subaccount_id list \<times> subaccount_id set \<Rightarrow> subaccount_id list \<times> subaccount_id set" where
  "collectRange store accountAddress rs =
     (let (start, endKey) = addressRange accountAddress
      in fold (\<lambda>key. collect (take HashLength key)) (store_Iterator store start endKey) rs)"

definition GetTransientSpotOrderSubaccountIDsByAccountAddress :: "string list \<Rightarrow> string \<Rightarrow> address \<Rightarrow> subaccount_id list" where
  "GetTransientSpotOrderSubaccountIDsByAccountAddress store marketID accountAddress =
     fst (fold (\<lambda>isBuy. collectRange (NewStore store (SpotLimitOrdersIndexPrefix @ MarketDirectionPrefix marketID isBuy)) accountAddress)
       [True, False] ([], {}))"

definition GetSubaccountIDsWithOrderbookMetadataForMarketByAccountAddress :: "string list \<Rightarrow> string \<Rightarrow> address \<Rightarrow> subaccount_id list" where
  "GetSubaccountIDsWithOrderbookMetadataForMarketByAccountAddress store marketID accountAddress =
     fst (collectRange (NewStore store (SubaccountOrderbookMetadataPrefix @ marketID)) accountAddress ([], {}))"

section \<open>Price keys\<close>

text \<open>\<open>StringFixed\<close> prints a price with 18 decimals and \<open>LegacyMustNewDecFromStr\<close> parses one, with
  \<^term>\<open>None\<close> for its panic.\<close>

definition strings_Cut :: "string \<Rightarrow> (string \<times> string) option" where
  "strings_Cut s = (if CHR ''.'' \<in> set s then Some (takeWhile (\<lambda>c. c \<noteq> CHR ''.'') s, tl (dropWhile (\<lambda>c. c \<noteq> CHR ''.'') s)) else None)"

definition zero_pad :: "nat \<Rightarrow> string \<Rightarrow> string" where
  "zero_pad w s = replicate (w - length s) (CHR ''0'') @ s"

definition getPaddedPriceFromString :: "string \<Rightarrow> string option" where
  "getPaddedPriceFromString price = map_option (\<lambda>(naturalPart, decimalPart). zero_pad 32 naturalPart @ ''.'' @ decimalPart) (strings_Cut price)"

definition GetPaddedPrice :: "(int \<Rightarrow> string) \<Rightarrow> int \<Rightarrow> string option" where
  "GetPaddedPrice StringFixed price = getPaddedPriceFromString (StringFixed price)"

definition strings_Trim :: "char \<Rightarrow> string \<Rightarrow> string" where
  "strings_Trim c s = rev (dropWhile (\<lambda>x. x = c) (rev (dropWhile (\<lambda>x. x = c) s)))"

definition GetPriceFromPaddedPrice :: "(string \<Rightarrow> int option) \<Rightarrow> string \<Rightarrow> int option" where
  "GetPriceFromPaddedPrice LegacyMustNewDecFromStr paddedPrice =
     (let priceString = strings_Trim (CHR ''0'') paddedPrice;
          priceString = (if priceString \<noteq> [] \<and> last priceString = CHR ''.'' then butlast priceString else priceString);
          priceString = (if take 1 priceString = ''.'' then ''0'' @ priceString else priceString);
          priceString = (if priceString = '''' then ''0'' else priceString)
      in LegacyMustNewDecFromStr priceString)"

definition GetOrderByPriceKeyPrefix :: "(int \<Rightarrow> string) \<Rightarrow> string \<Rightarrow> bool \<Rightarrow> int \<Rightarrow> string \<Rightarrow> string option" where
  "GetOrderByPriceKeyPrefix StringFixed marketID isBuy price orderHash =
     map_option (\<lambda>padded. MarketDirectionPrefix marketID isBuy @ padded @ orderHash) (GetPaddedPrice StringFixed price)"

section \<open>Lexicographic order and positional values\<close>

fun radix :: "('a \<Rightarrow> nat) \<Rightarrow> nat \<Rightarrow> 'a list \<Rightarrow> nat" where
  "radix f b [] = 0"
| "radix f b (x # xs) = f x * b ^ length xs + radix f b xs"

lemma radix_append: "radix f b (xs @ ys) = radix f b xs * b ^ length ys + radix f b ys"
  by (induction xs) (simp_all add: algebra_simps power_add)

lemma radix_bound: "\<forall>x \<in> set xs. f x < b \<Longrightarrow> radix f b xs < b ^ length xs"
proof (induction xs)
  case (Cons x xs)
  then have "radix f b xs < b ^ length xs" "Suc (f x) \<le> b" by simp_all
  then have "f x * b ^ length xs + radix f b xs < Suc (f x) * b ^ length xs" by simp
  also have "\<dots> \<le> b * b ^ length xs" using \<open>Suc (f x) \<le> b\<close> by (rule mult_le_mono1)
  finally show ?case by simp
qed simp

lemma radix_less:
  fixes xs ys :: "'a::linorder list"
  assumes "length xs = length ys" "\<forall>x \<in> set xs \<union> set ys. f x < b"
    and "\<forall>x \<in> set xs \<union> set ys. \<forall>y \<in> set xs \<union> set ys. f x < f y \<longleftrightarrow> x < y"
  shows "xs < ys \<longleftrightarrow> radix f b xs < radix f b ys"
  using assms
proof (induction xs ys rule: list_induct2)
  case (Cons x xs y ys)
  have bounds: "radix f b xs < b ^ length xs" "radix f b ys < b ^ length xs"
    using Cons radix_bound [of xs f b] radix_bound [of ys f b] by auto
  have step: "u * B + r < v * B + r'" if "u < v" "r < B" for u v B r r' :: nat
  proof -
    have "u * B + r < Suc u * B" using that(2) by simp
    also have "\<dots> \<le> v * B" using that(1) by (intro mult_le_mono1) simp
    finally show ?thesis by simp
  qed
  show ?case
  proof (cases x y rule: linorder_cases)
    case less
    then show ?thesis using step [of "f x" "f y" "radix f b xs" "b ^ length xs" "radix f b ys"] Cons.prems(2) bounds Cons(1) by simp
  next
    case equal
    then show ?thesis using Cons by simp
  next
    case greater
    then show ?thesis using step [of "f y" "f x" "radix f b ys" "b ^ length xs" "radix f b xs"] Cons.prems(2) bounds Cons(1) by auto
  qed
qed simp

lemma take_mono_lex: "(xs::'a::linorder list) \<le> ys \<Longrightarrow> take n xs \<le> take n ys"
proof (induction n arbitrary: xs ys)
  case (Suc n)
  then show ?case by (cases xs; cases ys) auto
qed simp

lemma take_less_lex: "take n (xs::'a::linorder list) < take n ys \<Longrightarrow> xs < ys"
proof (induction n arbitrary: xs ys)
  case (Suc n)
  then show ?case by (cases xs; cases ys) auto
qed simp

lemma le_take_lex: "length s \<le> n \<Longrightarrow> s \<le> take n xs \<longleftrightarrow> s \<le> (xs::'a::linorder list)"
proof (induction n arbitrary: s xs)
  case (Suc n)
  then show ?case by (cases s; cases xs) auto
qed simp

section \<open>Incrementing a byte string\<close>

abbreviation bytes_value :: "string \<Rightarrow> nat" where
  "bytes_value \<equiv> radix of_char 256"

lemma byte_inc_value: "byte_inc c = CHR 0x00 \<longleftrightarrow> of_char c = (255::nat)"
  "byte_inc c \<noteq> CHR 0x00 \<Longrightarrow> of_char (byte_inc c) = Suc (of_char c)"
proof -
  have b: "of_char c < (256::nat)" by simp
  have v: "of_char (byte_inc c) = Suc (of_char c) mod 256" by (simp add: byte_inc_def)
  have z: "byte_inc c = CHR 0x00 \<longleftrightarrow> of_char (byte_inc c) = (0::nat)" by (simp flip: of_char_eq_iff [where ?'a = nat])
  show "byte_inc c = CHR 0x00 \<longleftrightarrow> of_char c = (255::nat)" using b unfolding z v by (auto simp: mod_Suc)
  show "byte_inc c \<noteq> CHR 0x00 \<Longrightarrow> of_char (byte_inc c) = Suc (of_char c)" using b unfolding z v by (auto simp: mod_Suc split: if_splits)
qed

lemma bytes_less: "length xs = length ys \<Longrightarrow> (xs::string) < ys \<longleftrightarrow> bytes_value xs < bytes_value ys"
  by (rule radix_less) (auto simp: less_char_def)

lemma incrementFrom_spec:
  "(case incrementFrom (length p) (p @ z) of
      None \<Rightarrow> bytes_value p = 256 ^ length p - 1
    | Some r \<Rightarrow> \<exists>p'. r = p' @ z \<and> length p' = length p \<and> bytes_value p' = Suc (bytes_value p))"
proof (induction p arbitrary: z rule: rev_induct)
  case (snoc c p)
  let ?c = "byte_inc c"
  have u: "incrementFrom (length (p @ [c])) ((p @ [c]) @ z) =
      (if ?c \<noteq> CHR 0x00 then Some (p @ ?c # z) else incrementFrom (length p) (p @ ?c # z))"
    by (simp add: Let_def list_update_append nth_append)
  show ?case
  proof (cases "?c = CHR 0x00")
    case False
    then show ?thesis using byte_inc_value(2) [of c] unfolding u by (auto simp: radix_append intro!: exI [of _ "p @ [?c]"])
  next
    case True
    then have c: "of_char c = (255::nat)" using byte_inc_value(1) by blast
    show ?thesis
    proof (cases "incrementFrom (length p) (p @ ?c # z)")
      case None
      then have "bytes_value p = 256 ^ length p - 1" using snoc.IH [of "?c # z"] by simp
      then show ?thesis using None True c unfolding u by (simp add: radix_append algebra_simps diff_mult_distrib2)
    next
      case (Some r)
      then obtain p' where "r = p' @ ?c # z" "length p' = length p" "bytes_value p' = Suc (bytes_value p)"
        using snoc.IH [of "?c # z"] by auto
      then show ?thesis using Some True c unfolding u
        by (auto simp: radix_append intro!: exI [of _ "p' @ [?c]"])
    qed
  qed
qed simp

lemma incrementBytes_next:
  assumes "incrementBytes v = Some v'"
  shows "length v' = length v" and "length u = length v \<Longrightarrow> v < u \<longleftrightarrow> v' \<le> u"
proof -
  have v: "length v' = length v" "bytes_value v' = Suc (bytes_value v)"
    using assms incrementFrom_spec [of v "[]"] by (auto simp: incrementBytes_def)
  then show "length v' = length v" "length u = length v \<Longrightarrow> v < u \<longleftrightarrow> v' \<le> u"
    using bytes_less [of v u] bytes_less [of u v'] by (auto simp: not_less [symmetric])
qed

lemma incrementBytes_last:
  assumes "incrementBytes v = None" "length u = length v"
  shows "\<not> v < u"
proof -
  have "bytes_value v = 256 ^ length v - 1" using assms(1) incrementFrom_spec [of v "[]"] by (simp add: incrementBytes_def)
  moreover have "bytes_value u < 256 ^ length v" using radix_bound [of u of_char 256] assms(2) by simp
  ultimately show ?thesis using bytes_less [of v u] assms(2) by simp
qed


section \<open>The skip scan visits every nonce once\<close>

lemma collect_seen: "x \<in> snd rs \<Longrightarrow> fold collect xs rs = fold collect (filter (\<lambda>y. y \<noteq> x) xs) rs"
proof (induction xs arbitrary: rs)
  case (Cons y xs)
  then show ?case by (cases "y = x") (simp_all add: collect_def)
qed simp

lemma collect_result:
  assumes "distinct (fst rs)" "set (fst rs) = snd rs"
  shows "distinct (fst (fold collect xs rs)) \<and> set (fst (fold collect xs rs)) = snd rs \<union> set xs
    \<and> snd (fold collect xs rs) = snd rs \<union> set xs"
  using assms
proof (induction xs arbitrary: rs)
  case (Cons x xs)
  then show ?case using Cons.IH [of "collect x rs"] by (auto simp: collect_def)
qed simp

lemma filter_head: "filter P xs = k # r \<Longrightarrow> k \<in> set xs \<and> P k"
  using set_filter [of P xs] by auto

lemma sorted_filter_rest:
  assumes "sorted_wrt (<) (ks :: string list)" "filter (\<lambda>k. P k) ks = key # rest" "k \<in> set ks" "P k"
  shows "key \<le> k"
proof -
  have "sorted_wrt (<) (key # rest)" using sorted_wrt_filter [OF assms(1), of P] assms(2) by simp
  moreover have "k \<in> set (key # rest)" using assms(2) [symmetric] assms(3,4) by simp
  ultimately show ?thesis by auto
qed

lemma skip_rest:
  assumes s: "sorted_wrt (<) (ks :: string list)" and l: "\<forall>k \<in> set ks. n \<le> length k"
    and f: "filter (\<lambda>k. case start of None \<Rightarrow> True | Some st \<Rightarrow> st \<le> k) ks = key # rest"
  shows "filter (\<lambda>k. take n key < take n k) ks = filter (\<lambda>k. take n k \<noteq> take n key) (key # rest)"
proof -
  have key: "key \<in> set ks" "case start of None \<Rightarrow> True | Some st \<Rightarrow> st \<le> key"
    using filter_head [OF f] by blast+
  have "take n key < take n k \<longleftrightarrow> take n k \<noteq> take n key \<and> (case start of None \<Rightarrow> True | Some st \<Rightarrow> st \<le> k)"
    if k: "k \<in> set ks" for k
  proof
    assume lt: "take n key < take n k"
    then have "key < k" by (rule take_less_lex)
    then show "take n k \<noteq> take n key \<and> (case start of None \<Rightarrow> True | Some st \<Rightarrow> st \<le> k)"
      using key(2) lt by (auto split: option.splits)
  next
    assume r: "take n k \<noteq> take n key \<and> (case start of None \<Rightarrow> True | Some st \<Rightarrow> st \<le> k)"
    then have "key \<le> k" using sorted_filter_rest [OF s f k] by blast
    then show "take n key < take n k" using r take_mono_lex [of key k n] by (auto simp: order.strict_iff_order)
  qed
  then have "filter (\<lambda>k. take n key < take n k) ks
      = filter (\<lambda>k. take n k \<noteq> take n key) (filter (\<lambda>k. case start of None \<Rightarrow> True | Some st \<Rightarrow> st \<le> k) ks)"
    by (simp add: filter_filter conj_commute cong: filter_cong)
  then show ?thesis using f by simp
qed

lemma from_next:
  assumes "\<forall>k \<in> set ks. n \<le> length k" "length v = n" "incrementBytes v = Some v'"
  shows "filter (\<lambda>k. v' \<le> k) ks = filter (\<lambda>k. v < take n k) ks"
proof (rule filter_cong [OF refl])
  fix k
  assume "k \<in> set ks"
  then have "length (take n k) = length v" using assms(1,2) by simp
  then show "(v' \<le> k) = (v < take n k)"
    using incrementBytes_next(2) [OF assms(3)] incrementBytes_next(1) [OF assms(3)] le_take_lex [of v' n k] assms(2) by simp
qed

lemma skipScan_collects:
  assumes "sorted_wrt (<) ks" "\<forall>k \<in> set ks. n \<le> length k"
  shows "skipScan ks n a start rs
    = Some (fold collect (map (\<lambda>k. subaccount_of a (take n k)) (store_Iterator ks start None)) rs)"
proof (induction "length (store_Iterator ks start None)" arbitrary: start rs rule: less_induct)
  case less
  show ?case
  proof (cases "store_Iterator ks start None")
    case Nil
    then show ?thesis by (subst skipScan.simps) simp
  next
    case (Cons key rest)
    let ?nonce = "take n key" and ?sub = "\<lambda>k. subaccount_of a (take n k)"
    let ?rs = "collect (?sub key) rs"
    have key: "key \<in> set ks" "n \<le> length key"
      using filter_head [OF Cons [unfolded store_Iterator_def]] assms(2) by auto
    have seen: "?sub key \<in> snd ?rs" by (simp add: collect_def)
    have rest: "filter (\<lambda>k. ?nonce < take n k) ks = filter (\<lambda>k. take n k \<noteq> ?nonce) (key # rest)"
      using skip_rest [OF assms, of start key rest] Cons by (simp add: store_Iterator_def)
    have same: "fold collect (map ?sub (filter (\<lambda>k. take n k \<noteq> ?nonce) ks')) ?rs = fold collect (map ?sub ks') ?rs" for ks'
    proof -
      have "fold collect (map ?sub xs) ?rs = fold collect (map ?sub (filter (\<lambda>k. ?sub k \<noteq> ?sub key) xs)) ?rs" for xs
        using collect_seen [OF seen, of "map ?sub xs"] by (simp add: filter_map o_def)
      moreover have "filter (\<lambda>k. ?sub k \<noteq> ?sub key) (filter (\<lambda>k. take n k \<noteq> ?nonce) ks') = filter (\<lambda>k. ?sub k \<noteq> ?sub key) ks'"
        by (auto intro: filter_cong)
      ultimately show ?thesis by metis
    qed
    have all: "fold collect (map ?sub (filter (\<lambda>k. ?nonce < take n k) ks)) ?rs = fold collect (map ?sub (key # rest)) rs"
      using rest same [of "key # rest"] seen by (simp add: collect_def)
    show ?thesis
    proof (cases "incrementBytes ?nonce")
      case None
      then have "\<not> ?nonce < take n k" if "k \<in> set ks" for k
        using incrementBytes_last [OF None, of "take n k"] key(2) assms(2) that by simp
      then have "filter (\<lambda>k. ?nonce < take n k) ks = []" by (simp add: filter_empty_conv)
      then have "Some ?rs = Some (fold collect (map ?sub (key # rest)) rs)" using all by simp
      then show ?thesis using Cons None key(2) by (subst skipScan.simps) (simp add: Let_def)
    next
      case (Some v)
      have it: "store_Iterator ks (Some v) None = filter (\<lambda>k. ?nonce < take n k) ks"
        using from_next [OF assms(2) _ Some] key(2) by (simp add: store_Iterator_def)
      have "length (filter (\<lambda>k. take n k \<noteq> ?nonce) (key # rest)) < length (key # rest)"
        by (simp add: le_imp_less_Suc)
      then have "skipScan ks n a (Some v) ?rs = Some (fold collect (map ?sub (store_Iterator ks (Some v) None)) ?rs)"
        using less [of "Some v" ?rs] Cons it rest by simp
      then show ?thesis using Cons Some key(2) all it by (subst skipScan.simps) (simp add: Let_def)
    qed
  qed
qed


section \<open>Prefix stores\<close>

lemma prefix_less: "p @ x < p @ y \<longleftrightarrow> (x::string) < y"
  by (induction p) auto

lemma prefix_le: "p @ x \<le> p @ y \<longleftrightarrow> (x::string) \<le> y"
  by (induction p) auto

lemma set_NewStore: "x \<in> set (NewStore keys p) \<longleftrightarrow> p @ x \<in> set keys"
proof
  assume "x \<in> set (NewStore keys p)"
  then obtain k where "k \<in> set keys" "take (length p) k = p" "x = drop (length p) k" by (auto simp: NewStore_def)
  then show "p @ x \<in> set keys" by (metis append_take_drop_id)
next
  assume "p @ x \<in> set keys"
  then show "x \<in> set (NewStore keys p)" unfolding NewStore_def set_map set_filter by (intro image_eqI [of _ _ "p @ x"]) simp_all
qed

lemma sorted_NewStore:
  assumes "sorted_wrt (<) keys"
  shows "sorted_wrt (<) (NewStore keys p)"
proof -
  have p: "take (length p) k = p \<Longrightarrow> k = p @ drop (length p) k" for k by (metis append_take_drop_id)
  have "drop (length p) k < drop (length p) k'" if "take (length p) k = p" "take (length p) k' = p" "k < k'" for k k'
    using p [OF that(1)] p [OF that(2)] that(3) prefix_less [of p "drop (length p) k" "drop (length p) k'"] by simp
  then have "sorted_wrt (\<lambda>k k'. drop (length p) k < drop (length p) k') (filter (\<lambda>k. take (length p) k = p) keys)"
    using sorted_wrt_mono_rel [OF _ sorted_wrt_filter [OF assms, of "\<lambda>k. take (length p) k = p"]] by simp
  then show ?thesis by (simp add: NewStore_def sorted_wrt_map)
qed

section \<open>The order index\<close>

text \<open>What \<^verbatim>\<open>SetSpotLimitOrder\<close> writes under the prefix of the order index.\<close>

definition index_keys_ok :: "string list \<Rightarrow> bool" where
  "index_keys_ok store \<longleftrightarrow> (\<forall>k \<in> set store. take 1 k = SpotLimitOrdersIndexPrefix \<longrightarrow>
     (\<exists>m buy sub h. k = SpotLimitOrderIndexKey m buy sub h \<and> length m = HashLength \<and> length sub = HashLength \<and> length h = HashLength))"

definition index_subaccounts :: "string list \<Rightarrow> string \<Rightarrow> bool \<Rightarrow> address \<Rightarrow> subaccount_id set" where
  "index_subaccounts store marketID isBuy a =
     {sub. length sub = HashLength \<and> take AddressLength sub = a
       \<and> (\<exists>h. length h = HashLength \<and> SpotLimitOrderIndexKey marketID isBuy sub h \<in> set store)}"

lemma direction_byte: "(if b then TrueByte else FalseByte) = (if b' then TrueByte else FalseByte) \<longleftrightarrow> b = b'"
  by (simp add: TrueByte_def FalseByte_def)

lemma index_entry:
  assumes "index_keys_ok store" "length marketID = HashLength" "length a = AddressLength"
  shows "GetSpotLimitOrderIndexByAccountAddressPrefix marketID isBuy a @ x \<in> set store \<longleftrightarrow>
    (\<exists>nonce h. x = nonce @ h \<and> length nonce = HashLength - AddressLength \<and> length h = HashLength
       \<and> SpotLimitOrderIndexKey marketID isBuy (a @ nonce) h \<in> set store)"
    (is "?k \<in> _ \<longleftrightarrow> ?r")
proof
  assume k: "?k \<in> set store"
  then obtain m buy sub h where e: "?k = SpotLimitOrderIndexKey m buy sub h"
    "length m = HashLength" "length sub = HashLength" "length h = HashLength"
    using assms(1) by (fastforce simp: index_keys_ok_def GetSpotLimitOrderIndexByAccountAddressPrefix_def SpotLimitOrdersIndexPrefix_def)
  then have "marketID @ (if isBuy then TrueByte else FalseByte) # (a @ x) = m @ (if buy then TrueByte else FalseByte) # (sub @ h)"
    by (simp add: SpotLimitOrderIndexKey_def GetSpotLimitOrderIndexByAccountAddressPrefix_def GetLimitOrderIndexAccountAddressPrefix_def
        GetLimitOrderIndexSubaccountPrefix_def MarketDirectionPrefix_def)
  then have "m = marketID" "buy = isBuy" and ax: "a @ x = sub @ h"
    using assms(2) e(2) direction_byte [of isBuy buy] by (simp_all add: append_eq_append_conv)
  moreover have "sub = a @ take (HashLength - AddressLength) x" "h = drop (HashLength - AddressLength) x"
    using append_eq_conv_conj [THEN iffD1, OF ax [symmetric]] assms(3) e(3) by (simp_all add: HashLength_def AddressLength_def)
  ultimately show ?r using k e by (intro exI [of _ "take (HashLength - AddressLength) x"] exI [of _ "drop (HashLength - AddressLength) x"])
      (auto simp: HashLength_def AddressLength_def)
next
  assume ?r
  then show "?k \<in> set store"
    by (auto simp: SpotLimitOrderIndexKey_def GetSpotLimitOrderIndexByAccountAddressPrefix_def GetLimitOrderIndexAccountAddressPrefix_def
        GetLimitOrderIndexSubaccountPrefix_def)
qed

lemma subaccount_of_parts:
  "length a = AddressLength \<Longrightarrow> length nonce = HashLength - AddressLength \<Longrightarrow> subaccount_of a nonce = a @ nonce"
  by (simp add: subaccount_of_def go_copy_def zero_bytes_def)

lemma scan_side:
  fixes store marketID isBuy a
  defines "P \<equiv> GetSpotLimitOrderIndexByAccountAddressPrefix marketID isBuy a"
  assumes "sorted_wrt (<) store" "index_keys_ok store" "length marketID = HashLength" "length a = AddressLength"
  shows "\<exists>subs. collectSubaccountsBySkipScan (NewStore store P) (HashLength - AddressLength) a rs = Some (fold collect subs rs)
    \<and> set subs = index_subaccounts store marketID isBuy a"
proof -
  let ?n = "HashLength - AddressLength" and ?ks = "NewStore store P"
  note entry = index_entry [OF assms(3-5), of isBuy, folded P_def]
  have len: "\<forall>k \<in> set ?ks. ?n \<le> length k" by (auto simp: set_NewStore entry)
  have all: "store_Iterator ?ks None None = ?ks" by (simp add: store_Iterator_def)
  have "collectSubaccountsBySkipScan ?ks ?n a rs = Some (fold collect (map (\<lambda>k. subaccount_of a (take ?n k)) ?ks) rs)"
    using skipScan_collects [OF sorted_NewStore [OF assms(2)] len] by (simp add: collectSubaccountsBySkipScan_def all)
  moreover have "(\<lambda>k. subaccount_of a (take ?n k)) ` set ?ks = index_subaccounts store marketID isBuy a" (is "?l = ?r")
  proof
    show "?l \<subseteq> ?r"
      using assms(5) unfolding set_NewStore entry index_subaccounts_def
      by (auto simp: set_NewStore entry subaccount_of_parts HashLength_def AddressLength_def; blast)
    show "?r \<subseteq> ?l"
    proof
      fix sub
      assume "sub \<in> ?r"
      then obtain h where h: "length sub = HashLength" "take AddressLength sub = a" "length h = HashLength"
        "SpotLimitOrderIndexKey marketID isBuy sub h \<in> set store" by (auto simp: index_subaccounts_def)
      define nonce where "nonce = drop AddressLength sub"
      have sub: "sub = a @ nonce" "length nonce = ?n" using h(1,2) by (auto simp: nonce_def)
      then have "nonce @ h \<in> set ?ks" unfolding set_NewStore entry using h by blast
      moreover have "subaccount_of a (take ?n (nonce @ h)) = sub" using sub assms(5) by (simp add: subaccount_of_parts)
      ultimately show "sub \<in> ?l" by force
    qed
  qed
  ultimately show ?thesis by (intro exI conjI) auto
qed


section \<open>Ranges by address\<close>

lemma zero_bytes_le: "n \<le> length x \<Longrightarrow> zero_bytes n \<le> x"
proof (induction n arbitrary: x)
  case (Suc n)
  then obtain c y where "x = c # y" "n \<le> length y" by (cases x) auto
  moreover have "CHR 0x00 \<le> c" by (simp add: less_eq_char_def)
  ultimately show ?case using Suc.IH [of y] by (auto simp: zero_bytes_def order.strict_iff_order)
qed (simp add: zero_bytes_def)

lemma padded_le: "length p + n \<le> length k \<Longrightarrow> p @ zero_bytes n \<le> k \<longleftrightarrow> p \<le> take (length p) k"
proof (induction p arbitrary: k)
  case Nil
  then show ?case by (simp add: zero_bytes_le)
next
  case (Cons c p)
  then show ?case by (cases k) auto
qed

lemma in_address_range:
  assumes "length a = AddressLength" "HashLength \<le> length k"
  shows "(case addressRange a of (start, stop) \<Rightarrow>
      (case start of None \<Rightarrow> True | Some s \<Rightarrow> s \<le> k) \<and> (case stop of None \<Rightarrow> True | Some e \<Rightarrow> k < e)) \<longleftrightarrow> take AddressLength k = a"
proof -
  let ?u = "take AddressLength k"
  have pad: "go_copy (zero_bytes HashLength) b = b @ zero_bytes (HashLength - AddressLength)" if "length b = AddressLength" for b
    using that by (simp add: go_copy_def zero_bytes_def HashLength_def AddressLength_def)
  have len: "AddressLength + (HashLength - AddressLength) \<le> length k" "length ?u = AddressLength"
    using assms(2) by (simp_all add: HashLength_def AddressLength_def)
  have start: "go_copy (zero_bytes HashLength) b \<le> k \<longleftrightarrow> b \<le> ?u" if "length b = AddressLength" for b
    unfolding pad [OF that] using padded_le [of b "HashLength - AddressLength" k] len(1) that by simp
  show ?thesis
  proof (cases "incrementBytes a")
    case None
    then have "\<not> a < ?u" using incrementBytes_last [OF None, of ?u] len(2) assms(1) by simp
    then show ?thesis using None start [OF assms(1)] by (auto simp: addressRange_def)
  next
    case (Some a')
    note n = incrementBytes_next [OF Some]
    have "k < go_copy (zero_bytes HashLength) a' \<longleftrightarrow> \<not> a < ?u"
      using start [of a'] n(2) [of ?u] n(1) len(2) assms(1) by (simp add: not_le [symmetric])
    then show ?thesis using Some start [OF assms(1)] by (auto simp: addressRange_def)
  qed
qed

definition range_subaccounts :: "string list \<Rightarrow> address \<Rightarrow> subaccount_id list" where
  "range_subaccounts keys a = map (take HashLength) (filter (\<lambda>k. take AddressLength k = a) keys)"

lemma collectRange_collects:
  assumes "length a = AddressLength" "\<forall>k \<in> set keys. HashLength \<le> length k"
  shows "collectRange keys a rs = fold collect (range_subaccounts keys a) rs"
proof -
  have "store_Iterator keys (fst (addressRange a)) (snd (addressRange a)) = filter (\<lambda>k. take AddressLength k = a) keys"
    unfolding store_Iterator_def using in_address_range [OF assms(1)] assms(2) by (intro filter_cong) (auto simp: case_prod_beta)
  then show ?thesis by (simp add: collectRange_def range_subaccounts_def case_prod_beta Let_def fold_map o_def)
qed

lemma range_members:
  assumes "\<And>x. x \<in> set keys \<longleftrightarrow> (\<exists>sub t. x = sub @ t \<and> length sub = HashLength \<and> Q sub t)"
  shows "set (range_subaccounts keys a) = {sub. length sub = HashLength \<and> take AddressLength sub = a \<and> (\<exists>t. Q sub t)}"
    and "\<forall>k \<in> set keys. HashLength \<le> length k"
proof -
  have AH: "AddressLength \<le> HashLength" by (simp add: AddressLength_def HashLength_def)
  have l: "sub \<in> set (range_subaccounts keys a) \<longleftrightarrow> (\<exists>x \<in> set keys. take AddressLength x = a \<and> sub = take HashLength x)" for sub
    by (auto simp: range_subaccounts_def)
  have r: "(\<exists>x \<in> set keys. take AddressLength x = a \<and> sub = take HashLength x) \<longleftrightarrow> length sub = HashLength \<and> take AddressLength sub = a \<and> (\<exists>t. Q sub t)" for sub
  proof
    assume "\<exists>x \<in> set keys. take AddressLength x = a \<and> sub = take HashLength x"
    then obtain x where x: "x \<in> set keys" "take AddressLength x = a" "sub = take HashLength x" by blast
    obtain u t where "x = u @ t" "length u = HashLength" "Q u t" using assms [THEN iffD1, OF x(1)] by blast
    then show "length sub = HashLength \<and> take AddressLength sub = a \<and> (\<exists>t. Q sub t)" using x(2,3) AH by auto
  next
    assume r: "length sub = HashLength \<and> take AddressLength sub = a \<and> (\<exists>t. Q sub t)"
    then obtain t where t: "Q sub t" by blast
    have "sub @ t \<in> set keys" by (rule assms [THEN iffD2]) (use r t in blast)
    moreover have "take AddressLength (sub @ t) = a" "sub = take HashLength (sub @ t)" using r AH by auto
    ultimately show "\<exists>x \<in> set keys. take AddressLength x = a \<and> sub = take HashLength x" by blast
  qed
  show "set (range_subaccounts keys a) = {sub. length sub = HashLength \<and> take AddressLength sub = a \<and> (\<exists>t. Q sub t)}"
    unfolding set_eq_iff mem_Collect_eq l r by blast
  show "\<forall>k \<in> set keys. HashLength \<le> length k"
  proof
    fix k
    assume "k \<in> set keys"
    then show "HashLength \<le> length k" using assms [THEN iffD1, of k] by auto
  qed
qed

definition metadata_keys_ok :: "string list \<Rightarrow> bool" where
  "metadata_keys_ok store \<longleftrightarrow> (\<forall>k \<in> set store. take 1 k = SubaccountOrderbookMetadataPrefix \<longrightarrow>
     (\<exists>m sub buy. k = GetSubaccountOrderbookMetadataKey m sub buy \<and> length m = HashLength \<and> length sub = HashLength))"

lemma transient_entry:
  assumes "index_keys_ok store" "length marketID = HashLength"
  shows "(SpotLimitOrdersIndexPrefix @ MarketDirectionPrefix marketID isBuy) @ x \<in> set store \<longleftrightarrow>
    (\<exists>sub h. x = sub @ h \<and> length sub = HashLength \<and> length h = HashLength \<and> SpotLimitOrderIndexKey marketID isBuy sub h \<in> set store)"
    (is "?k \<in> _ \<longleftrightarrow> ?r")
proof
  assume k: "?k \<in> set store"
  then obtain m buy sub h where e: "?k = SpotLimitOrderIndexKey m buy sub h"
    "length m = HashLength" "length sub = HashLength" "length h = HashLength"
    using assms(1) by (fastforce simp: index_keys_ok_def SpotLimitOrdersIndexPrefix_def)
  then have "m = marketID" "buy = isBuy" "x = sub @ h"
    using assms(2) direction_byte [of isBuy buy]
    by (simp_all add: SpotLimitOrderIndexKey_def GetLimitOrderIndexSubaccountPrefix_def MarketDirectionPrefix_def append_eq_append_conv)
  then show ?r using k e by auto
next
  assume ?r
  then show "?k \<in> set store" by (auto simp: SpotLimitOrderIndexKey_def GetLimitOrderIndexSubaccountPrefix_def)
qed

lemma metadata_entry:
  assumes "metadata_keys_ok store" "length marketID = HashLength"
  shows "(SubaccountOrderbookMetadataPrefix @ marketID) @ x \<in> set store \<longleftrightarrow>
    (\<exists>sub buy. x = sub @ [if buy then TrueByte else FalseByte] \<and> length sub = HashLength
       \<and> GetSubaccountOrderbookMetadataKey marketID sub buy \<in> set store)"
    (is "?k \<in> _ \<longleftrightarrow> ?r")
proof
  assume k: "?k \<in> set store"
  have "take 1 ?k = SubaccountOrderbookMetadataPrefix" by (simp add: SubaccountOrderbookMetadataPrefix_def)
  then obtain m sub buy where e: "?k = GetSubaccountOrderbookMetadataKey m sub buy" "length m = HashLength" "length sub = HashLength"
    using assms(1) k unfolding metadata_keys_ok_def by metis
  then have "m = marketID" "x = sub @ [if buy then TrueByte else FalseByte]"
    using assms(2) by (simp_all add: GetSubaccountOrderbookMetadataKey_def append_eq_append_conv)
  then show ?r using k [unfolded e(1)] e(3) by blast
next
  assume ?r
  then show "?k \<in> set store" by (auto simp: GetSubaccountOrderbookMetadataKey_def)
qed


section \<open>Decimal strings\<close>

definition digit :: "nat \<Rightarrow> char" where
  "digit d = char_of (48 + d)"

fun dec_digits :: "nat \<Rightarrow> string" where
  "dec_digits n = (if n < 10 then [digit n] else dec_digits (n div 10) @ [digit (n mod 10)])"

declare dec_digits.simps [simp del]

definition is_digit :: "char \<Rightarrow> bool" where
  "is_digit c \<longleftrightarrow> 48 \<le> (of_char c :: nat) \<and> (of_char c :: nat) \<le> 57"

abbreviation digits_value :: "string \<Rightarrow> nat" where
  "digits_value \<equiv> radix (\<lambda>c. of_char c - 48) 10"

text \<open>What the two libraries document: \<open>StringFixed(18)\<close> prints the whole part and 18 decimals, and parsing
  reads a decimal number of up to 18 decimals exactly.\<close>

definition prints_fixed :: "(int \<Rightarrow> string) \<Rightarrow> bool" where
  "prints_fixed StringFixed \<longleftrightarrow> (\<forall>p \<ge> 0. StringFixed p =
     dec_digits (nat (p div 10 ^ 18)) @ ''.'' @ zero_pad 18 (dec_digits (nat (p mod 10 ^ 18))))"

definition parses_decimals :: "(string \<Rightarrow> int option) \<Rightarrow> bool" where
  "parses_decimals parse \<longleftrightarrow> (\<forall>xs ys. xs \<noteq> [] \<longrightarrow> length xs \<le> 32 \<longrightarrow> length ys \<le> 18 \<longrightarrow> (\<forall>c \<in> set xs \<union> set ys. is_digit c) \<longrightarrow>
     parse (xs @ (if ys = [] then [] else CHR ''.'' # ys)) =
       Some (int (digits_value xs) * 10 ^ 18 + int (digits_value ys) * 10 ^ (18 - length ys)))"

lemma is_digit_digit: "d < 10 \<Longrightarrow> is_digit (digit d) \<and> of_char (digit d) = 48 + d"
  by (simp add: digit_def is_digit_def)

lemma dec_digits_spec: "(\<forall>c \<in> set (dec_digits n). is_digit c) \<and> digits_value (dec_digits n) = n \<and> dec_digits n \<noteq> []"
proof (induction n rule: dec_digits.induct)
  case (1 n)
  then show ?case by (subst (1 2 3) dec_digits.simps) (auto simp: is_digit_digit radix_append)
qed

lemma dec_digits_length: "n < 10 ^ k \<Longrightarrow> 0 < k \<Longrightarrow> length (dec_digits n) \<le> k"
proof (induction k arbitrary: n)
  case (Suc k)
  show ?case
  proof (cases "n < 10")
    case True
    then show ?thesis by (subst dec_digits.simps) simp
  next
    case False
    then have "0 < k" "n div 10 < 10 ^ k" using Suc.prems by (auto intro: gr0I simp: less_mult_imp_div_less mult.commute)
    then show ?thesis using Suc.IH [of "n div 10"] False by (subst dec_digits.simps) simp
  qed
qed simp

lemma radix_zeros: "f z = 0 \<Longrightarrow> radix f b (replicate n z @ xs) = radix f b xs"
  by (induction n) simp_all

lemma zero_pad_spec:
  assumes "length s \<le> w" "\<forall>c \<in> set s. is_digit c"
  shows "length (zero_pad w s) = w" "\<forall>c \<in> set (zero_pad w s). is_digit c" "digits_value (zero_pad w s) = digits_value s"
  using assms by (auto simp: zero_pad_def radix_zeros is_digit_def)

lemma digits_less:
  assumes "length xs = length ys" "\<forall>c \<in> set xs \<union> set ys. is_digit c"
  shows "xs < ys \<longleftrightarrow> digits_value xs < digits_value ys"
proof (rule radix_less [OF assms(1)])
  have d: "is_digit c \<Longrightarrow> of_char c - 48 < (10::nat)" "is_digit c \<Longrightarrow> is_digit d \<Longrightarrow> of_char c - 48 < of_char d - (48::nat) \<longleftrightarrow> c < d" for c d
    by (auto simp: is_digit_def less_char_def)
  show "\<forall>x \<in> set xs \<union> set ys. of_char x - 48 < (10::nat)" using assms(2) d(1) by blast
  show "\<forall>x \<in> set xs \<union> set ys. \<forall>y \<in> set xs \<union> set ys. of_char x - 48 < of_char y - (48::nat) \<longleftrightarrow> x < y" using assms(2) d(2) by blast
qed

lemma append_less: "length xs = length ys \<Longrightarrow> xs @ u < ys @ v \<longleftrightarrow> xs < ys \<or> xs = ys \<and> (u::string) < v"
  by (induction xs ys rule: list_induct2) auto

lemma no_point: "is_digit c \<Longrightarrow> c \<noteq> CHR ''.''"
  by (auto simp: is_digit_def)


lemma Cut_at_point: "\<forall>c \<in> set n. c \<noteq> CHR ''.'' \<Longrightarrow> strings_Cut (n @ CHR ''.'' # d) = Some (n, d)"
  by (auto simp: strings_Cut_def takeWhile_append2)

lemma dropWhile_point: "dropWhile (\<lambda>x. x = CHR ''0'') (n @ CHR ''.'' # d) = dropWhile (\<lambda>x. x = CHR ''0'') n @ CHR ''.'' # d"
  by (induction n) auto

lemma leading_zeros: "digits_value (dropWhile (\<lambda>x. x = CHR ''0'') xs) = digits_value xs"
  by (induction xs) auto

lemma trailing_zeros:
  fixes xs :: string
  defines "ys \<equiv> rev (dropWhile (\<lambda>x. x = CHR ''0'') (rev xs))"
  shows "xs = ys @ replicate (length xs - length ys) (CHR ''0'')" "digits_value xs = digits_value ys * 10 ^ (length xs - length ys)"
    and "ys \<noteq> [] \<Longrightarrow> last ys \<in> set xs" "set ys \<subseteq> set xs"
proof -
  let ?zs = "takeWhile (\<lambda>x. x = CHR ''0'') (rev xs)"
  have z: "?zs = replicate (length ?zs) (CHR ''0'')" by (rule replicate_eqI) (auto dest: set_takeWhileD)
  have "xs = ys @ rev ?zs" unfolding ys_def by (metis rev_append rev_rev_ident takeWhile_dropWhile_id)
  moreover have "rev ?zs = replicate (length ?zs) (CHR ''0'')" by (subst z) simp
  moreover have "length ?zs = length xs - length ys" using arg_cong [OF \<open>xs = ys @ rev ?zs\<close>, of length] by simp
  ultimately show e: "xs = ys @ replicate (length xs - length ys) (CHR ''0'')" by simp
  show "digits_value xs = digits_value ys * 10 ^ (length xs - length ys)"
    using radix_zeros [of "\<lambda>c. of_char c - 48" "CHR ''0''" 10 "length xs - length ys" "[]"] by (subst e) (simp add: radix_append)
  show "set ys \<subseteq> set xs" using arg_cong [OF e, of set] by auto
  then show "ys \<noteq> [] \<Longrightarrow> last ys \<in> set xs" by auto
qed

lemma trimmed_price:
  fixes A D :: string
  defines "A' \<equiv> dropWhile (\<lambda>x. x = CHR ''0'') A" and "D' \<equiv> rev (dropWhile (\<lambda>x. x = CHR ''0'') (rev D))"
  assumes "\<forall>c \<in> set A \<union> set D. is_digit c"
  shows "GetPriceFromPaddedPrice parse (A @ CHR ''.'' # D)
    = parse ((if A' = [] then ''0'' else A') @ (if D' = [] then [] else CHR ''.'' # D'))"
proof -
  have "strings_Trim (CHR ''0'') (A @ CHR ''.'' # D) = A' @ CHR ''.'' # D'"
  proof -
    have "dropWhile (\<lambda>x. x = CHR ''0'') (A @ CHR ''.'' # D) = A' @ CHR ''.'' # D" unfolding A'_def by (rule dropWhile_point)
    moreover have "dropWhile (\<lambda>x. x = CHR ''0'') (rev (A' @ CHR ''.'' # D)) = dropWhile (\<lambda>x. x = CHR ''0'') (rev D) @ CHR ''.'' # rev A'"
      using dropWhile_point [of "rev D" "rev A'"] by simp
    ultimately show ?thesis unfolding strings_Trim_def D'_def by simp
  qed
  moreover have "last D' \<noteq> CHR ''.''" if "D' \<noteq> []"
  proof -
    have "last D' \<in> set D" using trailing_zeros(3) [of D] that by (simp add: D'_def)
    then show ?thesis using assms(3) no_point by auto
  qed
  moreover have "take 1 A' \<noteq> ''.''"
  proof
    assume "take 1 A' = ''.''"
    then have "CHR ''.'' \<in> set A'" by (cases A') simp_all
    then have "CHR ''.'' \<in> set A" unfolding A'_def by (rule set_dropWhileD)
    then show False using assms(3) no_point by blast
  qed
  ultimately show ?thesis by (cases A'; cases "D' = []") (simp_all add: GetPriceFromPaddedPrice_def Let_def butlast_append)
qed

lemma price_string:
  assumes "prints_fixed F" "0 \<le> p" "p < 10 ^ 50"
  obtains A D where "GetPaddedPrice F p = Some (A @ CHR ''.'' # D)" "length A = 32" "length D = 18"
    "\<forall>c \<in> set A \<union> set D. is_digit c" "p = int (digits_value A) * 10 ^ 18 + int (digits_value D)"
proof -
  let ?n = "nat (p div 10 ^ 18)" and ?d = "nat (p mod 10 ^ 18)"
  have "?n < 10 ^ 32" "?d < 10 ^ 18" using assms(2,3) by (simp_all add: nat_less_iff)
  then have l: "length (dec_digits ?n) \<le> 32" "length (dec_digits ?d) \<le> 18" using dec_digits_length [of ?n 32] dec_digits_length [of ?d 18] by simp_all
  have g: "\<forall>c \<in> set (dec_digits k). is_digit c" "digits_value (dec_digits k) = k" for k using dec_digits_spec by blast+
  note n = zero_pad_spec [OF l(1) g(1)] and d = zero_pad_spec [OF l(2) g(1)]
  have "F p = dec_digits ?n @ CHR ''.'' # zero_pad 18 (dec_digits ?d)" using assms(1,2) by (simp add: prints_fixed_def)
  moreover have "\<forall>c \<in> set (dec_digits ?n). c \<noteq> CHR ''.''" using g(1) no_point by blast
  ultimately have "GetPaddedPrice F p = Some (zero_pad 32 (dec_digits ?n) @ CHR ''.'' # zero_pad 18 (dec_digits ?d))"
    by (simp add: GetPaddedPrice_def getPaddedPriceFromString_def Cut_at_point)
  moreover have "p = int ?n * 10 ^ 18 + int ?d" using assms(2) by (simp add: pos_imp_zdiv_nonneg_iff)
  then have "p = int (digits_value (zero_pad 32 (dec_digits ?n))) * 10 ^ 18 + int (digits_value (zero_pad 18 (dec_digits ?d)))"
    unfolding n(3) d(3) g(2) .
  ultimately show ?thesis using that n(1,2) d(1,2) by blast
qed

lemma parsed_price:
  assumes "parses_decimals parse" "length A = 32" "length D = 18" "\<forall>c \<in> set A \<union> set D. is_digit c"
    and "p = int (digits_value A) * 10 ^ 18 + int (digits_value D)"
  shows "GetPriceFromPaddedPrice parse (A @ CHR ''.'' # D) = Some p"
proof -
  define A' D' where "A' = dropWhile (\<lambda>x. x = CHR ''0'') A" and "D' = rev (dropWhile (\<lambda>x. x = CHR ''0'') (rev D))"
  note t = trailing_zeros [of D, folded D'_def]
  have a: "set A' \<subseteq> set A" "length A' \<le> 32" "digits_value A' = digits_value A"
    using set_dropWhileD [of _ _ A] length_dropWhile_le [of _ A] assms(2) leading_zeros [of A] by (auto simp: A'_def)
  let ?A = "if A' = [] then ''0'' else A'"
  have "digits_value ?A = digits_value A" "length ?A \<le> 32" using a by auto
  moreover have "\<forall>c \<in> set ?A \<union> set D'. is_digit c" using a(1) t(4) assms(4) by (auto simp: is_digit_def)
  moreover have "length D' \<le> 18" using arg_cong [OF t(1), of length] assms(3) by simp
  ultimately have "parse (?A @ (if D' = [] then [] else CHR ''.'' # D'))
      = Some (int (digits_value A) * 10 ^ 18 + int (digits_value D') * 10 ^ (18 - length D'))"
    using assms(1) [unfolded parses_decimals_def, rule_format, of ?A D'] by simp
  also have "int (digits_value D') * 10 ^ (18 - length D') = int (digits_value D)" unfolding t(2) assms(3) by simp
  finally show ?thesis unfolding trimmed_price [OF assms(4), folded A'_def D'_def] assms(5) .
qed

lemma padded_less:
  assumes "length A = 32" "length B = 32" "length D = 18" "length G = 18" "\<forall>c \<in> set A \<union> set D. is_digit c" "\<forall>c \<in> set B \<union> set G. is_digit c"
  shows "(A @ CHR ''.'' # D) @ h < (B @ CHR ''.'' # G) @ h' \<longleftrightarrow>
    digits_value A * 10 ^ 18 + digits_value D < digits_value B * 10 ^ 18 + digits_value G
    \<or> digits_value A * 10 ^ 18 + digits_value D = digits_value B * 10 ^ 18 + digits_value G \<and> h < (h' :: string)"
proof -
  have less: "A @ D < B @ G \<longleftrightarrow> digits_value (A @ D) < digits_value (B @ G)" using digits_less [of "A @ D" "B @ G"] assms by auto
  have greater: "B @ G < A @ D \<longleftrightarrow> digits_value (B @ G) < digits_value (A @ D)" using digits_less [of "B @ G" "A @ D"] assms by auto
  have "(A @ CHR ''.'' # D) @ h < (B @ CHR ''.'' # G) @ h' \<longleftrightarrow> A < B \<or> A = B \<and> (D < G \<or> D = G \<and> h < h')"
    using assms append_less [of A B "CHR ''.'' # D @ h" "CHR ''.'' # G @ h'"] append_less [of D G h h'] by simp
  also have "\<dots> \<longleftrightarrow> A @ D < B @ G \<or> A @ D = B @ G \<and> h < h'" using assms append_less [of A B D G] by auto
  also have "A @ D = B @ G \<longleftrightarrow> digits_value (A @ D) = digits_value (B @ G)" using less greater by (metis less_irrefl linorder_neqE)
  finally show ?thesis using less assms(3,4) by (simp add: radix_append)
qed

section \<open>Properties\<close>

text \<open>C14: The skip scan ends, and lists every subaccount of the address with a resting spot order in the market
  exactly once, whichever side the order is on, although it reads only one key per subaccount and side.\<close>

theorem skip_scan_lists_subaccounts:
  assumes "sorted_wrt (<) store" "index_keys_ok store" "length marketID = HashLength" "length a = AddressLength"
  shows "\<exists>r. GetSpotOrderSubaccountIDsByAccountAddress store marketID a = Some r \<and> distinct r
    \<and> set r = {sub. length sub = HashLength \<and> take AddressLength sub = a
        \<and> (\<exists>isBuy h. length h = HashLength \<and> SpotLimitOrderIndexKey marketID isBuy sub h \<in> set store)}"
proof -
  obtain buys where b: "collectSubaccountsBySkipScan (NewStore store (GetSpotLimitOrderIndexByAccountAddressPrefix marketID True a))
      (HashLength - AddressLength) a ([], {}) = Some (fold collect buys ([], {}))" "set buys = index_subaccounts store marketID True a"
    using scan_side [OF assms] by blast
  obtain sells where s: "collectSubaccountsBySkipScan (NewStore store (GetSpotLimitOrderIndexByAccountAddressPrefix marketID False a))
      (HashLength - AddressLength) a (fold collect buys ([], {})) = Some (fold collect sells (fold collect buys ([], {})))"
      "set sells = index_subaccounts store marketID False a"
    using scan_side [OF assms] by blast
  have "GetSpotOrderSubaccountIDsByAccountAddress store marketID a = Some (fst (fold collect (buys @ sells) ([], {})))"
    using b(1) s(1) by (simp add: GetSpotOrderSubaccountIDsByAccountAddress_def)
  moreover have "index_subaccounts store marketID True a \<union> index_subaccounts store marketID False a
      = {sub. length sub = HashLength \<and> take AddressLength sub = a
          \<and> (\<exists>isBuy h. length h = HashLength \<and> SpotLimitOrderIndexKey marketID isBuy sub h \<in> set store)}"
    unfolding index_subaccounts_def by (auto split: bool.splits) (metis (full_types))
  ultimately show ?thesis using collect_result [of "([], {})" "buys @ sells"] b(2) s(2) by auto
qed

text \<open>C40: The range scans by address are exact: the transient order index and the orderbook metadata are visited
  from the address to its successor, and give exactly the subaccounts of that address, each once, also
  for the last address, whose range has no end.\<close>

theorem address_ranges_exact:
  assumes "index_keys_ok store" "metadata_keys_ok store" "length marketID = HashLength" "length a = AddressLength"
  shows "let orders = GetTransientSpotOrderSubaccountIDsByAccountAddress store marketID a;
      books = GetSubaccountIDsWithOrderbookMetadataForMarketByAccountAddress store marketID a
    in distinct orders \<and> distinct books
      \<and> set orders = index_subaccounts store marketID True a \<union> index_subaccounts store marketID False a
      \<and> set books = {sub. length sub = HashLength \<and> take AddressLength sub = a
          \<and> (\<exists>isBuy. GetSubaccountOrderbookMetadataKey marketID sub isBuy \<in> set store)}"
proof -
  let ?side = "\<lambda>isBuy. NewStore store (SpotLimitOrdersIndexPrefix @ MarketDirectionPrefix marketID isBuy)"
  let ?meta = "NewStore store (SubaccountOrderbookMetadataPrefix @ marketID)"
  let ?order = "\<lambda>isBuy sub h. length h = HashLength \<and> SpotLimitOrderIndexKey marketID isBuy sub h \<in> set store"
  let ?book = "\<lambda>sub t. \<exists>isBuy. t = [if isBuy then TrueByte else FalseByte] \<and> GetSubaccountOrderbookMetadataKey marketID sub isBuy \<in> set store"
  have "x \<in> set (?side isBuy) \<longleftrightarrow> (\<exists>sub h. x = sub @ h \<and> length sub = HashLength \<and> ?order isBuy sub h)" for x isBuy
    unfolding set_NewStore transient_entry [OF assms(1,3)] by blast
  note s = range_members [where Q = "?order isBuy" for isBuy, OF this]
  have "x \<in> set ?meta \<longleftrightarrow> (\<exists>sub t. x = sub @ t \<and> length sub = HashLength \<and> ?book sub t)" for x
    unfolding set_NewStore metadata_entry [OF assms(2,3)] by blast
  note m = range_members [where Q = ?book, OF this]
  have "(\<exists>t. ?book sub t) \<longleftrightarrow> (\<exists>isBuy. GetSubaccountOrderbookMetadataKey marketID sub isBuy \<in> set store)" for sub by blast
  then show ?thesis
    using collect_result [of "([], {})" "range_subaccounts (?side True) a @ range_subaccounts (?side False) a"]
      collect_result [of "([], {})" "range_subaccounts ?meta a"]
    by (simp add: Let_def s(1) m(1) collectRange_collects [OF assms(4) s(2)] collectRange_collects [OF assms(4) m(2)] index_subaccounts_def
        GetTransientSpotOrderSubaccountIDsByAccountAddress_def GetSubaccountIDsWithOrderbookMetadataForMarketByAccountAddress_def)
qed

text \<open>C15: Orders are stored in price order: with decimal printing and parsing as documented, for prices below
  ten to the 32, the byte keys of two orders of a side compare as their prices and then their hashes, and the
  price is read back exactly from its padded form.\<close>

theorem price_keys_ordered_and_reversible:
  assumes "prints_fixed F" "parses_decimals parse" "0 \<le> p" "p < 10 ^ 50" "0 \<le> q" "q < 10 ^ 50"
  shows "\<exists>kp kq padded. GetOrderByPriceKeyPrefix F m isBuy p h = Some kp \<and> GetOrderByPriceKeyPrefix F m isBuy q h' = Some kq
    \<and> (kp < kq \<longleftrightarrow> p < q \<or> p = q \<and> h < h')
    \<and> GetPaddedPrice F p = Some padded \<and> GetPriceFromPaddedPrice parse padded = Some p"
proof -
  obtain A D where p: "GetPaddedPrice F p = Some (A @ CHR ''.'' # D)" "length A = 32" "length D = 18"
    "\<forall>c \<in> set A \<union> set D. is_digit c" "p = int (digits_value A) * 10 ^ 18 + int (digits_value D)"
    using price_string [OF assms(1,3,4)] .
  obtain B G where q: "GetPaddedPrice F q = Some (B @ CHR ''.'' # G)" "length B = 32" "length G = 18"
    "\<forall>c \<in> set B \<union> set G. is_digit c" "q = int (digits_value B) * 10 ^ 18 + int (digits_value G)"
    using price_string [OF assms(1,5,6)] .
  have v: "p = int (digits_value A * 10 ^ 18 + digits_value D)" "q = int (digits_value B * 10 ^ 18 + digits_value G)"
    using p(5) q(5) by simp_all
  have parsed: "GetPriceFromPaddedPrice parse (A @ CHR ''.'' # D) = Some p" using parsed_price [OF assms(2) p(2-5)] .
  have "MarketDirectionPrefix m isBuy @ (A @ CHR ''.'' # D) @ h < MarketDirectionPrefix m isBuy @ (B @ CHR ''.'' # G) @ h'
      \<longleftrightarrow> p < q \<or> p = q \<and> h < h'"
    unfolding prefix_less padded_less [OF p(2) q(2) p(3) q(3) p(4) q(4)] v by (simp only: of_nat_less_iff of_nat_eq_iff)
  then show ?thesis using p(1) q(1) parsed by (simp add: GetOrderByPriceKeyPrefix_def)
qed


section \<open>Examples\<close>

definition example_market_bytes :: string where "example_market_bytes = replicate 32 (CHR ''m'')"
definition last_address :: address where "last_address = replicate 20 (CHR 0xFF)"
definition example_nonce :: "char \<Rightarrow> subaccount_id" where "example_nonce c = last_address @ replicate 11 (CHR 0x00) @ [c]"
definition example_hash :: "char \<Rightarrow> string" where "example_hash c = replicate 32 c"

definition example_keys :: "string list" where
  "example_keys =
     [GetSubaccountOrderbookMetadataKey example_market_bytes (example_nonce (CHR 0x01)) True,
      SpotLimitOrderIndexKey example_market_bytes False (example_nonce (CHR 0x02)) (example_hash (CHR ''a'')),
      SpotLimitOrderIndexKey example_market_bytes True (example_nonce (CHR 0x01)) (example_hash (CHR ''a'')),
      SpotLimitOrderIndexKey example_market_bytes True (example_nonce (CHR 0x01)) (example_hash (CHR ''b''))]"

lemma example_lengths: "length example_market_bytes = HashLength" "length last_address = AddressLength"
    "length (example_nonce c) = HashLength" "length (example_hash c) = HashLength" "take AddressLength (example_nonce c) = last_address"
  by (simp_all add: example_market_bytes_def last_address_def example_nonce_def example_hash_def HashLength_def AddressLength_def)

lemma example_keys_sorted: "sorted_wrt (<) example_keys"
  by code_simp

lemma example_keys_ok: "index_keys_ok example_keys" "metadata_keys_ok example_keys"
proof -
  have i: "take 1 (SpotLimitOrderIndexKey m b s h) \<noteq> SubaccountOrderbookMetadataPrefix" for m b s h
    by (simp add: SpotLimitOrderIndexKey_def SpotLimitOrdersIndexPrefix_def SubaccountOrderbookMetadataPrefix_def)
  have m: "take 1 (GetSubaccountOrderbookMetadataKey m s b) \<noteq> SpotLimitOrdersIndexPrefix" for m s b
    by (simp add: GetSubaccountOrderbookMetadataKey_def SpotLimitOrdersIndexPrefix_def SubaccountOrderbookMetadataPrefix_def)
  show "index_keys_ok example_keys" unfolding index_keys_ok_def example_keys_def using example_lengths m by auto blast+
  show "metadata_keys_ok example_keys" unfolding metadata_keys_ok_def example_keys_def using example_lengths i by auto
qed

theorem skip_scan_lists_subaccounts_witness:
  "\<exists>r. GetSpotOrderSubaccountIDsByAccountAddress example_keys example_market_bytes last_address = Some r \<and> distinct r
    \<and> example_nonce (CHR 0x01) \<in> set r \<and> example_nonce (CHR 0x02) \<in> set r"
proof -
  have "SpotLimitOrderIndexKey example_market_bytes True (example_nonce (CHR 0x01)) (example_hash (CHR ''a'')) \<in> set example_keys"
    "SpotLimitOrderIndexKey example_market_bytes False (example_nonce (CHR 0x02)) (example_hash (CHR ''a'')) \<in> set example_keys"
    by (simp_all add: example_keys_def)
  then show ?thesis
    using skip_scan_lists_subaccounts [OF example_keys_sorted example_keys_ok(1) example_lengths(1,2)] example_lengths by blast
qed

theorem address_ranges_exact_witness:
  "example_nonce (CHR 0x01) \<in> set (GetTransientSpotOrderSubaccountIDsByAccountAddress example_keys example_market_bytes last_address)
   \<and> example_nonce (CHR 0x01) \<in> set (GetSubaccountIDsWithOrderbookMetadataForMarketByAccountAddress example_keys example_market_bytes last_address)"
proof -
  have "SpotLimitOrderIndexKey example_market_bytes True (example_nonce (CHR 0x01)) (example_hash (CHR ''a'')) \<in> set example_keys"
    "GetSubaccountOrderbookMetadataKey example_market_bytes (example_nonce (CHR 0x01)) True \<in> set example_keys"
    by (simp_all add: example_keys_def)
  then show ?thesis
    using address_ranges_exact [OF example_keys_ok example_lengths(1,2)] example_lengths unfolding Let_def index_subaccounts_def by blast
qed

definition example_print :: "int \<Rightarrow> string" where
  "example_print p = dec_digits (nat (p div 10 ^ 18)) @ ''.'' @ zero_pad 18 (dec_digits (nat (p mod 10 ^ 18)))"

definition example_parse :: "string \<Rightarrow> int option" where
  "example_parse s = (case strings_Cut s of
     None \<Rightarrow> Some (int (digits_value s) * 10 ^ 18)
   | Some (n, d) \<Rightarrow> Some (int (digits_value n) * 10 ^ 18 + int (digits_value d) * 10 ^ (18 - length d)))"

lemma example_parse_ok: "parses_decimals example_parse"
  unfolding parses_decimals_def
proof (intro allI impI)
  fix xs ys :: string
  assume "\<forall>c \<in> set xs \<union> set ys. is_digit c"
  then have "\<forall>c \<in> set xs. c \<noteq> CHR ''.''" using no_point by blast
  then have "CHR ''.'' \<notin> set xs" "strings_Cut (xs @ CHR ''.'' # ys) = Some (xs, ys)" using Cut_at_point by blast+
  then show "example_parse (xs @ (if ys = [] then [] else CHR ''.'' # ys))
      = Some (int (digits_value xs) * 10 ^ 18 + int (digits_value ys) * 10 ^ (18 - length ys))"
    by (cases "ys = []") (simp_all add: example_parse_def strings_Cut_def)
qed

theorem price_keys_ordered_and_reversible_witness:
  "\<exists>kp kq padded. GetOrderByPriceKeyPrefix example_print example_market_bytes True 9500000000000000000 ''b'' = Some kp
    \<and> GetOrderByPriceKeyPrefix example_print example_market_bytes True 10000000000000000000 ''a'' = Some kq \<and> kp < kq
    \<and> GetPaddedPrice example_print 9500000000000000000 = Some padded
    \<and> GetPriceFromPaddedPrice example_parse padded = Some 9500000000000000000"
  using price_keys_ordered_and_reversible [OF _ example_parse_ok, of example_print 9500000000000000000 10000000000000000000
      example_market_bytes True "''b''" "''a''"]
  by (simp add: prints_fixed_def example_print_def)


end
