(* ===== verification/Module_Bank.thy ===== *)
theory Module_Bank
  imports Subaccount_Deposits Vouchers
begin

text \<open>
  What the modules beside the exchange use of the rest of the chain: coins, the bank keeper with its transfers between
  modules, minting and burning, the decoding of addresses, and the laws they rely on (locale \<open>module_bank\<close>).
\<close>

definition InjectiveCoin :: denom where "InjectiveCoin = ''inj''"

text \<open>A signed 64-bit integer, whose wrap-around is written out.\<close>

definition int64 :: "int \<Rightarrow> int" where
  "int64 x = signed_take_bit 63 x"

lemma int64_fits: "\<bar>x\<bar> < 2 ^ 63 \<Longrightarrow> int64 x = x"
  by (simp add: int64_def signed_take_bit_int_eq_self_iff) linarith

record Coin =
  coin_Denom :: denom
  coin_Amount :: int

record 'b chain_env =
  env_exchange :: "'b exchange_env"
  SendCoinsFromModuleToModule :: "'b \<Rightarrow> string \<Rightarrow> string \<Rightarrow> denom \<Rightarrow> int \<Rightarrow> bank_error + 'b"
  MintCoins :: "'b \<Rightarrow> string \<Rightarrow> denom \<Rightarrow> int \<Rightarrow> bank_error + 'b"
  BurnCoins :: "'b \<Rightarrow> string \<Rightarrow> denom \<Rightarrow> int \<Rightarrow> bank_error + 'b"
  AccAddressFromBech32 :: "string \<Rightarrow> address option"
  ValidateDenom :: "denom \<Rightarrow> bool"
  env_authority :: string

abbreviation mod_bank :: "('b, 'z) chain_env_scheme \<Rightarrow> 'b bank_ops" where
  "mod_bank E \<equiv> env_bank (env_exchange E)"

locale module_bank = funds "env_exchange E" for E :: "('b, 'z) chain_env_scheme" +
  assumes modules_pay: "SendCoinsFromModuleToModule E b m m' d n = Inr b' \<Longrightarrow> GetModuleAddress (mod_bank E) m \<noteq> GetModuleAddress (mod_bank E) m'
      \<Longrightarrow> 0 \<le> n \<Longrightarrow> GetBalance (mod_bank E) b' (GetModuleAddress (mod_bank E) m) d'
            = GetBalance (mod_bank E) b (GetModuleAddress (mod_bank E) m) d' - (if d' = d then n else 0)
        \<and> GetBalance (mod_bank E) b' (GetModuleAddress (mod_bank E) m') d'
            = GetBalance (mod_bank E) b (GetModuleAddress (mod_bank E) m') d' + (if d' = d then n else 0)"
    and mints: "MintCoins E b m d n = Inr b' \<Longrightarrow> 0 \<le> n
      \<Longrightarrow> GetBalance (mod_bank E) b' a d'
            = GetBalance (mod_bank E) b a d' + (if a = GetModuleAddress (mod_bank E) m \<and> d' = d then n else 0)"
    and burns: "0 \<le> n \<Longrightarrow> n \<le> GetBalance (mod_bank E) b (GetModuleAddress (mod_bank E) m) d
      \<Longrightarrow> \<exists>b'. BurnCoins E b m d n = Inr b'
        \<and> (\<forall>a d'. GetBalance (mod_bank E) b' a d'
             = GetBalance (mod_bank E) b a d' - (if a = GetModuleAddress (mod_bank E) m \<and> d' = d then n else 0))"
    and burn_covered: "BurnCoins E b m d n = Inr b' \<Longrightarrow> 0 \<le> n \<Longrightarrow> n \<le> GetBalance (mod_bank E) b (GetModuleAddress (mod_bank E) m) d"
    and balance_nonneg: "0 \<le> GetBalance (mod_bank E) b a d"
    and denoms_valid: "0 < GetBalance (mod_bank E) b a d \<Longrightarrow> ValidateDenom E d"
    and empty_address: "AccAddressFromBech32 E '''' = None"
    and module_accounts: "m \<noteq> m' \<Longrightarrow> GetModuleAddress (mod_bank E) m \<noteq> GetModuleAddress (mod_bank E) m'"

lemma case_bank_eq_Inr: "(case r of Inl _ \<Rightarrow> Inl e | Inr b \<Rightarrow> f b) = Inr v \<longleftrightarrow> (\<exists>b. r = Inr b \<and> f b = Inr v)"
  by (simp split: sum.split)

end
