(* ===== verification/Auction.thy ===== *)
theory Auction
  imports Module_Bank
begin

text \<open>
  The auction module (\<^verbatim>\<open>auction/keeper\<close>, \<^verbatim>\<open>auction/abci.go\<close>, \<^verbatim>\<open>auction/types\<close>): rounds in which the basket
  of fees collected by the exchange is sold for a bid in INJ that is burned, and the flush of the exchange's
  fees into the next basket (\<^verbatim>\<open>WithdrawAllAuctionBalances\<close> of \<^verbatim>\<open>exchange/keeper/subaccount/keeper.go\<close>).

  The state has the module's store, the exchange's deposits and, in them, the bank. A round number is a
  64-bit word; times are Unix seconds, integers whose 64-bit wrap-around is written out. The bank, the
  derivation of addresses and the check of a denom are fields of the environment. A set of coins is the list of its
  denoms and amounts; the exchange lists its denoms in the order of their bytes, which is also the order of a coin
  set, so adding a coin appends it. A panic on a malformed message is an error: both revert the transaction. A panic at the end of a
  block, which nothing reverts, is the value \<open>None\<close> of \<open>auction_EndBlocker\<close>. The creation of module accounts and
  logging are left out.
\<close>

section \<open>Types\<close>

definition auction_module :: string where "auction_module = ''auction''"

record Bid =
  Bidder :: string
  bid_Amount :: Coin

record LastAuctionResult =
  Winner :: string
  result_Amount :: Coin
  result_Round :: "64 word"

record AuctionParams =
  AuctionPeriod :: int
  MinNextBidIncrementRate :: dec
  InjBasketMaxCap :: int
  BiddersWhitelist :: "string list"

record MsgBid =
  bid_Sender :: string
  BidAmount :: Coin
  bid_Round :: "64 word"

record EventAuctionStart =
  start_Round :: "64 word"
  EndingTimestamp :: int
  NewBasket :: "(denom \<times> int) list"

datatype auction_error = ErrInvalidSigner | ErrInvalidParams | ErrBidderNotWhitelisted | ErrBidRound | ErrBidInvalid | ErrInvalidRequest
  | ErrInvalidBidCoins | ErrBidderAddress | ErrBidDeposit | ErrBidRefund | ErrAuctionVoucher voucher_error | PanicCoins | PanicBidderAddress

record 'b auction_state =
  bid :: "Bid option"
  auction_round :: "64 word"
  ending_timestamp :: int
  last_result :: "LastAuctionResult option"
  auction_vouchers :: voucher_store
  auction_params :: AuctionParams
  transfer_denoms :: "denom list"
  exchange :: "'b exchange_state"

record 'b auction_env = "'b chain_env" +
  GetAllBalances :: "'b \<Rightarrow> address \<Rightarrow> (denom \<times> int) list"
  AuctionFeesSubaccountAddress :: address
  ExchangeAuctionFeesAddress :: address

abbreviation chain_bank :: "'b auction_state \<Rightarrow> 'b" where
  "chain_bank s \<equiv> bank (exchange s)"

abbreviation auction_address :: "'b auction_env \<Rightarrow> address" where
  "auction_address E \<equiv> GetModuleAddress (mod_bank E) auction_module"

definition put_bank :: "'b auction_state \<Rightarrow> 'b \<Rightarrow> 'b auction_state" where
  "put_bank s b = s\<lparr>exchange := (exchange s)\<lparr>bank := b\<rparr>\<rparr>"

section \<open>Parameters\<close>

definition validateAuctionPeriodDuration :: "int \<Rightarrow> auction_error + unit" where
  "validateAuctionPeriodDuration v = echeck (\<not> v \<le> 0) ErrInvalidParams"

definition validateMinNextBidIncrementRate :: "dec \<Rightarrow> auction_error + unit" where
  "validateMinNextBidIncrementRate v =
     ebind (echeck (0 < v) ErrInvalidParams) (\<lambda>_. echeck (\<not> v > 2 * 10 ^ 17) ErrInvalidParams)"

definition validateInjBasketMaxCap :: "int \<Rightarrow> auction_error + unit" where
  "validateInjBasketMaxCap v = echeck (\<not> v < 0) ErrInvalidParams"

definition validateBiddersWhitelist :: "'b auction_env \<Rightarrow> string list \<Rightarrow> auction_error + unit" where
  "validateBiddersWhitelist E v =
     ebind (efold (\<lambda>seen addr.
              ebind (echeck (addr \<noteq> '''') ErrInvalidParams) (\<lambda>_.
              ebind (of_opt ErrInvalidParams (AccAddressFromBech32 E addr)) (\<lambda>_.
              ebind (echeck (addr \<notin> seen) ErrInvalidParams) (\<lambda>_. Inr (insert addr seen))))) {} v)
       (\<lambda>_. Inr ())"

definition AuctionParams_Validate :: "'b auction_env \<Rightarrow> AuctionParams \<Rightarrow> auction_error + unit" where
  "AuctionParams_Validate E p =
     ebind (validateAuctionPeriodDuration (AuctionPeriod p)) (\<lambda>_.
     ebind (validateMinNextBidIncrementRate (MinNextBidIncrementRate p)) (\<lambda>_.
     ebind (validateInjBasketMaxCap (InjBasketMaxCap p)) (\<lambda>_.
       validateBiddersWhitelist E (BiddersWhitelist p))))"

definition auction_UpdateParams :: "'b auction_env \<Rightarrow> 'b auction_state \<Rightarrow> string \<Rightarrow> AuctionParams \<Rightarrow> auction_error + 'b auction_state" where
  "auction_UpdateParams E s authority params =
     ebind (echeck (authority = env_authority E) ErrInvalidSigner) (\<lambda>_.
     ebind (AuctionParams_Validate E params) (\<lambda>_. Inr (s\<lparr>auction_params := params\<rparr>)))"

section \<open>Bids\<close>

definition GetHighestBid :: "'b auction_state \<Rightarrow> Bid" where
  "GetHighestBid s = (case bid s of
     None \<Rightarrow> \<lparr>Bidder = '''', bid_Amount = \<lparr>coin_Denom = ''inj'', coin_Amount = 0\<rparr>\<rparr> | Some b \<Rightarrow> b)"

definition SetBid :: "'b auction_state \<Rightarrow> string \<Rightarrow> Coin \<Rightarrow> 'b auction_state" where
  "SetBid s sender amount = s\<lparr>bid := Some \<lparr>Bidder = sender, bid_Amount = amount\<rparr>\<rparr>"

definition DeleteBid :: "'b auction_state \<Rightarrow> 'b auction_state" where
  "DeleteBid s = s\<lparr>bid := None\<rparr>"

definition MsgBid_ValidateBasic :: "'b auction_env \<Rightarrow> MsgBid \<Rightarrow> auction_error + unit" where
  "MsgBid_ValidateBasic E msg =
     ebind (of_opt ErrBidderAddress (AccAddressFromBech32 E (bid_Sender msg))) (\<lambda>_.
     ebind (echeck (ValidateDenom E (coin_Denom (BidAmount msg)) \<and> 0 \<le> coin_Amount (BidAmount msg)) ErrInvalidBidCoins) (\<lambda>_.
     ebind (echeck (0 < coin_Amount (BidAmount msg)) ErrInvalidBidCoins) (\<lambda>_.
       echeck (coin_Denom (BidAmount msg) = InjectiveCoin) ErrBidInvalid)))"

definition refundLastBidder :: "'b auction_env \<Rightarrow> 'b auction_state \<Rightarrow> auction_error + 'b auction_state" where
  "refundLastBidder E s =
     (let lastBid = GetHighestBid s
      in ebind (of_opt ErrBidderAddress (AccAddressFromBech32 E (Bidder lastBid))) (\<lambda>lastBidder.
         case SendCoinsFromModuleToAccount (mod_bank E) (chain_bank s) auction_module lastBidder InjectiveCoin (coin_Amount (bid_Amount lastBid)) of
           Inl _ \<Rightarrow> Inl ErrBidRefund
         | Inr b \<Rightarrow> Inr (put_bank s b)))"

text \<open>What the bidder has to add to the deposit; comparing coins of different denoms panics.\<close>

definition amountToDeposit :: "Bid \<Rightarrow> MsgBid \<Rightarrow> auction_error + Coin" where
  "amountToDeposit lastBid msg =
     (if Bidder lastBid = bid_Sender msg then
        if coin_Denom (BidAmount msg) \<noteq> coin_Denom (bid_Amount lastBid) then Inl PanicCoins
        else if coin_Amount (BidAmount msg) < coin_Amount (bid_Amount lastBid) then Inl ErrInvalidRequest
        else Inr ((BidAmount msg)\<lparr>coin_Amount := coin_Amount (BidAmount msg) - coin_Amount (bid_Amount lastBid)\<rparr>)
      else Inr (BidAmount msg))"

definition PlaceBid :: "'b auction_env \<Rightarrow> int \<Rightarrow> 'b auction_state \<Rightarrow> MsgBid \<Rightarrow> auction_error + 'b auction_state" where
  "PlaceBid E now s msg =
     ebind (of_opt PanicBidderAddress (AccAddressFromBech32 E (bid_Sender msg))) (\<lambda>senderAddr.
     ebind (echeck (BiddersWhitelist (auction_params s) = [] \<or> bid_Sender msg \<in> set (BiddersWhitelist (auction_params s)))
              ErrBidderNotWhitelisted) (\<lambda>_.
     ebind (echeck (auction_round s \<noteq> 0) ErrBidRound) (\<lambda>_.
     ebind (echeck (bid_Round msg = auction_round s) ErrBidRound) (\<lambda>_.
     ebind (echeck (\<not> now \<ge> ending_timestamp s) ErrBidRound) (\<lambda>_.
     let lastBid = GetHighestBid s;
         isFirstBidder = (\<not> 0 < coin_Amount (bid_Amount lastBid));
         isCurrentBidder = (Bidder lastBid = bid_Sender msg)
     in ebind (amountToDeposit lastBid msg) (\<lambda>depositAmount.
        ebind (echeck (\<not> dec_mul (env_dec (env_exchange E)) (LegacyNewDec (coin_Amount (bid_Amount lastBid)))
                         (dec_one + MinNextBidIncrementRate (auction_params s)) > LegacyNewDec (coin_Amount (BidAmount msg)))
                 ErrInvalidRequest) (\<lambda>_.
        case SendCoinsFromAccountToModule (mod_bank E) (chain_bank s) senderAddr auction_module
               (coin_Denom depositAmount) (coin_Amount depositAmount) of
          Inl _ \<Rightarrow> Inl ErrBidDeposit
        | Inr b \<Rightarrow>
            let s = put_bank s b
            in ebind (if \<not> isFirstBidder \<and> \<not> isCurrentBidder then refundLastBidder E s else Inr s) (\<lambda>s.
                 Inr (SetBid s (bid_Sender msg) (BidAmount msg))))))))))"

section \<open>Vouchers\<close>

definition auction_ClaimVoucher :: "'b auction_env \<Rightarrow> 'b auction_state \<Rightarrow> string \<Rightarrow> denom \<Rightarrow> auction_error + 'b auction_state" where
  "auction_ClaimVoucher E s msg_Sender denom =
     ebind (of_opt PanicBidderAddress (AccAddressFromBech32 E msg_Sender)) (\<lambda>senderAddr.
       case ClaimVoucher (ValidateDenom E) (\<lambda>b. SendCoinsFromModuleToAccount (mod_bank E) b auction_module)
              (chain_bank s) (auction_vouchers s) senderAddr denom of
         Inl e \<Rightarrow> Inl (ErrAuctionVoucher e)
       | Inr (b, vs) \<Rightarrow> Inr ((put_bank s b)\<lparr>auction_vouchers := vs\<rparr>))"

definition GetVoucherReservedPerDenom :: "(denom \<Rightarrow> bool) \<Rightarrow> voucher_store \<Rightarrow> voucher_error + (denom \<times> int) list" where
  "GetVoucherReservedPerDenom valid vs =
     ebind (GetAllVouchers valid vs) (\<lambda>avs.
       Inr (fold (\<lambda>((denom, addr), amount) reserved.
         let existing = (case map_of reserved denom of None \<Rightarrow> 0 | Some e \<Rightarrow> e)
         in AList.update denom (existing + amount) reserved) avs []))"

text \<open>The two callers go on without reservations on an error; a panic of the listing goes through them.\<close>

definition loadReserved :: "'b auction_env \<Rightarrow> 'b auction_state \<Rightarrow> auction_error + (denom \<times> int) list" where
  "loadReserved E s =
     (case GetVoucherReservedPerDenom (ValidateDenom E) (auction_vouchers s) of
        Inl e \<Rightarrow> if e = PanicVoucherCoin then Inl PanicCoins else Inr []
      | Inr reserved \<Rightarrow> Inr reserved)"

definition CreateVoucherOnFailedSend :: "'b auction_env \<Rightarrow> 'b auction_state \<Rightarrow> address \<Rightarrow> denom \<Rightarrow> int \<Rightarrow> 'b auction_state" where
  "CreateVoucherOnFailedSend E s addr denom amount =
     (case AddVoucher (ValidateDenom E) (auction_vouchers s) addr denom amount of
        Inl _ \<Rightarrow> s
      | Inr vs \<Rightarrow> s\<lparr>auction_vouchers := vs\<rparr>)"

section \<open>Rounds\<close>

definition AdvanceNextAuctionRound :: "'b auction_state \<Rightarrow> 'b auction_state" where
  "AdvanceNextAuctionRound s = s\<lparr>auction_round := auction_round s + 1\<rparr>"

definition InitEndingTimeStamp :: "int \<Rightarrow> 'b auction_state \<Rightarrow> 'b auction_state" where
  "InitEndingTimeStamp now s = s\<lparr>ending_timestamp := int64 (now + AuctionPeriod (auction_params s))\<rparr>"

definition GetNextEndingTimeStamp :: "int \<Rightarrow> 'b auction_state \<Rightarrow> int" where
  "GetNextEndingTimeStamp now s =
     (let auctionPeriod = AuctionPeriod (auction_params s);
          nextTimeStamp = int64 (ending_timestamp s + auctionPeriod);
          minNextTimeStamp = int64 (now + trunc_div auctionPeriod 2)
      in max nextTimeStamp minNextTimeStamp)"

definition AdvanceNextEndingTimeStamp :: "int \<Rightarrow> 'b auction_state \<Rightarrow> 'b auction_state" where
  "AdvanceNextEndingTimeStamp now s = s\<lparr>ending_timestamp := GetNextEndingTimeStamp now s\<rparr>"

definition GetLastAuctionResult :: "'b auction_state \<Rightarrow> LastAuctionResult" where
  "GetLastAuctionResult s = (case last_result s of
     None \<Rightarrow> \<lparr>Winner = '''', result_Amount = \<lparr>coin_Denom = InjectiveCoin, coin_Amount = 0\<rparr>, result_Round = 0\<rparr> | Some r \<Rightarrow> r)"

definition subtractReserved :: "denom \<times> int \<Rightarrow> (denom \<times> int) list \<Rightarrow> denom \<times> int" where
  "subtractReserved coin reserved =
     (case map_of reserved (fst coin) of
        None \<Rightarrow> coin
      | Some r \<Rightarrow> if \<not> 0 < r then coin else (fst coin, max 0 (snd coin - r)))"

definition computeExchangeWithdrawalInjCap :: "int \<Rightarrow> int \<Rightarrow> int \<Rightarrow> int" where
  "computeExchangeWithdrawalInjCap maxInjCap totalInjInModule reservedInj =
     (let availableInj = max 0 (totalInjInModule - reservedInj) in max 0 (maxInjCap - availableInj))"

definition burnBidAmountInModule :: "'b auction_env \<Rightarrow> 'b auction_state \<Rightarrow> int \<Rightarrow> 'b auction_state" where
  "burnBidAmountInModule E s lastBidAmount =
     (case BurnCoins E (chain_bank s) auction_module InjectiveCoin lastBidAmount of Inl _ \<Rightarrow> s | Inr b \<Rightarrow> put_bank s b)"

definition basketCoin :: "(denom \<times> int) list \<Rightarrow> int \<Rightarrow> denom \<times> int \<Rightarrow> denom \<times> int" where
  "basketCoin reserved maxInjCap coin =
     (let coin = subtractReserved coin reserved
      in if fst coin = InjectiveCoin \<and> maxInjCap < snd coin then (fst coin, maxInjCap) else coin)"

definition deliverCoin :: "'b auction_env \<Rightarrow> address \<Rightarrow> 'b auction_state \<Rightarrow> denom \<times> int \<Rightarrow> 'b auction_state" where
  "deliverCoin E winner s coin =
     (if 0 < snd coin then
        (case SendCoinsFromModuleToAccount (mod_bank E) (chain_bank s) auction_module winner (fst coin) (snd coin) of
           Inr b \<Rightarrow> put_bank s b
         | Inl _ \<Rightarrow> CreateVoucherOnFailedSend E s winner (fst coin) (snd coin))
      else s)"

definition sendBasketToWinner :: "'b auction_env \<Rightarrow> 'b auction_state \<Rightarrow> int \<Rightarrow> address \<Rightarrow> auction_error + 'b auction_state" where
  "sendBasketToWinner E s maxInjCap winner =
     ebind (loadReserved E s) (\<lambda>reserved.
       Inr (foldl (\<lambda>s coin. deliverCoin E winner s (basketCoin reserved maxInjCap coin)) s
              (GetAllBalances E (chain_bank s) (auction_address E))))"

definition settleFinishedAuctionRound :: "'b auction_env \<Rightarrow> 'b auction_state \<Rightarrow> int \<Rightarrow> auction_error + 'b auction_state" where
  "settleFinishedAuctionRound E s maxInjCap =
     (let lastBid = GetHighestBid s
      in if \<not> 0 < coin_Amount (bid_Amount lastBid) \<or> Bidder lastBid = '''' then Inr s
         else ebind (of_opt ErrBidderAddress (AccAddressFromBech32 E (Bidder lastBid))) (\<lambda>lastBidder.
           let s = burnBidAmountInModule E s (coin_Amount (bid_Amount lastBid))
           in ebind (sendBasketToWinner E s maxInjCap lastBidder) (\<lambda>s.
                Inr (DeleteBid (s\<lparr>last_result :=
                  Some \<lparr>Winner = Bidder lastBid, result_Amount = bid_Amount lastBid, result_Round = auction_round s\<rparr>\<rparr>)))))"

definition SweepFeesSubaccountToModule :: "'b auction_env \<Rightarrow> 'b auction_state \<Rightarrow> 'b auction_state" where
  "SweepFeesSubaccountToModule E s =
     (let injBalance = GetBalance (mod_bank E) (chain_bank s) (AuctionFeesSubaccountAddress E) InjectiveCoin
      in if injBalance = 0 then s
         else (case SendCoinsFromAccountToModule (mod_bank E) (chain_bank s) (AuctionFeesSubaccountAddress E) auction_module InjectiveCoin injBalance of
                 Inl _ \<Rightarrow> s
               | Inr b \<Rightarrow> put_bank s b))"

section \<open>The exchange's fees\<close>

definition collectAuctionBalance ::
  "'b auction_env \<Rightarrow> 'b exchange_state \<Rightarrow> int \<Rightarrow> int \<times> (denom \<times> int) list \<times> (denom \<times> int) list \<Rightarrow> denom
     \<Rightarrow> int \<times> (denom \<times> int) list \<times> (denom \<times> int) list" where
  "collectAuctionBalance E x injSendCap acc denom =
     (let (injAuctionSubaccountAmount, fromDeposits, fromFees) = acc;
          total = dec_truncate (env_dec (env_exchange E)) (TotalBalance (GetDeposit x AuctionSubaccountID denom));
          amount = (if denom = InjectiveCoin then min total injSendCap else total);
          injAuctionSubaccountAmount =
            (if 0 < total \<and> denom = InjectiveCoin then injAuctionSubaccountAmount + amount else injAuctionSubaccountAmount);
          fromDeposits = (if 0 < total \<and> 0 < amount then fromDeposits @ [(denom, amount)] else fromDeposits);
          fees = GetBalance (mod_bank E) (bank x) (ExchangeAuctionFeesAddress E) denom;
          feeAmount = (if denom = InjectiveCoin then min fees (max 0 (injSendCap - injAuctionSubaccountAmount)) else fees);
          fromFees = (if 0 < fees \<and> 0 < feeAmount then fromFees @ [(denom, feeAmount)] else fromFees)
      in (injAuctionSubaccountAmount, fromDeposits, fromFees))"

definition withdrawAuctionDeposit :: "'b auction_env \<Rightarrow> 'b exchange_state \<Rightarrow> denom \<times> int \<Rightarrow> 'b exchange_state" where
  "withdrawAuctionDeposit E x coin =
     (let (denom, amount) = coin
      in case SendCoinsFromModuleToModule E (bank x) exchange_module auction_module denom amount of
           Inl _ \<Rightarrow> x
         | Inr b \<Rightarrow>
             let x = x\<lparr>bank := b\<rparr>
             in (case DecrementDeposit x AuctionSubaccountID denom (LegacyNewDec amount) of
                   Inr x \<Rightarrow> x
                 | Inl _ \<Rightarrow>
                     (case SendCoinsFromModuleToModule E (bank x) auction_module exchange_module denom amount of
                        Inl _ \<Rightarrow> x
                      | Inr b \<Rightarrow> x\<lparr>bank := b\<rparr>)))"

definition withdrawAuctionFees :: "'b auction_env \<Rightarrow> 'b exchange_state \<Rightarrow> denom \<times> int \<Rightarrow> 'b exchange_state" where
  "withdrawAuctionFees E x coin =
     (case SendCoinsFromAccountToModule (mod_bank E) (bank x) (ExchangeAuctionFeesAddress E) auction_module (fst coin) (snd coin) of
        Inl _ \<Rightarrow> x
      | Inr b \<Rightarrow> x\<lparr>bank := b\<rparr>)"

text \<open>The coins sent, which the caller only logs, are not collected.\<close>

definition WithdrawAllAuctionBalances :: "'b auction_env \<Rightarrow> denom list \<Rightarrow> 'b exchange_state \<Rightarrow> int \<Rightarrow> 'b exchange_state" where
  "WithdrawAllAuctionBalances E auctionDenoms x injSendCap =
     (let (_, fromDeposits, fromFees) = foldl (collectAuctionBalance E x injSendCap) (0, [], []) auctionDenoms
      in foldl (withdrawAuctionFees E) (foldl (withdrawAuctionDeposit E) x fromDeposits) fromFees)"

section \<open>End of a block\<close>

definition newBasket :: "(denom \<times> int) list \<Rightarrow> (denom \<times> int) list \<Rightarrow> int \<Rightarrow> (denom \<times> int) list" where
  "newBasket rawBasket voucherReserved maxInjCap =
     (let basket = filter (\<lambda>coin. 0 < snd coin) (map (\<lambda>coin. subtractReserved coin voucherReserved) rawBasket)
      in filter (\<lambda>coin. 0 < snd coin)
           (map (\<lambda>coin. if fst coin = InjectiveCoin \<and> maxInjCap < snd coin then (fst coin, maxInjCap) else coin) basket))"

definition auction_EndBlocker :: "'b auction_env \<Rightarrow> int \<Rightarrow> 'b auction_state \<Rightarrow> ('b auction_state \<times> EventAuctionStart option) option" where
  "auction_EndBlocker E now s =
     (if now < ending_timestamp s then Some (s, None)
      else
        let maxInjCap = InjBasketMaxCap (auction_params s)
        in (case settleFinishedAuctionRound E s maxInjCap of
              Inl e \<Rightarrow> if e = PanicCoins then None else Some (s, None)
            | Inr s \<Rightarrow>
                let s = AdvanceNextAuctionRound s;
                    s = AdvanceNextEndingTimeStamp now s
                in (case loadReserved E s of
                      Inl _ \<Rightarrow> None
                    | Inr voucherReserved \<Rightarrow>
                        let s = SweepFeesSubaccountToModule E s;
                            injInModule = GetBalance (mod_bank E) (chain_bank s) (auction_address E) InjectiveCoin;
                            reservedInj = (case map_of voucherReserved InjectiveCoin of None \<Rightarrow> 0 | Some r \<Rightarrow> r);
                            cap = computeExchangeWithdrawalInjCap maxInjCap injInModule reservedInj;
                            s = s\<lparr>exchange := WithdrawAllAuctionBalances E (transfer_denoms s) (exchange s) cap\<rparr>
                        in Some (s, Some \<lparr>start_Round = auction_round s, EndingTimestamp = ending_timestamp s,
                             NewBasket = newBasket (GetAllBalances E (chain_bank s) (auction_address E)) voucherReserved maxInjCap\<rparr>))))"

section \<open>Genesis\<close>

record AuctionGenesis =
  gen_Params :: AuctionParams
  AuctionRound :: "64 word"
  HighestBid :: "Bid option"
  AuctionEndingTimestamp :: int
  gen_LastAuctionResult :: "LastAuctionResult option"
  gen_Vouchers :: "((denom \<times> string) \<times> int) list"

text \<open>The import panics on a malformed address.\<close>

definition auction_InitGenesis :: "'b auction_env \<Rightarrow> int \<Rightarrow> 'b auction_state \<Rightarrow> AuctionGenesis \<Rightarrow> auction_error + 'b auction_state" where
  "auction_InitGenesis E now s g =
     (let s = DeleteBid (s\<lparr>auction_params := gen_Params g\<rparr>);
          s = (case HighestBid g of None \<Rightarrow> s | Some b \<Rightarrow> SetBid s (Bidder b) (bid_Amount b));
          s = s\<lparr>auction_round := AuctionRound g\<rparr>;
          s = (if AuctionEndingTimestamp g = 0 then InitEndingTimeStamp now s else s\<lparr>ending_timestamp := AuctionEndingTimestamp g\<rparr>);
          s = (case gen_LastAuctionResult g of None \<Rightarrow> s | Some r \<Rightarrow> s\<lparr>last_result := Some r\<rparr>)
      in efold (\<lambda>s ((denom, address), amount).
           ebind (of_opt PanicBidderAddress (AccAddressFromBech32 E address)) (\<lambda>addr.
             Inr (s\<lparr>auction_vouchers := SetVoucher (auction_vouchers s) addr denom amount\<rparr>))) s (gen_Vouchers g))"

text \<open>The export panics when the vouchers cannot be listed.\<close>

definition auction_ExportGenesis :: "'b auction_env \<Rightarrow> (address \<Rightarrow> string) \<Rightarrow> 'b auction_state \<Rightarrow> auction_error + AuctionGenesis" where
  "auction_ExportGenesis E ToBech32 s =
     (case GetAllVouchers (ValidateDenom E) (auction_vouchers s) of Inl e \<Rightarrow> Inl (ErrAuctionVoucher e) | Inr avs \<Rightarrow> Inr
     \<lparr>gen_Params = auction_params s, AuctionRound = auction_round s, HighestBid = Some (GetHighestBid s),
      AuctionEndingTimestamp = ending_timestamp s, gen_LastAuctionResult = Some (GetLastAuctionResult s),
      gen_Vouchers = map (\<lambda>((denom, addr), amount). ((denom, ToBech32 addr), amount)) avs\<rparr>)"

end
