(* ===== verification/Auction_Laws.thy ===== *)
theory Auction_Laws
  imports Auction
begin

text \<open>
  Laws of the auction module. The interface to the bank is the locale \<open>auction_bank\<close>; the results are that the
  module account always covers the escrowed bid and the outstanding vouchers, that a settled round burns
  the bid and hands the rest of the basket to the winner, as coins or as vouchers, and that
  rounds advance.
\<close>

section \<open>The bank\<close>

abbreviation held :: "'b auction_env \<Rightarrow> 'b auction_state \<Rightarrow> denom \<Rightarrow> int" where
  "held E s d \<equiv> GetBalance (mod_bank E) (chain_bank s) (auction_address E) d"

locale auction_bank = module_bank E for E :: "'b auction_env" +
  assumes lists_balances: "distinct (map fst (GetAllBalances E b a))"
      "(d, n) \<in> set (GetAllBalances E b a) \<longleftrightarrow> 0 < n \<and> n = GetBalance (mod_bank E) b a d"
    and auction_accounts: "AuctionFeesSubaccountAddress E \<noteq> auction_address E" "ExchangeAuctionFeesAddress E \<noteq> auction_address E"
    and denom_format: "\<not> ValidateDenom E ''''" "CHR ''|'' \<in> set d \<Longrightarrow> \<not> ValidateDenom E d"

lemma put_bank_simps [simp]:
  "chain_bank (put_bank s b) = b" "bid (put_bank s b) = bid s" "auction_round (put_bank s b) = auction_round s"
  "ending_timestamp (put_bank s b) = ending_timestamp s" "last_result (put_bank s b) = last_result s"
  "auction_vouchers (put_bank s b) = auction_vouchers s" "auction_params (put_bank s b) = auction_params s"
  "transfer_denoms (put_bank s b) = transfer_denoms s" "GetHighestBid (put_bank s b) = GetHighestBid s"
  by (simp_all add: put_bank_def GetHighestBid_def)

section \<open>Reserved amounts\<close>

lemma reserved_fold:
  assumes "\<forall>((d, a), n) \<in> set avs. 0 \<le> n" "\<forall>(d, n) \<in> set r0. 0 \<le> n" "distinct (map fst r0)"
  defines "r \<equiv> fold (\<lambda>((denom, addr), amount) reserved.
         let existing = (case map_of reserved denom of None \<Rightarrow> 0 | Some e \<Rightarrow> e)
         in AList.update denom (existing + amount) reserved) avs r0"
  shows "(case map_of r d of None \<Rightarrow> 0 | Some n \<Rightarrow> n) = (case map_of r0 d of None \<Rightarrow> 0 | Some n \<Rightarrow> n) + vouchers_in avs d"
  unfolding r_def using assms(1-3)
proof (induction avs arbitrary: r0)
  case (Cons av avs)
  obtain d' a n where av: "av = ((d', a), n)" by (metis prod.exhaust)
  define r1 where "r1 = AList.update d' ((case map_of r0 d' of None \<Rightarrow> 0 | Some e \<Rightarrow> e) + n) r0"
  have "\<forall>(d, n) \<in> set r1. 0 \<le> n"
  proof (clarify)
    fix x m
    assume "(x, m) \<in> set r1"
    then have "map_of r1 x = Some m" using Cons.prems(3) by (simp add: r1_def distinct_store)
    then show "0 \<le> m" using Cons.prems(1,2) av by (auto simp: r1_def update_conv' split: if_splits option.splits dest!: map_of_SomeD)
  qed
  moreover have "distinct (map fst r1)" using Cons.prems(3) by (simp add: r1_def distinct_store)
  ultimately show ?case using Cons.IH [of r1] Cons.prems(1) av
    by (auto simp: r1_def Let_def vouchers_in_def update_conv' split: option.splits)
qed (simp add: vouchers_in_def)

definition reserves :: "voucher_store \<Rightarrow> (denom \<times> int) list \<Rightarrow> bool" where
  "reserves vs r \<longleftrightarrow> (\<forall>d n. vouchers_in vs d \<le> n \<longrightarrow> subtractReserved (d, n) r = (d, n - vouchers_in vs d))"

lemma reserved_exact:
  assumes "\<forall>((d, a), n) \<in> set vs. 0 \<le> n"
  shows "reserves vs (fold (\<lambda>((denom, addr), amount) reserved.
      let existing = (case map_of reserved denom of None \<Rightarrow> 0 | Some e \<Rightarrow> e)
      in AList.update denom (existing + amount) reserved) vs [])"
proof -
  have "subtractReserved (d, n) (fold (\<lambda>((denom, addr), amount) reserved.
      let existing = (case map_of reserved denom of None \<Rightarrow> 0 | Some e \<Rightarrow> e)
      in AList.update denom (existing + amount) reserved) vs []) = (d, n - vouchers_in vs d)" if "vouchers_in vs d \<le> n" for d n
    using reserved_fold [OF assms, of "[]" d] that vouchers_in_nonneg [OF assms, of d]
    by (auto simp: subtractReserved_def split: option.splits)
  then show ?thesis by (simp add: reserves_def)
qed

definition vouchers_held :: "'b auction_env \<Rightarrow> voucher_store \<Rightarrow> bool" where
  "vouchers_held E vs \<longleftrightarrow> (\<forall>((d, a), n) \<in> set vs. ValidateDenom E d \<and> account_address a)"

text \<open>The reservations are exact as long as every voucher belongs to an address of 20 bytes; otherwise reading them panics.\<close>

context auction_bank
begin

lemma loadReserved_cases:
  assumes "vouchers_valid (auction_vouchers s)" "vouchers_held E (auction_vouchers s)"
  shows "if holders_listed (auction_vouchers s) then \<exists>r. loadReserved E s = Inr r \<and> reserves (auction_vouchers s) r
    else loadReserved E s = Inl PanicCoins"
proof -
  let ?vs = "auction_vouchers s"
  have n: "\<forall>((d, a), n) \<in> set ?vs. 0 \<le> n" using assms(1) by (simp add: vouchers_valid_def)
  have "GetAllVouchers (ValidateDenom E) ?vs = (if holders_listed ?vs then Inr ?vs else Inl PanicVoucherCoin)"
    by (rule GetAllVouchers_cases) (use assms(2) n denom_format in \<open>auto simp: vouchers_held_def\<close>)
  moreover have "reserves ?vs (fold (\<lambda>((denom, addr), amount) reserved.
      let existing = (case map_of reserved denom of None \<Rightarrow> 0 | Some e \<Rightarrow> e)
      in AList.update denom (existing + amount) reserved) ?vs [])"
    by (rule reserved_exact [OF n])
  ultimately show ?thesis by (simp add: loadReserved_def GetVoucherReservedPerDenom_def)
qed

end

section \<open>The escrow\<close>

definition bid_valid :: "'b auction_env \<Rightarrow> Bid \<Rightarrow> bool" where
  "bid_valid E b \<longleftrightarrow> coin_Denom (bid_Amount b) = InjectiveCoin \<and> 0 \<le> coin_Amount (bid_Amount b)
     \<and> (0 < coin_Amount (bid_Amount b) \<longrightarrow>
          Bidder b \<noteq> '''' \<and> (\<exists>a. AccAddressFromBech32 E (Bidder b) = Some a \<and> a \<noteq> auction_address E \<and> account_address a))"

definition escrowed :: "'b auction_state \<Rightarrow> denom \<Rightarrow> int" where
  "escrowed s d = vouchers_in (auction_vouchers s) d + (if d = InjectiveCoin then coin_Amount (bid_Amount (GetHighestBid s)) else 0)"

definition escrow_ok :: "'b auction_env \<Rightarrow> 'b auction_state \<Rightarrow> bool" where
  "escrow_ok E s \<longleftrightarrow> vouchers_valid (auction_vouchers s) \<and> vouchers_held E (auction_vouchers s) \<and> bid_valid E (GetHighestBid s)
     \<and> (\<forall>d. escrowed s d \<le> held E s d)"

lemma escrow_ok_cong:
  assumes "exchange s' = exchange s" "bid s' = bid s" "auction_vouchers s' = auction_vouchers s"
  shows "escrow_ok E s' = escrow_ok E s"
proof -
  have "GetHighestBid s' = GetHighestBid s" using assms(2) by (simp add: GetHighestBid_def)
  then show ?thesis using assms by (simp add: escrow_ok_def escrowed_def)
qed

section \<open>Bids and claims\<close>

lemma escrowed_simps [simp]: "escrowed (put_bank s b) d = escrowed s d"
  by (simp add: escrowed_def)

lemma auction_ClaimVoucher_Inr:
  assumes "auction_ClaimVoucher E s sender d = Inr s'"
  obtains a b vs where "AccAddressFromBech32 E sender = Some a" "s' = (put_bank s b)\<lparr>auction_vouchers := vs\<rparr>"
    "ClaimVoucher (ValidateDenom E) (\<lambda>b. SendCoinsFromModuleToAccount (mod_bank E) b auction_module)
       (chain_bank s) (auction_vouchers s) a d = Inr (b, vs)"
proof -
  obtain a where a: "AccAddressFromBech32 E sender = Some a" using assms by (auto simp: auction_ClaimVoucher_def)
  show thesis
  proof (cases "ClaimVoucher (ValidateDenom E) (\<lambda>b. SendCoinsFromModuleToAccount (mod_bank E) b auction_module)
       (chain_bank s) (auction_vouchers s) a d")
    case (Inr r)
    then show thesis using that [OF a, where b = "fst r" and vs = "snd r"] assms a by (simp add: auction_ClaimVoucher_def split: prod.split_asm)
  qed (use assms a in \<open>simp add: auction_ClaimVoucher_def\<close>)
qed

context auction_bank
begin

lemma auction_receives:
  assumes "SendCoinsFromAccountToModule (mod_bank E) b a auction_module d n = Inr b'" "a \<noteq> auction_address E" "0 \<le> n"
  shows "GetBalance (mod_bank E) b' (auction_address E) d' = GetBalance (mod_bank E) b (auction_address E) d' + (if d' = d then n else 0)"
  using account_pays [OF assms] by blast

lemma auction_sends:
  assumes "SendCoinsFromModuleToAccount (mod_bank E) b auction_module a d n = Inr b'" "a \<noteq> auction_address E" "0 \<le> n"
  shows "GetBalance (mod_bank E) b' (auction_address E) d' = GetBalance (mod_bank E) b (auction_address E) d' - (if d' = d then n else 0)"
    and "GetBalance (mod_bank E) b' a d' = GetBalance (mod_bank E) b a d' + (if d' = d then n else 0)"
  using module_pays [OF assms] by blast+

lemma PlaceBid_cases:
  assumes "MsgBid_ValidateBasic E msg = Inr ()" "PlaceBid E now s msg = Inr s'" "escrow_ok E s"
  obtains a n b where "AccAddressFromBech32 E (bid_Sender msg) = Some a" "0 < coin_Amount (BidAmount msg)" "0 \<le> n"
    "coin_Denom (BidAmount msg) = InjectiveCoin"
    "SendCoinsFromAccountToModule (mod_bank E) (chain_bank s) a auction_module InjectiveCoin n = Inr b"
    and "n = coin_Amount (BidAmount msg) - coin_Amount (bid_Amount (GetHighestBid s))" "s' = SetBid (put_bank s b) (bid_Sender msg) (BidAmount msg)"
  | a b la b' where "AccAddressFromBech32 E (bid_Sender msg) = Some a" "0 < coin_Amount (BidAmount msg)"
    "coin_Denom (BidAmount msg) = InjectiveCoin"
    "SendCoinsFromAccountToModule (mod_bank E) (chain_bank s) a auction_module InjectiveCoin (coin_Amount (BidAmount msg)) = Inr b"
    "AccAddressFromBech32 E (Bidder (GetHighestBid s)) = Some la" "0 < coin_Amount (bid_Amount (GetHighestBid s))"
    "SendCoinsFromModuleToAccount (mod_bank E) b auction_module la InjectiveCoin (coin_Amount (bid_Amount (GetHighestBid s))) = Inr b'"
    "s' = SetBid (put_bank (put_bank s b) b') (bid_Sender msg) (BidAmount msg)"
proof -
  let ?last = "GetHighestBid s" and ?new = "BidAmount msg"
  have v: "0 < coin_Amount ?new" "coin_Denom ?new = InjectiveCoin" using assms(1) by (auto simp: MsgBid_ValidateBasic_def)
  have l: "0 \<le> coin_Amount (bid_Amount ?last)" using assms(3) by (simp add: escrow_ok_def bid_valid_def)
  obtain a dep b t where h: "AccAddressFromBech32 E (bid_Sender msg) = Some a" "amountToDeposit ?last msg = Inr dep"
    "SendCoinsFromAccountToModule (mod_bank E) (chain_bank s) a auction_module (coin_Denom dep) (coin_Amount dep) = Inr b"
    and r: "(if 0 < coin_Amount (bid_Amount ?last) \<and> Bidder ?last \<noteq> bid_Sender msg then refundLastBidder E (put_bank s b) else Inr (put_bank s b)) = Inr t"
    and s': "s' = SetBid t (bid_Sender msg) ?new"
    using assms(2) by (auto simp: PlaceBid_def Let_def case_bank_eq_Inr)
  show thesis
  proof (cases "0 < coin_Amount (bid_Amount ?last) \<and> Bidder ?last \<noteq> bid_Sender msg")
    case True
    then obtain la b' where "AccAddressFromBech32 E (Bidder ?last) = Some la" "t = put_bank (put_bank s b) b'"
      "SendCoinsFromModuleToAccount (mod_bank E) b auction_module la InjectiveCoin (coin_Amount (bid_Amount ?last)) = Inr b'"
      using r by (auto simp: refundLastBidder_def Let_def case_bank_eq_Inr)
    then show thesis using that(2) [of a b la b'] True h v s' by (simp add: amountToDeposit_def)
  next
    case False
    then have "coin_Denom dep = InjectiveCoin" "coin_Amount dep = coin_Amount ?new - coin_Amount (bid_Amount ?last)" "0 \<le> coin_Amount dep"
      using h(2) v l by (auto simp: amountToDeposit_def split: if_splits)
    moreover have "t = put_bank s b" using r False by simp
    ultimately show thesis using that(1) [of a "coin_Amount dep" b] h v s' by simp
  qed
qed

lemma PlaceBid_escrow:
  assumes "MsgBid_ValidateBasic E msg = Inr ()" "PlaceBid E now s msg = Inr s'" "escrow_ok E s"
    and user: "\<And>a. AccAddressFromBech32 E (bid_Sender msg) = Some a \<Longrightarrow> a \<noteq> auction_address E \<and> account_address a"
  shows "escrow_ok E s'"
proof -
  have e: "escrowed s d \<le> held E s d" for d using assms(3) by (simp add: escrow_ok_def)
  have new: "GetHighestBid (SetBid t a c) = \<lparr>Bidder = a, bid_Amount = c\<rparr>" "chain_bank (SetBid t a c) = chain_bank t"
    "auction_vouchers (SetBid t a c) = auction_vouchers t" for t :: "'b auction_state" and a c
    by (simp_all add: SetBid_def GetHighestBid_def)
  show ?thesis using assms(1-3)
  proof (cases rule: PlaceBid_cases)
    case (1 a n b)
    have a: "a \<noteq> auction_address E" "account_address a" "bid_Sender msg \<noteq> ''''" using 1(1) user empty_address by auto
    have "held E s' d = held E s d + (if d = InjectiveCoin then n else 0)" for d
      using auction_receives [OF 1(5) a(1) 1(3), of d] 1(7) by (simp add: new)
    then have "escrowed s' d \<le> held E s' d" for d using e [of d] 1(6) by (cases "d = InjectiveCoin") (simp_all add: 1(7) escrowed_def new)
    then show ?thesis using 1(1,2,4) a assms(3) by (simp add: escrow_ok_def bid_valid_def 1(7) new)
  next
    case (2 a b la b')
    have a: "a \<noteq> auction_address E" "account_address a" "bid_Sender msg \<noteq> ''''" using 2(1) user empty_address by auto
    have la: "la \<noteq> auction_address E" using assms(3) 2(5,6) by (auto simp: escrow_ok_def bid_valid_def)
    have "held E s' d = held E s d + (if d = InjectiveCoin then coin_Amount (BidAmount msg) - coin_Amount (bid_Amount (GetHighestBid s)) else 0)" for d
      using auction_receives [OF 2(4) a(1), of d] auction_sends(1) [OF 2(7) la, of d] 2(2,6,8) by (simp add: new)
    then have "escrowed s' d \<le> held E s' d" for d using e [of d] by (cases "d = InjectiveCoin") (simp_all add: 2(8) escrowed_def new)
    then show ?thesis using 2(1,2,3) a assms(3) by (simp add: escrow_ok_def bid_valid_def 2(8) new)
  qed
qed

lemma claim_escrow:
  assumes "auction_ClaimVoucher E s sender d = Inr s'" "escrow_ok E s" "AccAddressFromBech32 E sender \<noteq> Some (auction_address E)"
  shows "escrow_ok E s'"
proof -
  obtain a b vs where a: "AccAddressFromBech32 E sender = Some a" and s': "s' = (put_bank s b)\<lparr>auction_vouchers := vs\<rparr>"
    and c: "ClaimVoucher (ValidateDenom E) (\<lambda>b. SendCoinsFromModuleToAccount (mod_bank E) b auction_module)
              (chain_bank s) (auction_vouchers s) a d = Inr (b, vs)"
    by (rule auction_ClaimVoucher_Inr [OF assms(1)])
  note cl = ClaimVoucher_Inr [OF c]
  have vs: "vouchers_valid (auction_vouchers s)" and e: "escrowed s d' \<le> held E s d'" for d' using assms(2) by (simp_all add: escrow_ok_def)
  have "held E s' d' = held E s d' - (if d' = d then voucher_of (auction_vouchers s) d a else 0)" for d'
    using auction_sends(1) [OF cl(1), of d'] assms(3) a voucher_of_nonneg [OF vs] by (simp add: s')
  moreover have bid: "GetHighestBid s' = GetHighestBid s" by (simp add: s' GetHighestBid_def)
  have "escrowed s' d' = escrowed s d' - (if d' = d then voucher_of (auction_vouchers s) d a else 0)" for d'
    using vs by (simp add: escrowed_def bid) (simp add: s' cl(2) vouchers_in_delete vouchers_valid_def)
  ultimately have "escrowed s' d' \<le> held E s' d'" for d' using e [of d'] by (simp only: diff_right_mono)
  moreover have "vouchers_valid vs" using vs by (simp add: cl(2) vouchers_valid_delete)
  moreover have "vouchers_held E vs" using assms(2) by (auto simp: cl(2) escrow_ok_def vouchers_held_def AList.delete_eq)
  ultimately show ?thesis using assms(2) by (simp add: escrow_ok_def bid) (simp add: s')
qed

end


section \<open>Handing out the basket\<close>

text \<open>
  \<open>handed E w s s' p v\<close>: between \<open>s\<close> and \<open>s'\<close> the module paid the account \<open>w\<close> the amount \<open>p d\<close> of
  each denom and gave it vouchers for \<open>v d\<close>, and did nothing else.
\<close>

abbreviation purse :: "'b auction_env \<Rightarrow> address \<Rightarrow> 'b auction_state \<Rightarrow> denom \<Rightarrow> int" where
  "purse E w s d \<equiv> GetBalance (mod_bank E) (chain_bank s) w d"

definition rest_kept :: "'b auction_state \<Rightarrow> 'b auction_state \<Rightarrow> bool" where
  "rest_kept s s' \<longleftrightarrow> bid s' = bid s \<and> auction_round s' = auction_round s \<and> ending_timestamp s' = ending_timestamp s
     \<and> last_result s' = last_result s \<and> auction_params s' = auction_params s \<and> transfer_denoms s' = transfer_denoms s"

lemma rest_kept_bid: "rest_kept s s' \<Longrightarrow> GetHighestBid s' = GetHighestBid s"
  by (simp add: rest_kept_def GetHighestBid_def)

definition holders_kept :: "'b auction_env \<Rightarrow> address \<Rightarrow> voucher_store \<Rightarrow> voucher_store \<Rightarrow> bool" where
  "holders_kept E w vs vs' \<longleftrightarrow> (vouchers_held E vs \<longrightarrow> account_address w \<longrightarrow> vouchers_held E vs')
     \<and> (holders_listed vs \<longrightarrow> length w = 20 \<longrightarrow> holders_listed vs')"

lemma holders_kept_update:
  assumes "ValidateDenom E d"
  shows "holders_kept E w vs (AList.update (d, w) n vs)"
proof -
  have "set (AList.update (d, w) n vs) \<subseteq> insert ((d, w), n) (set vs)" by (induction vs) auto
  then show ?thesis using assms by (auto simp: holders_kept_def vouchers_held_def holders_listed_def list_all_iff)
qed

definition handed ::
  "'b auction_env \<Rightarrow> address \<Rightarrow> 'b auction_state \<Rightarrow> 'b auction_state \<Rightarrow> (denom \<Rightarrow> int) \<Rightarrow> (denom \<Rightarrow> int) \<Rightarrow> bool" where
  "handed E w s s' p v \<longleftrightarrow>
     vouchers_valid (auction_vouchers s') \<and> rest_kept s s' \<and> holders_kept E w (auction_vouchers s) (auction_vouchers s')
     \<and> (\<forall>d. 0 \<le> p d \<and> 0 \<le> v d \<and> held E s' d = held E s d - p d \<and> purse E w s' d = purse E w s d + p d
          \<and> vouchers_in (auction_vouchers s') d = vouchers_in (auction_vouchers s) d + v d
          \<and> voucher_of (auction_vouchers s') d w = voucher_of (auction_vouchers s) d w + v d)"

lemma handed_refl: "vouchers_valid (auction_vouchers s) \<Longrightarrow> handed E w s s (\<lambda>_. 0) (\<lambda>_. 0)"
  by (simp add: handed_def rest_kept_def holders_kept_def)

lemma handed_trans:
  assumes "handed E w s t p v" "handed E w t u q r"
  shows "handed E w s u (\<lambda>d. p d + q d) (\<lambda>d. v d + r d)"
  using assms by (simp add: handed_def rest_kept_def holders_kept_def)

context auction_bank
begin

lemma deliverCoin_handed:
  assumes "w \<noteq> auction_address E" "vouchers_valid (auction_vouchers s)" "0 < n \<longrightarrow> ValidateDenom E d"
  obtains p v where "handed E w s (deliverCoin E w s (d, n)) p v" "\<And>x. p x + v x = (if x = d then max 0 n else 0)"
proof (cases "0 < n")
  case False
  then show thesis using that [of "\<lambda>_. 0" "\<lambda>_. 0"] handed_refl [OF assms(2), of E w] by (simp add: deliverCoin_def)
next
  case True
  let ?send = "SendCoinsFromModuleToAccount (mod_bank E) (chain_bank s) auction_module w d n"
  show thesis
  proof (cases ?send)
    case (Inr b)
    have "handed E w s (put_bank s b) (\<lambda>x. if x = d then n else 0) (\<lambda>_. 0)"
      using auction_sends [OF Inr assms(1)] True assms(2)
      by (simp add: handed_def rest_kept_def holders_kept_def)
    then show thesis using that [of "\<lambda>x. if x = d then n else 0" "\<lambda>_. 0"] True Inr by (simp add: deliverCoin_def)
  next
    case (Inl e)
    let ?vs = "AList.update (d, w) (voucher_of (auction_vouchers s) d w + n) (auction_vouchers s)"
    have "vouchers_valid ?vs" using vouchers_valid_add [OF assms(2)] True by simp
    then have "handed E w s (s\<lparr>auction_vouchers := ?vs\<rparr>) (\<lambda>_. 0) (\<lambda>x. if x = d then n else 0)"
      using True assms(2) holders_kept_update [OF assms(3) [rule_format, OF True]]
      by (simp add: handed_def vouchers_in_add vouchers_valid_def voucher_of_add rest_kept_def)
    then show thesis using that [of "\<lambda>_. 0" "\<lambda>x. if x = d then n else 0"] True Inl assms(3)
      by (simp add: deliverCoin_def CreateVoucherOnFailedSend_def AddVoucher_valid)
  qed
qed

lemma deliver_all:
  assumes "w \<noteq> auction_address E" "vouchers_valid (auction_vouchers s)" "distinct (map fst cs)"
    and "\<And>d n. (d, n) \<in> set cs \<Longrightarrow> ValidateDenom E d" "\<And>c. fst (f c) = fst c"
  shows "\<exists>p v. handed E w s (foldl (\<lambda>s c. deliverCoin E w s (f c)) s cs) p v
    \<and> (\<forall>x. p x + v x = (case map_of cs x of None \<Rightarrow> 0 | Some n \<Rightarrow> max 0 (snd (f (x, n)))))"
  using assms(2-4)
proof (induction cs arbitrary: s)
  case Nil
  then show ?case using handed_refl [OF Nil(1), of E w] by (auto intro!: exI [of _ "\<lambda>_. 0"])
next
  case (Cons c cs)
  obtain d n where c: "c = (d, n)" by (metis prod.exhaust)
  have fc: "f c = (d, snd (f c))" using assms(5) [of c] c by (metis fst_conv prod.collapse)
  obtain p v where pv: "handed E w s (deliverCoin E w s (f c)) p v" "\<And>x. p x + v x = (if x = d then max 0 (snd (f c)) else 0)"
    using deliverCoin_handed [OF assms(1) Cons.prems(1), of "snd (f c)" d] Cons.prems(3) c fc by (metis list.set_intros(1))
  have "vouchers_valid (auction_vouchers (deliverCoin E w s (f c)))" using pv(1) by (simp add: handed_def)
  then obtain q r where qr: "handed E w (deliverCoin E w s (f c)) (foldl (\<lambda>s c. deliverCoin E w s (f c)) s (c # cs)) q r"
      "\<And>x. q x + r x = (case map_of cs x of None \<Rightarrow> 0 | Some n \<Rightarrow> max 0 (snd (f (x, n))))"
    using Cons.IH [of "deliverCoin E w s (f c)"] Cons.prems(2,3) by auto
  have "map_of cs d = None" using Cons.prems(2) c by (simp add: map_of_eq_None_iff)
  then have "p x + q x + (v x + r x) = (case map_of (c # cs) x of None \<Rightarrow> 0 | Some n \<Rightarrow> max 0 (snd (f (x, n))))" for x
    using pv(2) [of x] qr(2) [of x] c by (cases "x = d") simp_all
  then show ?case using handed_trans [OF pv(1) qr(1)] by blast
qed

end


section \<open>Settling a round\<close>

text \<open>What the winner gets of a denom: what the module holds beyond the bid and the vouchers, of INJ at most the cap.\<close>

definition basket_share :: "'b auction_env \<Rightarrow> 'b auction_state \<Rightarrow> int \<Rightarrow> denom \<Rightarrow> int" where
  "basket_share E s cap d = (if d = InjectiveCoin then min cap (held E s d - escrowed s d) else held E s d - escrowed s d)"

context auction_bank
begin

lemma sendBasket_handed:
  assumes "w \<noteq> auction_address E" "vouchers_valid (auction_vouchers s)" "\<And>d. vouchers_in (auction_vouchers s) d \<le> held E s d" "0 \<le> cap"
    and "vouchers_held E (auction_vouchers s)" "holders_listed (auction_vouchers s)"
  shows "\<exists>p v s'. sendBasketToWinner E s cap w = Inr s' \<and> handed E w s s' p v
    \<and> (\<forall>d. p d + v d = (if d = InjectiveCoin then min cap (held E s d - vouchers_in (auction_vouchers s) d)
                         else held E s d - vouchers_in (auction_vouchers s) d))"
proof -
  let ?vs = "auction_vouchers s" and ?cs = "GetAllBalances E (chain_bank s) (auction_address E)"
  obtain res where res: "loadReserved E s = Inr res" "reserves ?vs res"
    using loadReserved_cases [OF assms(2,5)] assms(6) by auto
  let ?f = "basketCoin res cap"
  have nonneg: "\<forall>((d, a), n) \<in> set ?vs. 0 \<le> n" using assms(2) by (simp add: vouchers_valid_def)
  have valid: "ValidateDenom E d" if "(d, n) \<in> set ?cs" for d n
    using that lists_balances(2) [of d n "chain_bank s" "auction_address E"] denoms_valid by blast
  have f: "fst (?f c) = fst c" for c by (simp add: basketCoin_def subtractReserved_def Let_def split: option.split)
  have share: "(case map_of ?cs d of None \<Rightarrow> 0 | Some n \<Rightarrow> max 0 (snd (?f (d, n))))
      = (if d = InjectiveCoin then min cap (held E s d - vouchers_in ?vs d) else held E s d - vouchers_in ?vs d)" for d
  proof (cases "map_of ?cs d")
    case None
    then have "held E s d = 0"
      using lists_balances(2) [of d "held E s d"] balance_nonneg [of "chain_bank s" "auction_address E" d]
      by (metis map_of_eq_None_iff fst_conv image_eqI less_le)
    then show ?thesis using None assms(3) [of d] vouchers_in_nonneg [OF nonneg, of d] assms(4)
      by (cases "d = InjectiveCoin") simp_all
  next
    case (Some n)
    then have n: "n = held E s d" using lists_balances(2) [of d n] by (auto dest: map_of_SomeD)
    have "subtractReserved (d, n) res = (d, n - vouchers_in ?vs d)" using res(2) assms(3) [of d] n by (simp add: reserves_def)
    then show ?thesis using Some n assms(3) [of d] assms(4) by (auto simp: basketCoin_def Let_def)
  qed
  have "\<exists>p v. handed E w s (foldl (\<lambda>s c. deliverCoin E w s (?f c)) s ?cs) p v
    \<and> (\<forall>d. p d + v d = (case map_of ?cs d of None \<Rightarrow> 0 | Some n \<Rightarrow> max 0 (snd (?f (d, n)))))"
    using assms(1,2) lists_balances(1) valid f by (rule deliver_all [where f = ?f and cs = ?cs and w = w and s = s])
  then obtain p v where pv: "handed E w s (foldl (\<lambda>s c. deliverCoin E w s (?f c)) s ?cs) p v"
    "\<forall>d. p d + v d = (case map_of ?cs d of None \<Rightarrow> 0 | Some n \<Rightarrow> max 0 (snd (?f (d, n))))"
    by (elim exE conjE)
  have "sendBasketToWinner E s cap w = Inr (foldl (\<lambda>s c. deliverCoin E w s (?f c)) s ?cs)" using res(1) by (simp add: sendBasketToWinner_def)
  moreover note pv(1)
  moreover have "p d + v d = (if d = InjectiveCoin then min cap (held E s d - vouchers_in ?vs d) else held E s d - vouchers_in ?vs d)" for d
    by (rule trans [OF pv(2) [rule_format] share])
  ultimately show ?thesis by (intro exI conjI allI)
qed

end


text \<open>
  \<open>settled E cap w s s' p v\<close>: the bid of \<open>s\<close> is burnt and cleared, its bidder's account \<open>w\<close> got the basket as
  payments \<open>p\<close> and vouchers \<open>v\<close>, the result is recorded, and the rest is as it was.
\<close>

definition settled ::
  "'b auction_env \<Rightarrow> int \<Rightarrow> address \<Rightarrow> 'b auction_state \<Rightarrow> 'b auction_state \<Rightarrow> (denom \<Rightarrow> int) \<Rightarrow> (denom \<Rightarrow> int) \<Rightarrow> bool" where
  "settled E cap w s s' p v \<longleftrightarrow>
     AccAddressFromBech32 E (Bidder (GetHighestBid s)) = Some w
     \<and> (\<forall>d. 0 \<le> p d \<and> 0 \<le> v d \<and> p d + v d = basket_share E s cap d
          \<and> held E s' d = held E s d - p d - (if d = InjectiveCoin then coin_Amount (bid_Amount (GetHighestBid s)) else 0)
          \<and> purse E w s' d = purse E w s d + p d
          \<and> vouchers_in (auction_vouchers s') d = vouchers_in (auction_vouchers s) d + v d
          \<and> voucher_of (auction_vouchers s') d w = voucher_of (auction_vouchers s) d w + v d)
     \<and> vouchers_valid (auction_vouchers s') \<and> holders_kept E w (auction_vouchers s) (auction_vouchers s') \<and> bid s' = None
     \<and> last_result s' = Some \<lparr>Winner = Bidder (GetHighestBid s), result_Amount = bid_Amount (GetHighestBid s), result_Round = auction_round s\<rparr>
     \<and> auction_round s' = auction_round s \<and> ending_timestamp s' = ending_timestamp s
     \<and> auction_params s' = auction_params s \<and> transfer_denoms s' = transfer_denoms s"

definition winner_listed :: "'b auction_env \<Rightarrow> 'b auction_state \<Rightarrow> bool" where
  "winner_listed E s \<longleftrightarrow> 0 < coin_Amount (bid_Amount (GetHighestBid s))
     \<longrightarrow> (\<forall>w. AccAddressFromBech32 E (Bidder (GetHighestBid s)) = Some w \<longrightarrow> length w = 20)"

lemma settledD:
  assumes "settled E cap w s s' p v"
  shows "p d + v d = basket_share E s cap d"
    and "held E s' d = held E s d - p d - (if d = InjectiveCoin then coin_Amount (bid_Amount (GetHighestBid s)) else 0)"
    and "vouchers_in (auction_vouchers s') d = vouchers_in (auction_vouchers s) d + v d"
    and "vouchers_valid (auction_vouchers s')" "bid s' = None" "auction_round s' = auction_round s"
      "ending_timestamp s' = ending_timestamp s" "auction_params s' = auction_params s" "transfer_denoms s' = transfer_denoms s"
    and "holders_kept E w (auction_vouchers s) (auction_vouchers s')" "AccAddressFromBech32 E (Bidder (GetHighestBid s)) = Some w"
  using assms unfolding settled_def by - (elim conjE allE [where x = d], assumption)+

context auction_bank
begin

lemma burnBid:
  assumes "escrow_ok E s"
  shows "\<exists>b. burnBidAmountInModule E s (coin_Amount (bid_Amount (GetHighestBid s))) = put_bank s b
    \<and> (\<forall>a d. GetBalance (mod_bank E) b a d =
         purse E a s d - (if a = auction_address E \<and> d = InjectiveCoin then coin_Amount (bid_Amount (GetHighestBid s)) else 0))"
proof -
  let ?n = "coin_Amount (bid_Amount (GetHighestBid s))"
  have e: "escrowed s InjectiveCoin \<le> held E s InjectiveCoin" "0 \<le> vouchers_in (auction_vouchers s) InjectiveCoin" "0 \<le> ?n"
    using assms vouchers_in_nonneg by (simp_all add: escrow_ok_def bid_valid_def vouchers_valid_def)
  then have "?n \<le> held E s InjectiveCoin" by (simp add: escrowed_def)
  from burns [OF e(3) this] obtain b where b: "BurnCoins E (chain_bank s) auction_module InjectiveCoin ?n = Inr b"
    "\<forall>a d. GetBalance (mod_bank E) b a d = purse E a s d - (if a = auction_address E \<and> d = InjectiveCoin then ?n else 0)"
    by (elim exE conjE)
  have "burnBidAmountInModule E s ?n = put_bank s b" using b(1) by (simp add: burnBidAmountInModule_def)
  then show ?thesis using b(2) by (intro exI conjI)
qed

lemma settle_effect:
  assumes "escrow_ok E s" "0 \<le> cap" "0 < coin_Amount (bid_Amount (GetHighestBid s))" "holders_listed (auction_vouchers s)"
  obtains w s' p v where "settleFinishedAuctionRound E s cap = Inr s'" "w \<noteq> auction_address E" "settled E cap w s s' p v"
proof -
  let ?bid = "GetHighestBid s" and ?n = "coin_Amount (bid_Amount (GetHighestBid s))"
  obtain w where w: "AccAddressFromBech32 E (Bidder ?bid) = Some w" "w \<noteq> auction_address E" "Bidder ?bid \<noteq> ''''"
    using assms(1,3) by (auto simp: escrow_ok_def bid_valid_def)
  obtain b where b: "burnBidAmountInModule E s ?n = put_bank s b"
    and bal: "\<forall>a d. GetBalance (mod_bank E) b a d = purse E a s d - (if a = auction_address E \<and> d = InjectiveCoin then ?n else 0)"
    using burnBid [OF assms(1)] by (elim exE conjE)
  let ?t = "put_bank s b"
  have free: "held E ?t d - vouchers_in (auction_vouchers ?t) d = held E s d - escrowed s d" for d
    by (simp add: bal escrowed_def)
  have ok: "escrowed s d \<le> held E s d" for d using assms(1) by (simp add: escrow_ok_def)
  have cover: "vouchers_in (auction_vouchers ?t) d \<le> held E ?t d" for d
    using free [of d] ok [of d] by linarith
  have valid: "vouchers_valid (auction_vouchers ?t)" "vouchers_held E (auction_vouchers ?t)" "holders_listed (auction_vouchers ?t)"
    using assms(1,4) by (simp_all add: escrow_ok_def)
  have "\<exists>p v u. sendBasketToWinner E ?t cap w = Inr u \<and> handed E w ?t u p v \<and> (\<forall>d. p d + v d = basket_share E s cap d)"
    using sendBasket_handed [OF w(2) valid(1) cover assms(2) valid(2,3)] by (simp only: free basket_share_def)
  then obtain p v u where u: "sendBasketToWinner E ?t cap w = Inr u" and h: "handed E w ?t u p v"
    and share: "\<forall>d. p d + v d = basket_share E s cap d"
    by (elim exE conjE)
  let ?s' = "DeleteBid (u\<lparr>last_result := Some \<lparr>Winner = Bidder ?bid, result_Amount = bid_Amount ?bid, result_Round = auction_round u\<rparr>\<rparr>)"
  have "settleFinishedAuctionRound E s cap = Inr ?s'"
    using w assms(3) u by (simp add: settleFinishedAuctionRound_def Let_def b)
  moreover have "settled E cap w s ?s' p v"
    using h share w(1,2) by (simp add: settled_def handed_def rest_kept_def bal DeleteBid_def)
  ultimately show thesis by (rule that [OF _ w(2)])
qed

lemma settle_idle:
  assumes "\<not> 0 < coin_Amount (bid_Amount (GetHighestBid s))"
  shows "settleFinishedAuctionRound E s cap = Inr s"
  using assms by (simp add: settleFinishedAuctionRound_def Let_def)

lemma settle_panic:
  assumes "escrow_ok E s" "0 < coin_Amount (bid_Amount (GetHighestBid s))" "\<not> holders_listed (auction_vouchers s)"
  shows "settleFinishedAuctionRound E s cap = Inl PanicCoins"
proof -
  let ?bid = "GetHighestBid s"
  obtain w where w: "AccAddressFromBech32 E (Bidder ?bid) = Some w" "Bidder ?bid \<noteq> ''''"
    using assms(1,2) by (auto simp: escrow_ok_def bid_valid_def)
  obtain b where b: "burnBidAmountInModule E s (coin_Amount (bid_Amount ?bid)) = put_bank s b" using burnBid [OF assms(1)] by blast
  have "loadReserved E (put_bank s b) = Inl PanicCoins"
    using loadReserved_cases [of "put_bank s b"] assms(1,3) by (simp add: escrow_ok_def)
  then show ?thesis using w b assms(2) by (simp add: settleFinishedAuctionRound_def sendBasketToWinner_def Let_def)
qed

lemma settle_escrow:
  assumes "escrow_ok E s" "0 \<le> cap" "0 < coin_Amount (bid_Amount (GetHighestBid s)) \<longrightarrow> holders_listed (auction_vouchers s)"
  obtains s' where "settleFinishedAuctionRound E s cap = Inr s'" "escrow_ok E s'" "coin_Amount (bid_Amount (GetHighestBid s')) = 0"
    "auction_round s' = auction_round s" "ending_timestamp s' = ending_timestamp s"
    "auction_params s' = auction_params s" "transfer_denoms s' = transfer_denoms s"
    "winner_listed E s \<longrightarrow> holders_listed (auction_vouchers s) \<longrightarrow> holders_listed (auction_vouchers s')"
proof (cases "0 < coin_Amount (bid_Amount (GetHighestBid s))")
  case False
  then have "coin_Amount (bid_Amount (GetHighestBid s)) = 0" using assms(1) by (simp add: escrow_ok_def bid_valid_def)
  then show thesis using that [OF settle_idle [OF False] assms(1)] by blast
next
  case True
  obtain w s' p v where eff: "settleFinishedAuctionRound E s cap = Inr s'" "settled E cap w s s' p v"
    by (rule settle_effect [OF assms(1,2) True assms(3) [rule_format, OF True]])
  note st = settledD [OF eff(2)]
  have none: "GetHighestBid s' = \<lparr>Bidder = '''', bid_Amount = \<lparr>coin_Denom = InjectiveCoin, coin_Amount = 0\<rparr>\<rparr>"
    using st(5) by (simp add: GetHighestBid_def InjectiveCoin_def)
  have sh: "p d + v d \<le> held E s d - escrowed s d" for d by (simp only: st(1) basket_share_def) simp
  have mv: "held E s' d - escrowed s' d = held E s d - escrowed s d - (p d + v d)" for d
    by (simp add: st(2,3) escrowed_def none)
  have "escrowed s' d \<le> held E s' d" for d using sh [of d] mv [of d] by linarith
  moreover have "vouchers_held E (auction_vouchers s')"
    using st(10,11) assms(1) True by (auto simp: holders_kept_def escrow_ok_def bid_valid_def)
  ultimately have "escrow_ok E s'" using st(4) by (simp add: escrow_ok_def bid_valid_def none)
  moreover have "coin_Amount (bid_Amount (GetHighestBid s')) = 0" by (simp add: none)
  moreover have "winner_listed E s \<longrightarrow> holders_listed (auction_vouchers s) \<longrightarrow> holders_listed (auction_vouchers s')"
    using st(10,11) True by (simp add: winner_listed_def holders_kept_def)
  ultimately show thesis using that [OF eff(1)] st(6-9) by blast
qed

end


section \<open>Filling the next basket\<close>

definition fed :: "'b auction_env \<Rightarrow> 'b auction_state \<Rightarrow> 'b auction_state \<Rightarrow> bool" where
  "fed E s s' \<longleftrightarrow> rest_kept s s' \<and> auction_vouchers s' = auction_vouchers s \<and> (\<forall>d. held E s d \<le> held E s' d)"

lemma fed_escrow:
  assumes "fed E s s'" "escrow_ok E s"
  shows "escrow_ok E s'"
proof -
  have bid: "GetHighestBid s' = GetHighestBid s" using assms(1) by (simp add: fed_def rest_kept_bid)
  then have "escrowed s' d = escrowed s d" for d using assms(1) by (simp add: fed_def escrowed_def)
  moreover have "held E s d \<le> held E s' d" for d using assms(1) by (simp add: fed_def)
  ultimately have "escrowed s' d \<le> held E s' d" for d using assms(2) order_trans by (fastforce simp: escrow_ok_def)
  then show ?thesis using assms by (simp add: escrow_ok_def bid fed_def)
qed

abbreviation vault :: "'b auction_env \<Rightarrow> 'b exchange_state \<Rightarrow> denom \<Rightarrow> int" where
  "vault E x d \<equiv> GetBalance (mod_bank E) (bank x) (auction_address E) d"

lemma DecrementDeposit_bank: "DecrementDeposit x sub d n = Inr x' \<Longrightarrow> bank x' = bank x"
  by (auto simp: DecrementDeposit_def SetDeposit_def Let_def split: if_splits)

lemma collect_positive:
  assumes "(i, ds, fs) = foldl (collectAuctionBalance E x cap) (i0, ds0, fs0) denoms" "\<forall>c \<in> set ds0 \<union> set fs0. 0 < snd c"
  shows "\<forall>c \<in> set ds \<union> set fs. 0 < snd c"
  using assms
proof (induction denoms arbitrary: i0 ds0 fs0)
  case (Cons d denoms)
  obtain i1 ds1 fs1 where step: "collectAuctionBalance E x cap (i0, ds0, fs0) d = (i1, ds1, fs1)" by (metis prod.exhaust)
  have "\<forall>c \<in> set ds1 \<union> set fs1. 0 < snd c"
    using step Cons.prems(2) unfolding ball_Un by (auto simp: collectAuctionBalance_def Let_def split: if_splits)
  then show ?case using Cons.IH Cons.prems(1) step by simp
qed simp

context auction_bank
begin

lemma deposit_withdrawn:
  assumes "0 < snd coin"
  shows "vault E x d \<le> vault E (withdrawAuctionDeposit E x coin) d"
proof -
  obtain denom n where c: "coin = (denom, n)" "0 \<le> n" using assms by (cases coin) auto
  have other: "exchange_module \<noteq> auction_module" by (simp add: exchange_module_def auction_module_def)
  show ?thesis
  proof (cases "SendCoinsFromModuleToModule E (bank x) exchange_module auction_module denom n")
    case (Inr b)
    have up: "GetBalance (mod_bank E) b (auction_address E) d = vault E x d + (if d = denom then n else 0)"
      using modules_pay [OF Inr module_accounts [OF other] c(2)] by simp
    have down: "GetBalance (mod_bank E) b' (auction_address E) d = GetBalance (mod_bank E) b (auction_address E) d - (if d = denom then n else 0)"
      if "SendCoinsFromModuleToModule E b auction_module exchange_module denom n = Inr b'" for b'
      using modules_pay [OF that module_accounts [OF other [symmetric]] c(2)] by simp
    show ?thesis using Inr up down c
      by (auto simp: withdrawAuctionDeposit_def Let_def dest!: DecrementDeposit_bank split: sum.split)
  qed (simp add: withdrawAuctionDeposit_def c)
qed

lemma fees_withdrawn:
  assumes "0 < snd coin"
  shows "vault E x d \<le> vault E (withdrawAuctionFees E x coin) d"
  using assms auction_accounts(2) by (auto simp: withdrawAuctionFees_def auction_receives split: sum.split)

lemma withdrawn_all:
  assumes "\<forall>c \<in> set cs. 0 < snd c" "\<And>x c d. 0 < snd c \<Longrightarrow> vault E x d \<le> vault E (f x c) d"
  shows "vault E x d \<le> vault E (foldl f x cs) d"
  using assms(1)
proof (induction cs arbitrary: x)
  case (Cons c cs)
  have "vault E x d \<le> vault E (f x c) d" using assms(2) Cons.prems by simp
  also have "\<dots> \<le> vault E (foldl f (f x c) cs) d" using Cons by simp
  finally show ?case by simp
qed simp

lemma withdraw_vault: "vault E x d \<le> vault E (WithdrawAllAuctionBalances E denoms x cap) d"
proof -
  obtain i ds fs where c: "foldl (collectAuctionBalance E x cap) (0, [], []) denoms = (i, ds, fs)" by (metis prod.exhaust)
  have pos: "\<forall>c \<in> set ds. 0 < snd c" "\<forall>c \<in> set fs. 0 < snd c"
    using collect_positive [OF c [symmetric]] by simp_all
  let ?y = "foldl (withdrawAuctionDeposit E) x ds"
  have "vault E x d \<le> vault E ?y d" by (rule withdrawn_all [OF pos(1) deposit_withdrawn])
  also have "\<dots> \<le> vault E (foldl (withdrawAuctionFees E) ?y fs) d" by (rule withdrawn_all [OF pos(2) fees_withdrawn])
  finally show ?thesis by (simp add: WithdrawAllAuctionBalances_def c)
qed

lemma sweep_fed: "fed E s (SweepFeesSubaccountToModule E s)"
  using balance_nonneg [of "chain_bank s" "AuctionFeesSubaccountAddress E" InjectiveCoin] auction_accounts(1)
  by (auto simp: SweepFeesSubaccountToModule_def fed_def rest_kept_def Let_def auction_receives split: sum.split)

lemma withdraw_fed: "fed E s (s\<lparr>exchange := WithdrawAllAuctionBalances E denoms (exchange s) cap\<rparr>)"
  using withdraw_vault by (simp add: fed_def rest_kept_def)

end


section \<open>Histories\<close>

text \<open>
  The steps of the chain the auction module sees: bids and claims signed by accounts other than its own, whose addresses
  have 20 or 32 bytes, parameter updates, ends of blocks that do not panic, and transactions of the rest of the chain, which take nothing out of its account.
\<close>

inductive auction_step :: "'b auction_env \<Rightarrow> 'b auction_state \<Rightarrow> 'b auction_state \<Rightarrow> bool" for E where
  step_bid: "MsgBid_ValidateBasic E msg = Inr ()
    \<Longrightarrow> (\<And>a. AccAddressFromBech32 E (bid_Sender msg) = Some a \<Longrightarrow> a \<noteq> auction_address E \<and> account_address a)
    \<Longrightarrow> PlaceBid E now s msg = Inr s' \<Longrightarrow> auction_step E s s'"
| step_claim: "AccAddressFromBech32 E sender \<noteq> Some (auction_address E) \<Longrightarrow> auction_ClaimVoucher E s sender d = Inr s'
    \<Longrightarrow> auction_step E s s'"
| step_params: "auction_UpdateParams E s authority params = Inr s' \<Longrightarrow> auction_step E s s'"
| step_end_block: "auction_EndBlocker E now s = Some (s', event) \<Longrightarrow> auction_step E s s'"
| step_others: "(\<And>d. vault E (exchange s) d \<le> vault E x d) \<Longrightarrow> auction_step E s (s\<lparr>exchange := x\<rparr>)"

definition auction_ok :: "'b auction_env \<Rightarrow> 'b auction_state \<Rightarrow> bool" where
  "auction_ok E s \<longleftrightarrow> escrow_ok E s \<and> 0 \<le> InjBasketMaxCap (auction_params s) \<and> 0 < AuctionPeriod (auction_params s)"

text \<open>
  \<open>round_opened E now s r\<close>: the end of the block at time \<open>now\<close> took the state \<open>s\<close> to the next round.
\<close>

definition round_opened :: "'b auction_env \<Rightarrow> int \<Rightarrow> 'b auction_state \<Rightarrow> ('b auction_state \<times> EventAuctionStart option) option \<Rightarrow> bool" where
  "round_opened E now s r \<longleftrightarrow> (\<exists>s' event. r = Some (s', Some event) \<and> auction_ok E s'
     \<and> auction_round s' = auction_round s + 1 \<and> start_Round event = auction_round s'
     \<and> coin_Amount (bid_Amount (GetHighestBid s')) = 0
     \<and> ending_timestamp s' = GetNextEndingTimeStamp now s \<and> EndingTimestamp event = ending_timestamp s')"

lemma params_kept:
  "PlaceBid E now s msg = Inr s' \<Longrightarrow> auction_params s' = auction_params s"
  "auction_ClaimVoucher E s sender d = Inr s' \<Longrightarrow> auction_params s' = auction_params s"
proof -
  have "refundLastBidder E t = Inr t' \<Longrightarrow> auction_params t' = auction_params t" for t t'
    by (auto simp: refundLastBidder_def Let_def case_bank_eq_Inr)
  then show "PlaceBid E now s msg = Inr s' \<Longrightarrow> auction_params s' = auction_params s"
    by (auto simp: PlaceBid_def Let_def case_bank_eq_Inr SetBid_def split: if_splits)
qed (auto elim!: auction_ClaimVoucher_Inr)

lemma UpdateParams_ok: "auction_UpdateParams E s authority params = Inr s' \<Longrightarrow> auction_ok E s \<Longrightarrow> auction_ok E s'"
  using escrow_ok_cong [of s' s E]
  by (auto simp: auction_UpdateParams_def AuctionParams_Validate_def validateAuctionPeriodDuration_def validateInjBasketMaxCap_def auction_ok_def)

context auction_bank
begin

lemma EndBlocker_settled:
  assumes "auction_ok E s" "ending_timestamp s \<le> now"
    and "0 < coin_Amount (bid_Amount (GetHighestBid s)) \<longrightarrow> holders_listed (auction_vouchers s)"
  shows "round_opened E now s (auction_EndBlocker E now s)
    \<or> auction_EndBlocker E now s = None \<and> \<not> (winner_listed E s \<and> holders_listed (auction_vouchers s))"
proof -
  have ok: "escrow_ok E s" "0 \<le> InjBasketMaxCap (auction_params s)" using assms(1) by (simp_all add: auction_ok_def)
  obtain t where t: "settleFinishedAuctionRound E s (InjBasketMaxCap (auction_params s)) = Inr t" "escrow_ok E t"
    "coin_Amount (bid_Amount (GetHighestBid t)) = 0" "auction_round t = auction_round s" "ending_timestamp t = ending_timestamp s"
    "auction_params t = auction_params s" "winner_listed E s \<longrightarrow> holders_listed (auction_vouchers s) \<longrightarrow> holders_listed (auction_vouchers t)"
    using settle_escrow [OF ok assms(3)] by blast
  let ?u = "AdvanceNextEndingTimeStamp now (AdvanceNextAuctionRound t)"
  have u: "escrow_ok E ?u" "GetHighestBid ?u = GetHighestBid t" "auction_round ?u = auction_round s + 1" "auction_params ?u = auction_params s"
    "ending_timestamp ?u = GetNextEndingTimeStamp now s" "auction_vouchers ?u = auction_vouchers t"
    using t(2,4-6) escrow_ok_cong [of ?u t E]
    by (simp_all add: AdvanceNextEndingTimeStamp_def AdvanceNextAuctionRound_def GetNextEndingTimeStamp_def GetHighestBid_def)
  show ?thesis
  proof (cases "loadReserved E ?u")
    case (Inl e)
    then have "\<not> holders_listed (auction_vouchers t)"
      using loadReserved_cases [of ?u] u(1,6) by (auto simp: escrow_ok_def split: if_splits)
    then show ?thesis using t(1,7) Inl assms(2) by (auto simp: auction_EndBlocker_def Let_def)
  next
    case (Inr r)
    let ?v = "SweepFeesSubaccountToModule E ?u"
    obtain cap event where e: "auction_EndBlocker E now s =
        Some (?v\<lparr>exchange := WithdrawAllAuctionBalances E (transfer_denoms ?v) (exchange ?v) cap\<rparr>, Some event)"
      "start_Round event = auction_round ?v" "EndingTimestamp event = ending_timestamp ?v"
      using assms(2) t(1) Inr by (simp add: auction_EndBlocker_def Let_def)
    let ?w = "?v\<lparr>exchange := WithdrawAllAuctionBalances E (transfer_denoms ?v) (exchange ?v) cap\<rparr>"
    have fed: "fed E ?u ?v" "fed E ?v ?w" by (rule sweep_fed, rule withdraw_fed)
    then have kept: "rest_kept ?u ?w" by (simp add: fed_def rest_kept_def)
    have "escrow_ok E ?w" using fed_escrow [OF fed(2) fed_escrow [OF fed(1) u(1)]] .
    then have "auction_ok E ?w" using assms(1) kept u(4) by (simp add: auction_ok_def rest_kept_def)
    moreover have "auction_round ?w = auction_round s + 1" "ending_timestamp ?w = GetNextEndingTimeStamp now s"
      using kept u(3,5) by (simp_all add: rest_kept_def)
    moreover have "coin_Amount (bid_Amount (GetHighestBid ?w)) = 0" using rest_kept_bid [OF kept] u(2) t(3) by simp
    ultimately have "round_opened E now s (auction_EndBlocker E now s)"
      unfolding round_opened_def e(1) using e(2,3) by (intro exI [of _ ?w] exI [of _ event]) simp
    then show ?thesis ..
  qed
qed

lemma EndBlocker_idle_panic:
  assumes "auction_ok E s" "ending_timestamp s \<le> now" "\<not> holders_listed (auction_vouchers s)"
  shows "auction_EndBlocker E now s = None"
proof (cases "0 < coin_Amount (bid_Amount (GetHighestBid s))")
  case True
  then have "settleFinishedAuctionRound E s (InjBasketMaxCap (auction_params s)) = Inl PanicCoins"
    using settle_panic assms(1,3) by (simp add: auction_ok_def)
  then show ?thesis using assms(2) by (simp add: auction_EndBlocker_def)
next
  case False
  let ?u = "AdvanceNextEndingTimeStamp now (AdvanceNextAuctionRound s)"
  have "auction_vouchers ?u = auction_vouchers s" by (simp add: AdvanceNextEndingTimeStamp_def AdvanceNextAuctionRound_def)
  then have "loadReserved E ?u = Inl PanicCoins"
    using loadReserved_cases [of ?u] assms(1,3) by (simp add: auction_ok_def escrow_ok_def)
  then show ?thesis using settle_idle [OF False] assms(2) by (simp add: auction_EndBlocker_def Let_def)
qed

lemma EndBlocker_cases:
  assumes "auction_ok E s"
  shows "if now < ending_timestamp s then auction_EndBlocker E now s = Some (s, None)
    else if \<not> holders_listed (auction_vouchers s) then auction_EndBlocker E now s = None
    else round_opened E now s (auction_EndBlocker E now s) \<or> auction_EndBlocker E now s = None \<and> \<not> winner_listed E s"
  using EndBlocker_settled [OF assms, of now] EndBlocker_idle_panic [OF assms, of now]
  by (auto simp: auction_EndBlocker_def)

lemma auction_step_ok:
  assumes "auction_step E s s'" "auction_ok E s"
  shows "auction_ok E s'"
  using assms(1)
proof cases
  case (step_bid msg now)
  then show ?thesis using PlaceBid_escrow assms(2) by (auto simp: auction_ok_def params_kept(1))
next
  case (step_claim sender d)
  then show ?thesis using claim_escrow assms(2) by (auto simp: auction_ok_def params_kept(2))
next
  case (step_params authority params)
  then show ?thesis using UpdateParams_ok assms(2) by blast
next
  case (step_end_block now event)
  then show ?thesis using EndBlocker_cases [OF assms(2), of now] assms(2) by (auto simp: round_opened_def split: if_splits)
next
  case (step_others x)
  then have "fed E s s'" by (simp add: fed_def rest_kept_def)
  then show ?thesis using fed_escrow assms(2) by (auto simp: auction_ok_def step_others(1))
qed

lemma auction_history_ok: "(auction_step E)\<^sup>*\<^sup>* s s' \<Longrightarrow> auction_ok E s \<Longrightarrow> auction_ok E s'"
  by (induction rule: rtranclp_induct) (auto intro: auction_step_ok)

end


section \<open>Properties\<close>

text \<open>C7: Along every history of bids, claims, parameter updates, ends of blocks and transactions of others, the account
  of the auction module holds, of every denom, at least the outstanding vouchers plus, of INJ, the highest bid.\<close>

theorem auction_escrow_covered:
  assumes "auction_bank E" "auction_ok E s" "(auction_step E)\<^sup>*\<^sup>* s s'"
  shows "vouchers_in (auction_vouchers s') d + (if d = InjectiveCoin then coin_Amount (bid_Amount (GetHighestBid s')) else 0)
    \<le> GetBalance (mod_bank E) (chain_bank s') (auction_address E) d"
  using auction_bank.auction_history_ok [OF assms(1,3,2)] by (simp add: auction_ok_def escrow_ok_def escrowed_def)

text \<open>C10: Settling a round with a bid succeeds, whatever transfers fail, as long as every outstanding voucher belongs to an
  address of 20 bytes: the bid is burnt and cleared, the result recorded,
  and the winner gets of every denom exactly what the module holds beyond the bid and the vouchers,
  of INJ at most the cap, partly as coins and partly as vouchers. With a voucher of a 32-byte address outstanding the settlement
  panics, because the listing of the vouchers does.\<close>

theorem auction_settlement_pays_winner:
  assumes "auction_bank E" "auction_ok E s" "0 < coin_Amount (bid_Amount (GetHighestBid s))"
  shows "if holders_listed (auction_vouchers s)
    then \<exists>w s' p v. settleFinishedAuctionRound E s (InjBasketMaxCap (auction_params s)) = Inr s'
      \<and> settled E (InjBasketMaxCap (auction_params s)) w s s' p v
    else settleFinishedAuctionRound E s (InjBasketMaxCap (auction_params s)) = Inl PanicCoins"
proof (cases "holders_listed (auction_vouchers s)")
  case True
  have "escrow_ok E s" "0 \<le> InjBasketMaxCap (auction_params s)" using assms(2) by (simp_all add: auction_ok_def)
  from auction_bank.settle_effect [OF assms(1) this assms(3) True] show ?thesis using True by metis
qed (use auction_bank.settle_panic [OF assms(1) _ assms(3)] assms(2) in \<open>simp add: auction_ok_def\<close>)

text \<open>C13: While the round runs the end of a block changes nothing; once it is due, the end of the block opens the next round:
  the round number goes up by one, the bid is cleared, the start is announced, and the new end
  is a full period after the old one and at least half a period away. It opens it for sure when the vouchers outstanding and the
  winner have addresses of 20 bytes. With a voucher of a 32-byte address outstanding, the end of the block panics; a winner with such
  an address makes it panic in the same block when one of the transfers fails.\<close>

theorem auction_rounds_advance:
  assumes "auction_bank E" "auction_ok E s"
    and "\<bar>ending_timestamp s\<bar> < 2 ^ 62" "\<bar>now\<bar> < 2 ^ 62" "AuctionPeriod (auction_params s) < 2 ^ 62"
  shows "if now < ending_timestamp s then auction_EndBlocker E now s = Some (s, None)
    else if \<not> holders_listed (auction_vouchers s) then auction_EndBlocker E now s = None
    else auction_EndBlocker E now s = None \<and> \<not> winner_listed E s
      \<or> (\<exists>s' event. auction_EndBlocker E now s = Some (s', Some event)
      \<and> auction_round s' = auction_round s + 1 \<and> start_Round event = auction_round s'
      \<and> coin_Amount (bid_Amount (GetHighestBid s')) = 0
      \<and> ending_timestamp s' = max (ending_timestamp s + AuctionPeriod (auction_params s)) (now + AuctionPeriod (auction_params s) div 2)
      \<and> EndingTimestamp event = ending_timestamp s')"
proof -
  have "0 < AuctionPeriod (auction_params s)" using assms(2) by (simp add: auction_ok_def)
  then have due: "GetNextEndingTimeStamp now s
      = max (ending_timestamp s + AuctionPeriod (auction_params s)) (now + AuctionPeriod (auction_params s) div 2)"
    using assms(3-5) by (simp add: GetNextEndingTimeStamp_def Let_def int64_fits trunc_div_def)
  note c = auction_bank.EndBlocker_cases [OF assms(1,2), of now]
  show ?thesis
  proof (cases "now < ending_timestamp s \<or> \<not> holders_listed (auction_vouchers s)")
    case False
    then have "round_opened E now s (auction_EndBlocker E now s) \<or> auction_EndBlocker E now s = None \<and> \<not> winner_listed E s"
      using c by simp
    then show ?thesis using False unfolding round_opened_def due by (simp only: de_Morgan_disj not_not if_False not_True_eq_False) blast
  qed (use c in \<open>auto split: if_splits\<close>)
qed

end
