(* ===== verification/Account_Book.thy ===== *)
theory Account_Book
  imports Module_Bank
begin

text \<open>
  A bank that keeps its accounts as a list of balances, reading a negative entry as none; it meets the contract of \<open>module_bank\<close>.
  It refuses transfers of ''usdt'' to addresses that start with ''bob'', as a bank with send restrictions may.
\<close>

type_synonym account_book = "((address \<times> denom) \<times> int) list"

definition book_valid_denom :: "denom \<Rightarrow> bool" where
  "book_valid_denom d \<longleftrightarrow> d \<noteq> '''' \<and> CHR ''|'' \<notin> set d"

definition book_balance :: "account_book \<Rightarrow> address \<Rightarrow> denom \<Rightarrow> int" where
  "book_balance b a d = (if book_valid_denom d then (case map_of b (a, d) of None \<Rightarrow> 0 | Some n \<Rightarrow> max 0 n) else 0)"

definition book_send :: "account_book \<Rightarrow> address \<Rightarrow> address \<Rightarrow> denom \<Rightarrow> int \<Rightarrow> bank_error + account_book" where
  "book_send b src dst d n =
     (if n < 0 \<or> book_balance b src d < n \<or> (take 3 dst = ''bob'' \<and> d = ''usdt'') \<or> \<not> book_valid_denom d then Inl BankError
      else let b' = AList.update (src, d) (book_balance b src d - n) b
           in Inr (AList.update (dst, d) (book_balance b' dst d + n) b'))"

definition book_mint :: "account_book \<Rightarrow> address \<Rightarrow> denom \<Rightarrow> int \<Rightarrow> bank_error + account_book" where
  "book_mint b a d n =
     (if n < 0 \<or> \<not> book_valid_denom d then Inl BankError
      else Inr (AList.update (a, d) (book_balance b a d + n) b))"

definition book_burn :: "account_book \<Rightarrow> address \<Rightarrow> denom \<Rightarrow> int \<Rightarrow> bank_error + account_book" where
  "book_burn b a d n =
     (if n < 0 \<or> book_balance b a d < n then Inl BankError
      else Inr (AList.update (a, d) (book_balance b a d - n) b))"

definition book_bank :: "account_book bank_ops" where
  "book_bank = \<lparr>GetBalance = book_balance, GetSupply = (\<lambda>b d. 1000000), GetModuleAddress = ledger_module,
     SendCoinsFromModuleToAccount = (\<lambda>b m a. book_send b (ledger_module m) a),
     SendCoinsFromAccountToModule = (\<lambda>b a m. book_send b a (ledger_module m))\<rparr>"

definition book_chain :: "account_book chain_env" where
  "book_chain =
     \<lparr>env_exchange = \<lparr>env_dec = sdk_dec, env_bank = book_bank, IsEnforcedRestrictionsDenom = (\<lambda>_. False),
         SendRestrictionOk = (\<lambda>_ _ _ _. True), CrossMarginMaintenanceOk = (\<lambda>_ _ _ _. True)\<rparr>,
      SendCoinsFromModuleToModule = (\<lambda>b m m'. book_send b (ledger_module m) (ledger_module m')),
      MintCoins = (\<lambda>b m. book_mint b (ledger_module m)), BurnCoins = (\<lambda>b m. book_burn b (ledger_module m)),
      AccAddressFromBech32 = (\<lambda>s. if s = '''' then None else Some s), ValidateDenom = book_valid_denom, env_authority = ''gov''\<rparr>"

lemma book_balance_update:
  "0 \<le> m \<Longrightarrow> book_balance (AList.update (a, d) m b) a' d' = (if a' = a \<and> d' = d \<and> book_valid_denom d then m else book_balance b a' d')"
  by (simp add: book_balance_def update_conv')

lemma book_balance_nonneg: "0 \<le> book_balance b a d"
  by (simp add: book_balance_def split: option.split)

lemma book_denom: "0 < book_balance b a d \<Longrightarrow> book_valid_denom d"
  by (simp add: book_balance_def split: if_splits)

lemma book_send_balance:
  assumes "book_send b src dst d n = Inr b'" "src \<noteq> dst"
  shows "book_balance b' a d' = book_balance b a d' - (if a = src \<and> d' = d then n else 0) + (if a = dst \<and> d' = d then n else 0)"
proof -
  have h: "0 \<le> n" "n \<le> book_balance b src d" "book_valid_denom d" "0 \<le> book_balance b dst d + n"
    and b': "b' = AList.update (dst, d) (book_balance b dst d + n) (AList.update (src, d) (book_balance b src d - n) b)"
    using assms book_balance_nonneg [of b dst d]
    by (auto simp: book_send_def Let_def not_less book_balance_update split: if_splits)
  then show ?thesis using assms(2) by (auto simp: book_balance_update)
qed

lemma book_burn_balance:
  assumes "0 \<le> n" "n \<le> book_balance b m d"
  shows "\<exists>b'. book_burn b m d n = Inr b' \<and> (\<forall>a d'. book_balance b' a d' = book_balance b a d' - (if a = m \<and> d' = d then n else 0))"
proof -
  have "\<not> book_valid_denom d \<Longrightarrow> n = 0" using assms by (simp add: book_balance_def)
  then show ?thesis using assms by (auto simp: book_burn_def book_balance_update)
qed

lemma book_mint_balance:
  assumes "book_mint b m d n = Inr b'"
  shows "book_balance b' a d' = book_balance b a d' + (if a = m \<and> d' = d then n else 0)"
  using assms book_balance_nonneg [of b m d] by (auto simp: book_mint_def book_balance_update split: if_splits)

lemma book_burn_covered: "book_burn b a d n = Inr b' \<Longrightarrow> n \<le> book_balance b a d"
  by (simp add: book_burn_def split: if_splits)

interpretation book: module_bank book_chain
proof (unfold_locales, goal_cases)
  case (11 b m a d n b' d')
  then show ?case using book_send_balance by (auto simp: book_chain_def book_bank_def)
next
  case (12 b a m d n b' d')
  then show ?case using book_send_balance by (auto simp: book_chain_def book_bank_def)
next
  case (13 b m m' d n b' d')
  then show ?case using book_send_balance by (auto simp: book_chain_def book_bank_def)
next
  case (14 b m d n b' a d')
  then show ?case using book_mint_balance by (simp add: book_chain_def book_bank_def)
next
  case (15 n b m d)
  then show ?case using book_burn_balance by (simp add: book_chain_def book_bank_def)
next
  case (16 b m d n b')
  then show ?case using book_burn_covered by (simp add: book_chain_def book_bank_def)
qed (use sdk.legacy_dec_axioms in \<open>auto simp: book_chain_def book_bank_def legacy_dec_def book_balance_nonneg book_denom ledger_module_def\<close>)

text \<open>The contract only speaks of the fields of \<^typ>\<open>'b chain_env\<close>, so it holds of every extension.\<close>

lemma module_bank_extension: "module_bank (chain_env.truncate E) \<Longrightarrow> module_bank E"
  by (simp add: module_bank_def module_bank_axioms_def chain_env.truncate_def)

end
