(* ===== verification/Auction_Examples.thy ===== *)
theory Auction_Examples
  imports Auction_Laws Account_Book
begin

text \<open>On the bank of \<^verbatim>\<open>Account_Book\<close> a round with two bidders is played to its end.\<close>

definition book_list :: "account_book \<Rightarrow> address \<Rightarrow> (denom \<times> int) list" where
  "book_list b a = filter (\<lambda>c. 0 < snd c) (map (\<lambda>d. (d, book_balance b a d)) (remdups (map (\<lambda>r. snd (fst r)) b)))"

lemma book_list_balances:
  "distinct (map fst (book_list b a))"
  "(d, n) \<in> set (book_list b a) \<longleftrightarrow> 0 < n \<and> n = book_balance b a d"
proof -
  have "0 < book_balance b a d \<Longrightarrow> d \<in> (\<lambda>r. snd (fst r)) ` set b"
    by (force simp: book_balance_def split: if_splits option.splits dest: map_of_SomeD)
  then show "(d, n) \<in> set (book_list b a) \<longleftrightarrow> 0 < n \<and> n = book_balance b a d"
    by (auto simp: book_list_def)
  show "distinct (map fst (book_list b a))"
    by (simp add: book_list_def distinct_map_filter comp_def)
qed

text \<open>An account is a name filled up to 20 bytes.\<close>

definition acct :: "string \<Rightarrow> address" where
  "acct s = take 20 (s @ replicate 20 (CHR ''_''))"

lemma acct_length: "length (acct s) = 20"
  by (simp add: acct_def)

definition book_env :: "account_book auction_env" where
  "book_env =
     \<lparr>env_exchange = env_exchange book_chain, SendCoinsFromModuleToModule = SendCoinsFromModuleToModule book_chain,
      MintCoins = MintCoins book_chain, BurnCoins = BurnCoins book_chain, AccAddressFromBech32 = (\<lambda>s. if s = '''' then None else Some (acct s)),
      ValidateDenom = ValidateDenom book_chain, env_authority = env_authority book_chain,
      GetAllBalances = book_list, AuctionFeesSubaccountAddress = ''fees'', ExchangeAuctionFeesAddress = ''xfees''\<rparr>"

lemmas book_env_defs = book_env_def book_chain_def book_bank_def

interpretation book_auction: auction_bank book_env
proof -
  have "chain_env.truncate book_env = book_chain\<lparr>AccAddressFromBech32 := AccAddressFromBech32 book_env\<rparr>"
    by (simp add: book_env_def book_chain_def chain_env.truncate_def)
  moreover have "module_bank (book_chain\<lparr>AccAddressFromBech32 := AccAddressFromBech32 book_env\<rparr>)"
    using book.module_bank_axioms by (simp add: module_bank_def module_bank_axioms_def book_env_def)
  ultimately have "module_bank book_env" by (simp add: module_bank_extension)
  moreover have "auction_bank_axioms book_env"
    by (unfold_locales) (simp_all add: book_env_defs book_list_balances ledger_module_def book_valid_denom_def)
  ultimately show "auction_bank book_env" by (rule auction_bank.intro)
qed

section \<open>A round\<close>

definition round_state :: "Bid option \<Rightarrow> int \<Rightarrow> int \<Rightarrow> int \<Rightarrow> account_book auction_state" where
  "round_state b pot alice bob = \<lparr>bid = b, auction_round = 1, ending_timestamp = 100, last_result = None,
     auction_vouchers = [((''usdt'', acct ''carol''), 2)],
     auction_params = \<lparr>AuctionPeriod = 50, MinNextBidIncrementRate = 10 ^ 16, InjBasketMaxCap = 20, BiddersWhitelist = []\<rparr>,
     transfer_denoms = [''usdt''],
     exchange = \<lparr>deposits = [], transient_deposits = [],
       bank = [((''module/auction'', ''inj''), pot), ((''module/auction'', ''usdt''), 7), ((acct ''alice'', ''inj''), alice),
         ((acct ''bob'', ''inj''), bob), ((''xfees'', ''usdt''), 3)]\<rparr>\<rparr>"

definition round_msg :: "string \<Rightarrow> int \<Rightarrow> MsgBid" where
  "round_msg sender n = \<lparr>bid_Sender = sender, BidAmount = \<lparr>coin_Denom = ''inj'', coin_Amount = n\<rparr>, bid_Round = 1\<rparr>"

definition round_start :: "account_book auction_state" where
  "round_start = round_state None 5 100 100"

definition round_first_bid :: "account_book auction_state" where
  "round_first_bid = round_state (Some \<lparr>Bidder = ''alice'', bid_Amount = \<lparr>coin_Denom = ''inj'', coin_Amount = 10\<rparr>\<rparr>) 15 90 100"

definition round_outbid :: "account_book auction_state" where
  "round_outbid = round_state (Some \<lparr>Bidder = ''bob'', bid_Amount = \<lparr>coin_Denom = ''inj'', coin_Amount = 20\<rparr>\<rparr>) 25 100 80"

definition round_over :: "account_book auction_state" where
  "round_over = \<lparr>bid = None, auction_round = 2, ending_timestamp = 150,
     last_result = Some \<lparr>Winner = ''bob'', result_Amount = \<lparr>coin_Denom = ''inj'', coin_Amount = 20\<rparr>, result_Round = 1\<rparr>,
     auction_vouchers = [((''usdt'', acct ''carol''), 2), ((''usdt'', acct ''bob''), 5)],
     auction_params = \<lparr>AuctionPeriod = 50, MinNextBidIncrementRate = 10 ^ 16, InjBasketMaxCap = 20, BiddersWhitelist = []\<rparr>,
     transfer_denoms = [''usdt''],
     exchange = \<lparr>deposits = [], transient_deposits = [],
       bank = [((''module/auction'', ''inj''), 0), ((''module/auction'', ''usdt''), 10), ((acct ''alice'', ''inj''), 100),
         ((acct ''bob'', ''inj''), 85), ((''xfees'', ''usdt''), 0)]\<rparr>\<rparr>"

lemma round_runs:
  "MsgBid_ValidateBasic book_env (round_msg ''alice'' 10) = Inr ()"
  "MsgBid_ValidateBasic book_env (round_msg ''bob'' 20) = Inr ()"
  "PlaceBid book_env 10 round_start (round_msg ''alice'' 10) = Inr round_first_bid"
  "PlaceBid book_env 20 round_first_bid (round_msg ''bob'' 20) = Inr round_outbid"
  "map_option fst (auction_EndBlocker book_env 120 round_outbid) = Some round_over"
  by code_simp+

lemma book_env_simps:
  "AccAddressFromBech32 book_env a = (if a = '''' then None else Some (acct a))" "GetModuleAddress book_bank auction_module = ''module/auction''"
  "mod_bank book_env = book_bank" "GetBalance book_bank = book_balance"
  by (simp_all add: book_env_defs ledger_module_def auction_module_def)

lemma acct_not_module: "acct s \<noteq> ''module/auction''"
  using acct_length [of s] by auto

lemma round_state_ok:
  assumes "case b of None \<Rightarrow> True | Some c \<Rightarrow> Bidder c = ''alice'' \<or> Bidder c = ''bob''"
    and "case b of None \<Rightarrow> True | Some c \<Rightarrow> coin_Denom (bid_Amount c) = ''inj'' \<and> 0 \<le> coin_Amount (bid_Amount c)
      \<and> coin_Amount (bid_Amount c) \<le> pot \<and> 0 \<le> pot"
  shows "auction_ok book_env (round_state b pot x y)"
  using assms
  by (cases b) (auto simp: auction_ok_def escrow_ok_def escrowed_def bid_valid_def vouchers_valid_def vouchers_in_def round_state_def
      book_env_simps book_balance_def book_valid_denom_def GetHighestBid_def InjectiveCoin_def
      vouchers_held_def account_address_def acct_length acct_not_module book_env_def book_chain_def)

lemma round_history: "(auction_step book_env)\<^sup>*\<^sup>* round_start round_over"
proof -
  have "auction_step book_env round_start round_first_bid"
    by (rule auction_step.step_bid [OF round_runs(1) _ round_runs(3)])
      (auto simp: book_env_simps round_msg_def account_address_def acct_length acct_not_module)
  moreover have "auction_step book_env round_first_bid round_outbid"
    by (rule auction_step.step_bid [OF round_runs(2) _ round_runs(4)])
      (auto simp: book_env_simps round_msg_def account_address_def acct_length acct_not_module)
  moreover have "auction_step book_env round_outbid round_over"
    using auction_step.step_end_block [of book_env 120 round_outbid] round_runs(5) by auto
  ultimately show ?thesis by simp
qed

theorem auction_escrow_covered_witness:
  "auction_ok book_env round_start \<and> (auction_step book_env)\<^sup>*\<^sup>* round_start round_over \<and> vouchers_in (auction_vouchers round_over) ''usdt'' = 7
   \<and> vouchers_in (auction_vouchers round_over) ''usdt''
       + (if ''usdt'' = InjectiveCoin then coin_Amount (bid_Amount (GetHighestBid round_over)) else 0)
       \<le> GetBalance (mod_bank book_env) (chain_bank round_over) (auction_address book_env) ''usdt''"
proof -
  have ok: "auction_ok book_env round_start" by (simp add: round_start_def round_state_ok)
  show ?thesis using ok round_history auction_escrow_covered [OF book_auction.auction_bank_axioms ok round_history, of "''usdt''"]
    by (simp add: round_over_def vouchers_in_def)
qed

theorem auction_settlement_pays_winner_witness:
  "auction_ok book_env round_outbid \<and> 0 < coin_Amount (bid_Amount (GetHighestBid round_outbid))
   \<and> (\<exists>w s' p v. settleFinishedAuctionRound book_env round_outbid (InjBasketMaxCap (auction_params round_outbid)) = Inr s'
       \<and> settled book_env (InjBasketMaxCap (auction_params round_outbid)) w round_outbid s' p v)"
proof -
  have ok: "auction_ok book_env round_outbid" by (simp add: round_outbid_def round_state_ok)
  have pos: "0 < coin_Amount (bid_Amount (GetHighestBid round_outbid))" by (simp add: round_outbid_def round_state_def GetHighestBid_def)
  have "holders_listed (auction_vouchers round_outbid)" by (simp add: round_outbid_def round_state_def holders_listed_def acct_length)
  then show ?thesis using ok pos auction_settlement_pays_winner [OF book_auction.auction_bank_axioms ok pos] by simp
qed

theorem auction_rounds_advance_witness:
  "auction_ok book_env round_outbid
   \<and> (\<exists>s' event. auction_EndBlocker book_env 120 round_outbid = Some (s', Some event) \<and> auction_round s' = 2 \<and> ending_timestamp s' = 150)"
proof -
  have ok: "auction_ok book_env round_outbid" by (simp add: round_outbid_def round_state_ok)
  have at: "ending_timestamp round_outbid = 100" "AuctionPeriod (auction_params round_outbid) = 50" "auction_round round_outbid = 1"
    by (simp_all add: round_outbid_def round_state_def)
  have "holders_listed (auction_vouchers round_outbid)" "winner_listed book_env round_outbid"
    by (simp_all add: round_outbid_def round_state_def holders_listed_def winner_listed_def acct_length book_env_simps GetHighestBid_def)
  then show ?thesis using ok auction_rounds_advance [OF book_auction.auction_bank_axioms ok, of 120] unfolding at by auto
qed

end
