(* ===== verification/Insurance.thy ===== *)
theory Insurance
  imports Spot_Settlement Store_Keys "HOL-Library.Product_Lexorder" Module_Bank
begin

text \<open>
  The insurance module (\<^verbatim>\<open>insurance/keeper\<close>, \<^verbatim>\<open>insurance/types\<close>): one fund per derivative or binary options market, whose
  underwriters hold shares, redeem them after a notice period and are paid from the balance of the fund; and the
  operations of the exchange on the funds and the market balances (\<^verbatim>\<open>exchange/keeper/derivative/market.go\<close>,
  \<^verbatim>\<open>exchange/keeper/base/derivative_market_balances.go\<close>).

  Times and durations are nanoseconds. The schedules are stored by time and id, which is the order of the bytes of their
  keys; the index by redeemer and market is kept decoded. The statuses of the markets are read from the exchange. The
  bank, the hash, the codecs of addresses and hashes and the overflow check of a product are fields of the environment; a product
  that overflows panics. Events, logging, gas and the creation of the module account are left out.
\<close>

section \<open>Types\<close>

type_synonym market_hash = string

definition insurance_module :: string where "insurance_module = ''insurance''"

datatype OracleType = OracleType_Unspecified | OracleType_Band | OracleType_PriceFeed | OracleType_Coinbase | OracleType_Chainlink
  | OracleType_Razor | OracleType_Dia | OracleType_API3 | OracleType_Uma | OracleType_Pyth | OracleType_BandIBC | OracleType_Provider
  | OracleType_Stork | OracleType_ChainlinkDataStreams | OracleType_PythPro | OracleType_SedaFast

primrec OracleType_String :: "OracleType \<Rightarrow> string" where
  "OracleType_String OracleType_Unspecified = ''Unspecified''"
| "OracleType_String OracleType_Band = ''Band''"
| "OracleType_String OracleType_PriceFeed = ''PriceFeed''"
| "OracleType_String OracleType_Coinbase = ''Coinbase''"
| "OracleType_String OracleType_Chainlink = ''Chainlink''"
| "OracleType_String OracleType_Razor = ''Razor''"
| "OracleType_String OracleType_Dia = ''Dia''"
| "OracleType_String OracleType_API3 = ''API3''"
| "OracleType_String OracleType_Uma = ''Uma''"
| "OracleType_String OracleType_Pyth = ''Pyth''"
| "OracleType_String OracleType_BandIBC = ''BandIBC''"
| "OracleType_String OracleType_Provider = ''Provider''"
| "OracleType_String OracleType_Stork = ''Stork''"
| "OracleType_String OracleType_ChainlinkDataStreams = ''ChainlinkDataStreams''"
| "OracleType_String OracleType_PythPro = ''PythPro''"
| "OracleType_String OracleType_SedaFast = ''SedaFast''"

record InsuranceFund =
  DepositDenom :: denom
  InsurancePoolTokenDenom :: denom
  RedemptionNoticePeriodDuration :: int
  fund_Balance :: int
  TotalShare :: int
  fund_MarketId :: string
  MarketTicker :: string
  fund_OracleBase :: string
  fund_OracleQuote :: string
  fund_OracleType :: OracleType
  fund_Expiry :: int

record RedemptionSchedule =
  schedule_Id :: "64 word"
  schedule_MarketId :: string
  Redeemer :: string
  ClaimableRedemptionTime :: int
  RedemptionAmount :: Coin

datatype insurance_error = ErrInsuranceFundAlreadyExists | ErrInsuranceFundNotFound | ErrInvalidDepositAmount | ErrInvalidDepositDenom
  | ErrPayoutTooLarge | ErrInvalidTicker | ErrInvalidQuoteDenom | ErrInvalidOracle | ErrInvalidExpirationTime | ErrInvalidFundMarketID
  | ErrInvalidShareDenom | ErrInsuranceAddress | ErrInsuranceCoins | ErrInsuranceSigner | ErrNoticePeriod | ErrInsuranceBank
  | ErrInsuranceVoucher voucher_error | ErrInsuranceGenesis | PanicInsurance

text \<open>The message of the error of a failed redemption is kept as the error.\<close>

record FailedRedemptionSchedule =
  failed_Id :: "64 word"
  failed_Schedule :: RedemptionSchedule
  failed_Err :: insurance_error

record Metadata =
  Description :: string
  DenomUnits :: "(denom \<times> nat) list"
  Base :: denom
  Display :: denom
  meta_Name :: string
  meta_Symbol :: string

record exchange_markets =
  derivative_statuses :: "(market_hash \<times> MarketStatus) list"
  binary_statuses :: "(market_hash \<times> MarketStatus) list"
  spot_statuses :: "(market_hash \<times> MarketStatus) list"
  market_balances :: "(market_hash \<times> dec) list"

record 'b insurance_state =
  insurance_funds :: "(market_hash \<times> InsuranceFund) list"
  redemption_schedules :: "((int \<times> 64 word) \<times> RedemptionSchedule) list"
  schedule_index :: "(address \<times> string \<times> int \<times> 64 word) list"
  share_denom_id :: "64 word option"
  redemption_schedule_id :: "64 word option"
  failed_schedules :: "(64 word \<times> FailedRedemptionSchedule) list"
  failed_schedule_id :: "64 word option"
  insurance_vouchers :: voucher_store
  notice_period :: int
  markets :: exchange_markets
  ins_bank :: 'b

record 'b insurance_env = "'b chain_env" +
  SetDenomMetaData :: "'b \<Rightarrow> Metadata \<Rightarrow> 'b"
  AccAddress_String :: "address \<Rightarrow> string"
  Keccak256Hash :: "string \<Rightarrow> market_hash"
  Hex :: "market_hash \<Rightarrow> string"
  HexToHash :: "string \<Rightarrow> market_hash"
  IsHexAddress :: "string \<Rightarrow> bool"
  HexToAddress_Hex :: "string \<Rightarrow> string"
  SafeMul :: "int \<Rightarrow> int \<Rightarrow> int option"

definition of_bank :: "bank_error + 'b \<Rightarrow> insurance_error + 'b" where
  "of_bank r = (case r of Inl _ \<Rightarrow> Inl ErrInsuranceBank | Inr b \<Rightarrow> Inr b)"

text \<open>The constructor of a coin panics on a negative amount and on an invalid denom.\<close>

definition NewCoin :: "('b, 'z) chain_env_scheme \<Rightarrow> denom \<Rightarrow> int \<Rightarrow> insurance_error + Coin" where
  "NewCoin E d n = ebind (echeck (ValidateDenom E d \<and> 0 \<le> n) PanicInsurance) (\<lambda>_. Inr \<lparr>coin_Denom = d, coin_Amount = n\<rparr>)"

section \<open>Market ids\<close>

definition NewPeggyDenomFromString :: "'b insurance_env \<Rightarrow> denom \<Rightarrow> denom option" where
  "NewPeggyDenomFromString E denom =
     (let fullPrefix = ''peggy''; addressHex = drop (length fullPrefix) denom
      in if take (length fullPrefix) denom \<noteq> fullPrefix then None
         else if addressHex = '''' \<or> \<not> IsHexAddress E addressHex then None
         else Some (fullPrefix @ HexToAddress_Hex E addressHex))"

definition peggyQuoteDenom :: "'b insurance_env \<Rightarrow> denom \<Rightarrow> denom" where
  "peggyQuoteDenom E quoteDenom = (case NewPeggyDenomFromString E quoteDenom of None \<Rightarrow> quoteDenom | Some d \<Rightarrow> d)"

definition Itoa :: "int \<Rightarrow> string" where
  "Itoa n = (if n < 0 then ''-'' @ dec_digits (nat (- n)) else dec_digits (nat n))"

definition NewPerpetualMarketID :: "'b insurance_env \<Rightarrow> string \<Rightarrow> denom \<Rightarrow> string \<Rightarrow> string \<Rightarrow> OracleType \<Rightarrow> market_hash" where
  "NewPerpetualMarketID E ticker quoteDenom oracleBase oracleQuote oracleType =
     Keccak256Hash E (''-PERPETUAL-MARKET-'' @ OracleType_String oracleType @ ticker @ peggyQuoteDenom E quoteDenom @ oracleBase @ oracleQuote)"

definition NewExpiryFuturesMarketID :: "'b insurance_env \<Rightarrow> string \<Rightarrow> denom \<Rightarrow> string \<Rightarrow> string \<Rightarrow> OracleType \<Rightarrow> int \<Rightarrow> market_hash" where
  "NewExpiryFuturesMarketID E ticker quoteDenom oracleBase oracleQuote oracleType expiry =
     Keccak256Hash E (''-EXPIRY-FUTURES-MARKET-'' @ OracleType_String oracleType @ ticker @ peggyQuoteDenom E quoteDenom @ oracleBase
       @ oracleQuote @ Itoa expiry)"

definition NewBinaryOptionsMarketID :: "'b insurance_env \<Rightarrow> string \<Rightarrow> denom \<Rightarrow> string \<Rightarrow> string \<Rightarrow> OracleType \<Rightarrow> market_hash" where
  "NewBinaryOptionsMarketID E ticker quoteDenom oracleSymbol oracleProvider oracleType =
     Keccak256Hash E (''-BINARY-OPTIONS-MARKET-'' @ OracleType_String oracleType @ ticker @ peggyQuoteDenom E quoteDenom @ oracleSymbol
       @ oracleProvider)"

definition NewDerivativesMarketID :: "'b insurance_env \<Rightarrow> string \<Rightarrow> denom \<Rightarrow> string \<Rightarrow> string \<Rightarrow> OracleType \<Rightarrow> int \<Rightarrow> market_hash" where
  "NewDerivativesMarketID E ticker quoteDenom oracleBase oracleQuote oracleType expiry =
     (if expiry = - 1 then NewPerpetualMarketID E ticker quoteDenom oracleBase oracleQuote oracleType
      else NewExpiryFuturesMarketID E ticker quoteDenom oracleBase oracleQuote oracleType expiry)"

section \<open>Funds and shares\<close>

definition InsuranceFundInitialSupply :: int where "InsuranceFundInitialSupply = 10 ^ 18"

definition InsuranceFundProtocolOwnedLiquiditySupply :: int where "InsuranceFundProtocolOwnedLiquiditySupply = 10 ^ 16"

definition InsuranceFundCreatorSupply :: int where
  "InsuranceFundCreatorSupply = InsuranceFundInitialSupply - InsuranceFundProtocolOwnedLiquiditySupply"

definition NewInsuranceFund ::
  "'b insurance_env \<Rightarrow> market_hash \<Rightarrow> denom \<Rightarrow> denom \<Rightarrow> int \<Rightarrow> string \<Rightarrow> string \<Rightarrow> string \<Rightarrow> OracleType \<Rightarrow> int \<Rightarrow> InsuranceFund" where
  "NewInsuranceFund E marketID depositDenom poolTokenDenom redemptionNoticePeriodDuration ticker oracleBase oracleQuote oracleType expiry =
     \<lparr>DepositDenom = depositDenom, InsurancePoolTokenDenom = poolTokenDenom,
      RedemptionNoticePeriodDuration = redemptionNoticePeriodDuration, fund_Balance = 0, TotalShare = 0, fund_MarketId = Hex E marketID,
      MarketTicker = ticker, fund_OracleBase = oracleBase, fund_OracleQuote = oracleQuote, fund_OracleType = oracleType,
      fund_Expiry = expiry\<rparr>"

definition ShareDenom :: "InsuranceFund \<Rightarrow> denom" where
  "ShareDenom fund = InsurancePoolTokenDenom fund"

definition AddTotalShare :: "InsuranceFund \<Rightarrow> int \<Rightarrow> InsuranceFund" where
  "AddTotalShare fund shares = fund\<lparr>TotalShare := TotalShare fund + shares\<rparr>"

definition SubTotalShare :: "InsuranceFund \<Rightarrow> int \<Rightarrow> InsuranceFund" where
  "SubTotalShare fund shares = fund\<lparr>TotalShare := TotalShare fund - shares\<rparr>"

definition ShareDenomFromId :: "64 word \<Rightarrow> denom" where
  "ShareDenomFromId i = ''share'' @ dec_digits (unat i)"

definition ExportNextShareDenomId :: "'b insurance_state \<Rightarrow> 64 word" where
  "ExportNextShareDenomId s = (case share_denom_id s of None \<Rightarrow> 1 | Some i \<Rightarrow> i)"

definition SetNextShareDenomId :: "'b insurance_state \<Rightarrow> 64 word \<Rightarrow> 'b insurance_state" where
  "SetNextShareDenomId s i = s\<lparr>share_denom_id := Some i\<rparr>"

definition getNextShareDenomId :: "'b insurance_state \<Rightarrow> 64 word \<times> 'b insurance_state" where
  "getNextShareDenomId s = (let i = ExportNextShareDenomId s in (i, SetNextShareDenomId s (i + 1)))"

definition MintShareTokens :: "'b insurance_env \<Rightarrow> 'b \<Rightarrow> InsuranceFund \<Rightarrow> address \<Rightarrow> int \<Rightarrow> insurance_error + 'b \<times> InsuranceFund" where
  "MintShareTokens E b fund addr shares =
     ebind (NewCoin E (ShareDenom fund) shares) (\<lambda>_.
     ebind (of_bank (MintCoins E b insurance_module (ShareDenom fund) shares)) (\<lambda>b.
     ebind (of_bank (SendCoinsFromModuleToAccount (mod_bank E) b insurance_module addr (ShareDenom fund) shares)) (\<lambda>b.
       Inr (b, AddTotalShare fund shares))))"

definition BurnShareTokens :: "'b insurance_env \<Rightarrow> 'b \<Rightarrow> InsuranceFund \<Rightarrow> int \<Rightarrow> insurance_error + 'b \<times> InsuranceFund" where
  "BurnShareTokens E b fund shares =
     ebind (NewCoin E (ShareDenom fund) shares) (\<lambda>_.
     ebind (of_bank (BurnCoins E b insurance_module (ShareDenom fund) shares)) (\<lambda>b. Inr (b, SubTotalShare fund shares)))"

definition HasInsuranceFund :: "'b insurance_state \<Rightarrow> market_hash \<Rightarrow> bool" where
  "HasInsuranceFund s marketID \<longleftrightarrow> map_of (insurance_funds s) marketID \<noteq> None"

definition GetInsuranceFund :: "'b insurance_state \<Rightarrow> market_hash \<Rightarrow> InsuranceFund option" where
  "GetInsuranceFund s marketID = map_of (insurance_funds s) marketID"

definition SetInsuranceFund :: "'b insurance_env \<Rightarrow> 'b insurance_state \<Rightarrow> InsuranceFund \<Rightarrow> 'b insurance_state" where
  "SetInsuranceFund E s fund = s\<lparr>insurance_funds := AList.update (HexToHash E (fund_MarketId fund)) fund (insurance_funds s)\<rparr>"

definition DepositIntoInsuranceFund ::
  "'b insurance_env \<Rightarrow> 'b insurance_state \<Rightarrow> market_hash \<Rightarrow> int \<Rightarrow> insurance_error + 'b insurance_state" where
  "DepositIntoInsuranceFund E s marketID amount =
     ebind (of_opt ErrInsuranceFundNotFound (GetInsuranceFund s marketID)) (\<lambda>fund.
       Inr (SetInsuranceFund E s (fund\<lparr>fund_Balance := fund_Balance fund + amount\<rparr>)))"

definition WithdrawFromInsuranceFund ::
  "'b insurance_env \<Rightarrow> 'b insurance_state \<Rightarrow> market_hash \<Rightarrow> int \<Rightarrow> insurance_error + 'b insurance_state" where
  "WithdrawFromInsuranceFund E s marketID amount =
     ebind (of_opt ErrInsuranceFundNotFound (GetInsuranceFund s marketID)) (\<lambda>fund.
     ebind (echeck (\<not> amount > fund_Balance fund) ErrPayoutTooLarge) (\<lambda>_.
     ebind (NewCoin E (DepositDenom fund) amount) (\<lambda>_.
     ebind (of_bank (SendCoinsFromModuleToModule E (ins_bank s) insurance_module exchange_module (DepositDenom fund) amount)) (\<lambda>b.
       Inr (SetInsuranceFund E (s\<lparr>ins_bank := b\<rparr>) (fund\<lparr>fund_Balance := fund_Balance fund - amount\<rparr>))))))"

definition UpdateInsuranceFundOracleParams ::
  "'b insurance_env \<Rightarrow> 'b insurance_state \<Rightarrow> market_hash \<Rightarrow> OracleType \<Rightarrow> string \<Rightarrow> string \<Rightarrow> insurance_error + 'b insurance_state" where
  "UpdateInsuranceFundOracleParams E s marketID oracleType oracleBase oracleQuote =
     ebind (of_opt ErrInsuranceFundNotFound (GetInsuranceFund s marketID)) (\<lambda>fund.
       Inr (SetInsuranceFund E s (fund\<lparr>fund_OracleType := oracleType, fund_OracleBase := oracleBase, fund_OracleQuote := oracleQuote\<rparr>)))"

definition shareMetadata :: "'b insurance_env \<Rightarrow> market_hash \<Rightarrow> denom \<Rightarrow> string \<Rightarrow> Metadata" where
  "shareMetadata E marketID shareBaseDenom ticker =
     (let shareDisplayDenom = ''INSURANCE-'' @ Hex E marketID
      in \<lparr>Description = ''The share token of the insurance fund '' @ Hex E marketID, DenomUnits = [(shareBaseDenom, 0), (shareDisplayDenom, 6)],
          Base = shareBaseDenom, Display = shareDisplayDenom, meta_Name = ticker @ '' share token'', meta_Symbol = ''INSURANCE-'' @ ticker\<rparr>)"

definition CreateInsuranceFund ::
  "'b insurance_env \<Rightarrow> 'b insurance_state \<Rightarrow> address \<Rightarrow> Coin \<Rightarrow> string \<Rightarrow> denom \<Rightarrow> string \<Rightarrow> string \<Rightarrow> OracleType \<Rightarrow> int
     \<Rightarrow> insurance_error + 'b insurance_state" where
  "CreateInsuranceFund E s sender deposit ticker quoteDenom oracleBase oracleQuote oracleType expiry =
     (let isBinaryOptions = (expiry = - 2);
          marketID = (if isBinaryOptions then NewBinaryOptionsMarketID E ticker quoteDenom oracleBase oracleQuote oracleType
                      else NewDerivativesMarketID E ticker quoteDenom oracleBase oracleQuote oracleType expiry)
      in ebind (echeck (GetInsuranceFund s marketID = None) ErrInsuranceFundAlreadyExists) (\<lambda>_.
         let (i, s) = getNextShareDenomId s;
             shareBaseDenom = ShareDenomFromId i;
             period = (if isBinaryOptions then 60 * 10 ^ 9 else notice_period s);
             fund = NewInsuranceFund E marketID (coin_Denom deposit) shareBaseDenom period ticker oracleBase oracleQuote oracleType expiry
         in ebind (echeck (coin_Amount deposit \<noteq> 0) ErrInvalidDepositAmount) (\<lambda>_.
            ebind (of_bank (SendCoinsFromAccountToModule (mod_bank E) (ins_bank s) sender insurance_module (coin_Denom deposit) (coin_Amount deposit)))
              (\<lambda>b.
            let fund = fund\<lparr>fund_Balance := fund_Balance fund + coin_Amount deposit\<rparr>
            in ebind (NewCoin E (ShareDenom fund) InsuranceFundProtocolOwnedLiquiditySupply) (\<lambda>_.
               ebind (of_bank (MintCoins E b insurance_module (ShareDenom fund) InsuranceFundProtocolOwnedLiquiditySupply)) (\<lambda>b.
               ebind (MintShareTokens E b (AddTotalShare fund InsuranceFundProtocolOwnedLiquiditySupply) sender InsuranceFundCreatorSupply)
                 (\<lambda>(b, fund).
                 Inr (SetInsuranceFund E (s\<lparr>ins_bank := SetDenomMetaData E b (shareMetadata E marketID shareBaseDenom ticker)\<rparr>) fund))))))))"

definition refreshInsuranceFund ::
  "'b insurance_env \<Rightarrow> 'b insurance_state \<Rightarrow> market_hash \<Rightarrow> InsuranceFund \<Rightarrow> insurance_error + 'b insurance_state \<times> InsuranceFund" where
  "refreshInsuranceFund E s marketID fund =
     (let (nextShareDenomID, s) = getNextShareDenomId s;
          fund = fund\<lparr>InsurancePoolTokenDenom := ShareDenomFromId nextShareDenomID, TotalShare := InsuranceFundProtocolOwnedLiquiditySupply\<rparr>
      in ebind (NewCoin E (ShareDenom fund) InsuranceFundProtocolOwnedLiquiditySupply) (\<lambda>_.
         ebind (of_bank (MintCoins E (ins_bank s) insurance_module (ShareDenom fund) InsuranceFundProtocolOwnedLiquiditySupply)) (\<lambda>b.
           Inr (s\<lparr>ins_bank := SetDenomMetaData E b (shareMetadata E marketID (InsurancePoolTokenDenom fund) (MarketTicker fund))\<rparr>, fund))))"

definition UnderwriteInsuranceFund ::
  "'b insurance_env \<Rightarrow> 'b insurance_state \<Rightarrow> address \<Rightarrow> market_hash \<Rightarrow> Coin \<Rightarrow> insurance_error + 'b insurance_state" where
  "UnderwriteInsuranceFund E s underwriter marketID deposit =
     ebind (of_opt ErrInsuranceFundNotFound (GetInsuranceFund s marketID)) (\<lambda>fund.
     ebind (echeck (coin_Denom deposit = DepositDenom fund) ErrInvalidDepositDenom) (\<lambda>_.
     ebind (of_bank (SendCoinsFromAccountToModule (mod_bank E) (ins_bank s) underwriter insurance_module (coin_Denom deposit) (coin_Amount deposit)))
       (\<lambda>b.
     let s = s\<lparr>ins_bank := b\<rparr>
     in ebind (if fund_Balance fund \<le> 0 then
                 ebind (refreshInsuranceFund E s marketID fund) (\<lambda>(s, fund). Inr (s, fund, InsuranceFundCreatorSupply))
               else
                 ebind (of_opt PanicInsurance (SafeMul E (TotalShare fund) (coin_Amount deposit))) (\<lambda>product.
                   Inr (s, fund, trunc_div product (fund_Balance fund)))) (\<lambda>(s, fund, shareTokenAmount).
        let fund = fund\<lparr>fund_Balance := fund_Balance fund + coin_Amount deposit\<rparr>
        in ebind (MintShareTokens E (ins_bank s) fund underwriter shareTokenAmount) (\<lambda>(b, fund).
             Inr (SetInsuranceFund E (s\<lparr>ins_bank := b\<rparr>) fund))))))"


section \<open>Redemption schedules\<close>

definition redemptionBatchingWindow :: int where "redemptionBatchingWindow = 24 * 60 * 60 * 10 ^ 9"

definition ExportNextRedemptionScheduleId :: "'b insurance_state \<Rightarrow> 64 word" where
  "ExportNextRedemptionScheduleId s = (case redemption_schedule_id s of None \<Rightarrow> 1 | Some i \<Rightarrow> i)"

definition SetNextRedemptionScheduleId :: "'b insurance_state \<Rightarrow> 64 word \<Rightarrow> 'b insurance_state" where
  "SetNextRedemptionScheduleId s i = s\<lparr>redemption_schedule_id := Some i\<rparr>"

definition getNextRedemptionScheduleId :: "'b insurance_state \<Rightarrow> 64 word \<times> 'b insurance_state" where
  "getNextRedemptionScheduleId s = (let i = ExportNextRedemptionScheduleId s in (i, SetNextRedemptionScheduleId s (i + 1)))"

definition getRedemptionSchedule :: "'b insurance_state \<Rightarrow> 64 word \<Rightarrow> int \<Rightarrow> RedemptionSchedule option" where
  "getRedemptionSchedule s redemptionID claimTime = map_of (redemption_schedules s) (claimTime, redemptionID)"

definition GetRedemptionScheduleKey :: "RedemptionSchedule \<Rightarrow> int \<times> 64 word" where
  "GetRedemptionScheduleKey sh = (ClaimableRedemptionTime sh, schedule_Id sh)"

definition GetRedemptionScheduleByAddrKey :: "('b, 'z) chain_env_scheme \<Rightarrow> RedemptionSchedule \<Rightarrow> (address \<times> string \<times> int \<times> 64 word) option" where
  "GetRedemptionScheduleByAddrKey E sh =
     (case AccAddressFromBech32 E (Redeemer sh) of
        None \<Rightarrow> None
      | Some redeemer \<Rightarrow> Some (redeemer, schedule_MarketId sh, ClaimableRedemptionTime sh, schedule_Id sh))"

definition SetRedemptionSchedule :: "'b insurance_env \<Rightarrow> 'b insurance_state \<Rightarrow> RedemptionSchedule \<Rightarrow> insurance_error + 'b insurance_state" where
  "SetRedemptionSchedule E s schedule =
     (let s = s\<lparr>redemption_schedules := AList.update (GetRedemptionScheduleKey schedule) schedule (redemption_schedules s)\<rparr>
      in ebind (of_opt PanicInsurance (GetRedemptionScheduleByAddrKey E schedule)) (\<lambda>addrKey.
           Inr (s\<lparr>schedule_index := List.insert addrKey (schedule_index s)\<rparr>)))"

definition deleteRedemptionSchedule :: "'b insurance_env \<Rightarrow> 'b insurance_state \<Rightarrow> RedemptionSchedule \<Rightarrow> 'b insurance_state" where
  "deleteRedemptionSchedule E s schedule =
     (let s = s\<lparr>redemption_schedules := AList.delete (GetRedemptionScheduleKey schedule) (redemption_schedules s)\<rparr>
      in (case GetRedemptionScheduleByAddrKey E schedule of
            None \<Rightarrow> s
          | Some addrKey \<Rightarrow> s\<lparr>schedule_index := removeAll addrKey (schedule_index s)\<rparr>))"

definition GetAllInsuranceFundRedemptions :: "'b insurance_state \<Rightarrow> RedemptionSchedule list" where
  "GetAllInsuranceFundRedemptions s =
     map (\<lambda>k. the (map_of (redemption_schedules s) k)) (sort (map fst (redemption_schedules s)))"

definition ExportNextFailedRedemptionScheduleId :: "'b insurance_state \<Rightarrow> 64 word" where
  "ExportNextFailedRedemptionScheduleId s = (case failed_schedule_id s of None \<Rightarrow> 1 | Some i \<Rightarrow> i)"

definition SetNextFailedRedemptionScheduleId :: "'b insurance_state \<Rightarrow> 64 word \<Rightarrow> 'b insurance_state" where
  "SetNextFailedRedemptionScheduleId s i = s\<lparr>failed_schedule_id := Some i\<rparr>"

definition getNextFailedRedemptionScheduleId :: "'b insurance_state \<Rightarrow> 64 word \<times> 'b insurance_state" where
  "getNextFailedRedemptionScheduleId s = (let i = ExportNextFailedRedemptionScheduleId s in (i, SetNextFailedRedemptionScheduleId s (i + 1)))"

definition GetFailedRedemptionSchedule :: "'b insurance_state \<Rightarrow> 64 word \<Rightarrow> FailedRedemptionSchedule option" where
  "GetFailedRedemptionSchedule s i = map_of (failed_schedules s) i"

definition SetFailedRedemptionSchedule :: "'b insurance_state \<Rightarrow> FailedRedemptionSchedule \<Rightarrow> 'b insurance_state" where
  "SetFailedRedemptionSchedule s failed = s\<lparr>failed_schedules := AList.update (failed_Id failed) failed (failed_schedules s)\<rparr>"

definition GetAllFailedRedemptionSchedules :: "'b insurance_state \<Rightarrow> FailedRedemptionSchedule list" where
  "GetAllFailedRedemptionSchedules s = map (\<lambda>k. the (map_of (failed_schedules s) k)) (sort (map fst (failed_schedules s)))"

definition GetRedemptionSchedulesByAddrAndMarket :: "'b insurance_state \<Rightarrow> address \<Rightarrow> string \<Rightarrow> RedemptionSchedule list" where
  "GetRedemptionSchedulesByAddrAndMarket s sender marketID =
     List.map_filter (\<lambda>(claimTime, redemptionID). getRedemptionSchedule s redemptionID claimTime)
       (sort (map (\<lambda>k. snd (snd k)) (filter (\<lambda>k. fst k = sender \<and> fst (snd k) = marketID) (schedule_index s))))"

definition findRecentRedemptionSchedule :: "'b insurance_state \<Rightarrow> address \<Rightarrow> string \<Rightarrow> int \<Rightarrow> RedemptionSchedule option" where
  "findRecentRedemptionSchedule s sender marketID newClaimTime =
     find (\<lambda>schedule.
         let timeDiff = newClaimTime - ClaimableRedemptionTime schedule;
             timeDiff = (if timeDiff < 0 then - timeDiff else timeDiff)
         in timeDiff \<le> redemptionBatchingWindow)
       (GetRedemptionSchedulesByAddrAndMarket s sender marketID)"

section \<open>Redemptions\<close>

definition GetMarketBalance :: "exchange_markets \<Rightarrow> market_hash \<Rightarrow> dec" where
  "GetMarketBalance x marketID = (case map_of (market_balances x) marketID of None \<Rightarrow> 0 | Some balance \<Rightarrow> balance)"

definition isDemolishedOrExpiredMarketStatus :: "MarketStatus \<Rightarrow> bool" where
  "isDemolishedOrExpiredMarketStatus status \<longleftrightarrow> status = MarketStatus_Demolished \<or> status = MarketStatus_Expired"

definition isMarketDemolishedOrExpired :: "exchange_markets \<Rightarrow> market_hash \<Rightarrow> bool" where
  "isMarketDemolishedOrExpired x marketID =
     (case map_of (derivative_statuses x) marketID of
        Some status \<Rightarrow> isDemolishedOrExpiredMarketStatus status
      | None \<Rightarrow>
          (case map_of (binary_statuses x) marketID of
             Some status \<Rightarrow> isDemolishedOrExpiredMarketStatus status
           | None \<Rightarrow>
               (case map_of (spot_statuses x) marketID of
                  Some status \<Rightarrow> isDemolishedOrExpiredMarketStatus status
                | None \<Rightarrow> False)))"

definition getRedemptionAmountFromShare ::
  "'b insurance_env \<Rightarrow> exchange_markets \<Rightarrow> market_hash \<Rightarrow> InsuranceFund \<Rightarrow> int \<Rightarrow> insurance_error + Coin" where
  "getRedemptionAmountFromShare E x marketID fund shareAmount =
     (let marketBalance = GetMarketBalance x marketID;
          fundBalance = LegacyNewDec (fund_Balance fund);
          fundBalance = (if marketBalance < 0 then fundBalance + marketBalance else fundBalance)
      in if fundBalance < 0 then NewCoin E (DepositDenom fund) 0
         else if TotalShare fund = 0 then NewCoin E (DepositDenom fund) 0
         else (case SafeMul E shareAmount (dec_truncate (env_dec (env_exchange E)) fundBalance) of
                 None \<Rightarrow> NewCoin E (DepositDenom fund) 0
               | Some product \<Rightarrow> NewCoin E (DepositDenom fund) (trunc_div product (TotalShare fund))))"

definition GetEstimatedRedemptions :: "'b insurance_env \<Rightarrow> 'b insurance_state \<Rightarrow> address \<Rightarrow> market_hash \<Rightarrow> insurance_error + Coin list" where
  "GetEstimatedRedemptions E s sender marketID =
     (case GetInsuranceFund s marketID of
        None \<Rightarrow> Inr []
      | Some fund \<Rightarrow>
          ebind (getRedemptionAmountFromShare E (markets s) marketID fund (GetBalance (mod_bank E) (ins_bank s) sender (ShareDenom fund)))
            (\<lambda>redemptionCoin. Inr [redemptionCoin]))"

definition payRedemption :: "'b insurance_env \<Rightarrow> 'b insurance_state \<Rightarrow> address \<Rightarrow> Coin \<Rightarrow> insurance_error + 'b insurance_state" where
  "payRedemption E s redeemer redeemCoin =
     (if 0 < coin_Amount redeemCoin then
        (case SendCoinsFromModuleToAccount (mod_bank E) (ins_bank s) insurance_module redeemer (coin_Denom redeemCoin) (coin_Amount redeemCoin) of
           Inr b \<Rightarrow> Inr (s\<lparr>ins_bank := b\<rparr>)
         | Inl _ \<Rightarrow>
             (case AddVoucher (ValidateDenom E) (insurance_vouchers s) redeemer (coin_Denom redeemCoin) (coin_Amount redeemCoin) of
                Inl vErr \<Rightarrow> Inl (ErrInsuranceVoucher vErr)
              | Inr vs \<Rightarrow> Inr (s\<lparr>insurance_vouchers := vs\<rparr>)))
      else Inr s)"

definition settleRedemption ::
  "'b insurance_env \<Rightarrow> 'b insurance_state \<Rightarrow> InsuranceFund \<Rightarrow> market_hash \<Rightarrow> address \<Rightarrow> RedemptionSchedule \<Rightarrow> insurance_error + 'b insurance_state" where
  "settleRedemption E s fund marketID redeemer schedule =
     (if ShareDenom fund \<noteq> coin_Denom (RedemptionAmount schedule) then
        ebind (of_bank (BurnCoins E (ins_bank s) insurance_module (coin_Denom (RedemptionAmount schedule)) (coin_Amount (RedemptionAmount schedule))))
          (\<lambda>b. Inr (s\<lparr>ins_bank := b\<rparr>))
      else
        let shareAmount = coin_Amount (RedemptionAmount schedule)
        in ebind (getRedemptionAmountFromShare E (markets s) marketID fund shareAmount) (\<lambda>redeemCoin.
           ebind (payRedemption E s redeemer redeemCoin) (\<lambda>s.
           ebind (BurnShareTokens E (ins_bank s) fund shareAmount) (\<lambda>(b, fund).
             Inr (SetInsuranceFund E (s\<lparr>ins_bank := b\<rparr>) (fund\<lparr>fund_Balance := fund_Balance fund - coin_Amount redeemCoin\<rparr>))))))"

text \<open>A failed settlement leaves no trace but the record of its failure; a panic is not caught.\<close>

definition processRedemption :: "'b insurance_env \<Rightarrow> 'b insurance_state \<Rightarrow> RedemptionSchedule \<Rightarrow> insurance_error + 'b insurance_state" where
  "processRedemption E s schedule =
     (let marketID = HexToHash E (schedule_MarketId schedule)
      in ebind (of_opt ErrInsuranceFundNotFound (GetInsuranceFund s marketID)) (\<lambda>fund.
         ebind (of_opt ErrInsuranceAddress (AccAddressFromBech32 E (Redeemer schedule))) (\<lambda>redeemer.
         let s = deleteRedemptionSchedule E s schedule
         in (case settleRedemption E s fund marketID redeemer schedule of
               Inr s' \<Rightarrow> Inr s'
             | Inl e \<Rightarrow>
                 if e = PanicInsurance then Inl e
                 else let (i, s) = getNextFailedRedemptionScheduleId s
                      in Inr (SetFailedRedemptionSchedule s \<lparr>failed_Id = i, failed_Schedule = schedule, failed_Err = e\<rparr>)))))"

text \<open>The id and the amount of the schedule of a request, merged with a recent one of the same shares.\<close>

definition pickSchedule :: "'b insurance_env \<Rightarrow> 'b insurance_state \<Rightarrow> address \<Rightarrow> string \<Rightarrow> int \<Rightarrow> Coin \<Rightarrow> 'b insurance_state \<times> 64 word \<times> Coin" where
  "pickSchedule E s sender marketID claimTime shares =
     (case findRecentRedemptionSchedule s sender marketID claimTime of
        Some existing \<Rightarrow>
          if coin_Denom (RedemptionAmount existing) = coin_Denom shares then
            (deleteRedemptionSchedule E s existing, schedule_Id existing,
             (RedemptionAmount existing)\<lparr>coin_Amount := coin_Amount (RedemptionAmount existing) + coin_Amount shares\<rparr>)
          else (let (i, s) = getNextRedemptionScheduleId s in (s, i, shares))
      | None \<Rightarrow> (let (i, s) = getNextRedemptionScheduleId s in (s, i, shares)))"

definition RequestInsuranceFundRedemption ::
  "'b insurance_env \<Rightarrow> int \<Rightarrow> 'b insurance_state \<Rightarrow> address \<Rightarrow> market_hash \<Rightarrow> Coin \<Rightarrow> insurance_error + 'b insurance_state" where
  "RequestInsuranceFundRedemption E now s sender marketID shares =
     ebind (of_opt ErrInsuranceFundNotFound (GetInsuranceFund s marketID)) (\<lambda>fund.
     ebind (echeck (coin_Denom shares = ShareDenom fund) ErrInvalidShareDenom) (\<lambda>_.
     ebind (of_bank (SendCoinsFromAccountToModule (mod_bank E) (ins_bank s) sender insurance_module (coin_Denom shares) (coin_Amount shares))) (\<lambda>b.
     let s = s\<lparr>ins_bank := b\<rparr>;
         claimTime = now + RedemptionNoticePeriodDuration fund;
         (s, i, amount) = pickSchedule E s sender (Hex E marketID) claimTime shares;
         schedule = \<lparr>schedule_Id = i, schedule_MarketId = Hex E marketID, Redeemer = AccAddress_String E sender,
                     ClaimableRedemptionTime = claimTime, RedemptionAmount = amount\<rparr>
     in ebind (SetRedemptionSchedule E s schedule) (\<lambda>s.
          if isMarketDemolishedOrExpired (markets s) marketID then processRedemption E s schedule else Inr s))))"

text \<open>An error of one redemption is logged and the next one is processed.\<close>

definition WithdrawAllMaturedRedemptions :: "'b insurance_env \<Rightarrow> int \<Rightarrow> 'b insurance_state \<Rightarrow> insurance_error + 'b insurance_state" where
  "WithdrawAllMaturedRedemptions E now s =
     (let maturedSchedules = filter (\<lambda>schedule.
            isMarketDemolishedOrExpired (markets s) (HexToHash E (schedule_MarketId schedule)) \<or> ClaimableRedemptionTime schedule < now)
            (GetAllInsuranceFundRedemptions s)
      in efold (\<lambda>s schedule.
           case processRedemption E s schedule of
             Inr s' \<Rightarrow> Inr s'
           | Inl e \<Rightarrow> if e = PanicInsurance then Inl e else Inr s) s maturedSchedules)"

definition insurance_EndBlocker :: "'b insurance_env \<Rightarrow> int \<Rightarrow> 'b insurance_state \<Rightarrow> insurance_error + 'b insurance_state" where
  "insurance_EndBlocker E now s = WithdrawAllMaturedRedemptions E now s"


section \<open>The exchange and the funds\<close>

definition DeleteMarketBalance :: "exchange_markets \<Rightarrow> market_hash \<Rightarrow> exchange_markets" where
  "DeleteMarketBalance x marketID = x\<lparr>market_balances := AList.delete marketID (market_balances x)\<rparr>"

definition SetMarketBalance :: "exchange_markets \<Rightarrow> market_hash \<Rightarrow> dec \<Rightarrow> exchange_markets" where
  "SetMarketBalance x marketID balance =
     (if balance = 0 then DeleteMarketBalance x marketID
      else x\<lparr>market_balances := AList.update marketID balance (market_balances x)\<rparr>)"

definition IncrementMarketBalance :: "exchange_markets \<Rightarrow> market_hash \<Rightarrow> dec \<Rightarrow> exchange_markets" where
  "IncrementMarketBalance x marketID amount = SetMarketBalance x marketID (GetMarketBalance x marketID + amount)"

definition DecrementMarketBalance :: "exchange_markets \<Rightarrow> market_hash \<Rightarrow> dec \<Rightarrow> exchange_markets" where
  "DecrementMarketBalance x marketID amount = SetMarketBalance x marketID (GetMarketBalance x marketID - amount)"

definition ApplyMarketBalanceDelta :: "exchange_markets \<Rightarrow> market_hash \<Rightarrow> dec \<Rightarrow> exchange_markets" where
  "ApplyMarketBalanceDelta x marketID delta = SetMarketBalance x marketID (GetMarketBalance x marketID + delta)"

definition GetInsuranceFundBalance :: "'b insurance_state \<Rightarrow> market_hash \<Rightarrow> int" where
  "GetInsuranceFundBalance s marketID = (case GetInsuranceFund s marketID of None \<Rightarrow> 0 | Some fund \<Rightarrow> fund_Balance fund)"

definition GetAvailableMarketFunds :: "'b insurance_state \<Rightarrow> market_hash \<Rightarrow> dec" where
  "GetAvailableMarketFunds s marketID =
     (let insuranceFundBalance = (case GetInsuranceFund s marketID of None \<Rightarrow> 0 | Some fund \<Rightarrow> LegacyNewDec (fund_Balance fund))
      in GetMarketBalance (markets s) marketID + insuranceFundBalance)"

text \<open>A failed payment leaves the whole deficit; its amount is not repeated with the error. The rounding of a whole number is the number.\<close>

definition PayDeficitFromInsuranceFund ::
  "'b insurance_env \<Rightarrow> 'b insurance_state \<Rightarrow> market_hash \<Rightarrow> dec \<Rightarrow> insurance_error + dec \<times> 'b insurance_state" where
  "PayDeficitFromInsuranceFund E s marketID absoluteDeficitAmount =
     (if absoluteDeficitAmount = 0 then Inr (0, s)
      else ebind (of_opt ErrInsuranceFundNotFound (GetInsuranceFund s marketID)) (\<lambda>insuranceFund.
        let withdrawalAmount = dec_truncate (env_dec (env_exchange E)) (dec_ceil (env_dec (env_exchange E)) absoluteDeficitAmount);
            withdrawalAmount = (if fund_Balance insuranceFund < withdrawalAmount then fund_Balance insuranceFund else withdrawalAmount)
        in ebind (WithdrawFromInsuranceFund E s marketID withdrawalAmount) (\<lambda>s.
             Inr (absoluteDeficitAmount - LegacyNewDec withdrawalAmount,
                  s\<lparr>markets := IncrementMarketBalance (markets s) marketID (LegacyNewDec withdrawalAmount)\<rparr>))))"

text \<open>The negative balance of a fund panics in the withdrawal.\<close>

definition TransferFullInsuranceFundBalance :: "'b insurance_env \<Rightarrow> 'b insurance_state \<Rightarrow> market_hash \<Rightarrow> insurance_error + 'b insurance_state" where
  "TransferFullInsuranceFundBalance E s marketID =
     (case GetInsuranceFund s marketID of
        None \<Rightarrow> Inr s
      | Some insuranceFund \<Rightarrow>
          let withdrawalAmount = fund_Balance insuranceFund
          in (case WithdrawFromInsuranceFund E s marketID withdrawalAmount of
                Inl e \<Rightarrow> if e = PanicInsurance then Inl e else Inr s
              | Inr s \<Rightarrow> Inr (s\<lparr>markets := ApplyMarketBalanceDelta (markets s) marketID (LegacyNewDec withdrawalAmount)\<rparr>)))"

definition MoveCoinsIntoInsuranceFund ::
  "'b insurance_env \<Rightarrow> 'b insurance_state \<Rightarrow> market_hash \<Rightarrow> denom \<Rightarrow> int \<Rightarrow> insurance_error + 'b insurance_state" where
  "MoveCoinsIntoInsuranceFund E s marketID quoteDenom insuranceFundPaymentAmount =
     ebind (echeck (HasInsuranceFund s marketID) ErrInsuranceFundNotFound) (\<lambda>_.
     ebind (NewCoin E quoteDenom insuranceFundPaymentAmount) (\<lambda>_.
     ebind (of_bank (SendCoinsFromModuleToModule E (ins_bank s) exchange_module insurance_module quoteDenom insuranceFundPaymentAmount)) (\<lambda>b.
       DepositIntoInsuranceFund E (s\<lparr>ins_bank := b\<rparr>) marketID insuranceFundPaymentAmount)))"

section \<open>Messages\<close>

definition MaxUnderwritingAmount :: int where "MaxUnderwritingAmount = 10 ^ 27"

record MsgCreateInsuranceFund =
  create_Sender :: string
  create_Ticker :: string
  create_QuoteDenom :: denom
  create_OracleBase :: string
  create_OracleQuote :: string
  create_OracleType :: OracleType
  create_Expiry :: int
  InitialDeposit :: Coin

definition Coin_IsValid :: "('b, 'z) chain_env_scheme \<Rightarrow> Coin \<Rightarrow> bool" where
  "Coin_IsValid E c \<longleftrightarrow> ValidateDenom E (coin_Denom c) \<and> 0 \<le> coin_Amount c"

definition MsgCreateInsuranceFund_ValidateBasic :: "'b insurance_env \<Rightarrow> MsgCreateInsuranceFund \<Rightarrow> insurance_error + unit" where
  "MsgCreateInsuranceFund_ValidateBasic E msg =
     ebind (echeck (create_Sender msg \<noteq> '''') ErrInsuranceAddress) (\<lambda>_.
     ebind (echeck (\<not> (create_Ticker msg = '''' \<or> length (create_Ticker msg) > 40)) ErrInvalidTicker) (\<lambda>_.
     ebind (echeck (create_QuoteDenom msg \<noteq> '''') ErrInvalidQuoteDenom) (\<lambda>_.
     ebind (echeck (create_OracleBase msg \<noteq> '''') ErrInvalidOracle) (\<lambda>_.
     ebind (echeck (create_OracleQuote msg \<noteq> '''') ErrInvalidOracle) (\<lambda>_.
     ebind (echeck (create_OracleType msg \<noteq> OracleType_Unspecified) ErrInvalidOracle) (\<lambda>_.
     ebind (echeck (create_QuoteDenom msg = coin_Denom (InitialDeposit msg)) ErrInvalidDepositDenom) (\<lambda>_.
     ebind (echeck (\<not> (create_OracleType msg = OracleType_Provider \<and> create_Expiry msg \<noteq> - 2 \<and> create_Expiry msg \<noteq> - 1)) ErrInvalidExpirationTime) (\<lambda>_.
     ebind (echeck (Coin_IsValid E (InitialDeposit msg)) ErrInsuranceCoins) (\<lambda>_.
       echeck (\<not> (\<not> 0 < coin_Amount (InitialDeposit msg) \<or> coin_Amount (InitialDeposit msg) > MaxUnderwritingAmount)) ErrInsuranceCoins)))))))))"

definition MsgUnderwrite_ValidateBasic :: "'b insurance_env \<Rightarrow> string \<Rightarrow> string \<Rightarrow> Coin \<Rightarrow> insurance_error + unit" where
  "MsgUnderwrite_ValidateBasic E msg_Sender msg_MarketId msg_Deposit =
     ebind (echeck (msg_Sender \<noteq> '''') ErrInsuranceAddress) (\<lambda>_.
     ebind (echeck (msg_MarketId \<noteq> '''') ErrInvalidFundMarketID) (\<lambda>_.
     ebind (echeck (Coin_IsValid E msg_Deposit) ErrInsuranceCoins) (\<lambda>_.
       echeck (\<not> (\<not> 0 < coin_Amount msg_Deposit \<or> coin_Amount msg_Deposit > MaxUnderwritingAmount)) ErrInsuranceCoins)))"

definition MsgRequestRedemption_ValidateBasic :: "'b insurance_env \<Rightarrow> string \<Rightarrow> string \<Rightarrow> Coin \<Rightarrow> insurance_error + unit" where
  "MsgRequestRedemption_ValidateBasic E msg_Sender msg_MarketId msg_Amount =
     ebind (echeck (msg_Sender \<noteq> '''') ErrInsuranceAddress) (\<lambda>_.
     ebind (echeck (msg_MarketId \<noteq> '''') ErrInvalidFundMarketID) (\<lambda>_.
     ebind (echeck (Coin_IsValid E msg_Amount) ErrInsuranceCoins) (\<lambda>_.
       echeck (0 < coin_Amount msg_Amount) ErrInsuranceCoins)))"

definition validateNoticePeriodDuration :: "int \<Rightarrow> insurance_error + unit" where
  "validateNoticePeriodDuration v = echeck (v \<noteq> 0) ErrNoticePeriod"

definition InsuranceParams_Validate :: "int \<Rightarrow> insurance_error + unit" where
  "InsuranceParams_Validate p = validateNoticePeriodDuration p"

definition insurance_UpdateParams :: "'b insurance_env \<Rightarrow> 'b insurance_state \<Rightarrow> string \<Rightarrow> int \<Rightarrow> insurance_error + 'b insurance_state" where
  "insurance_UpdateParams E s msg_Authority msg_Params =
     ebind (echeck (msg_Authority = env_authority E) ErrInsuranceSigner) (\<lambda>_.
     ebind (InsuranceParams_Validate msg_Params) (\<lambda>_. Inr (s\<lparr>notice_period := msg_Params\<rparr>)))"

definition msg_CreateInsuranceFund ::
  "'b insurance_env \<Rightarrow> int \<Rightarrow> 'b insurance_state \<Rightarrow> MsgCreateInsuranceFund \<Rightarrow> insurance_error + 'b insurance_state" where
  "msg_CreateInsuranceFund E now s msg =
     ebind (of_opt ErrInsuranceAddress (AccAddressFromBech32 E (create_Sender msg))) (\<lambda>sender.
     let isPerpetualOrBinaryOptionsExpirationFlag = (create_Expiry msg = - 1 \<or> create_Expiry msg = - 2)
     in ebind (echeck (\<not> (\<not> isPerpetualOrBinaryOptionsExpirationFlag \<and> create_Expiry msg < now div 10 ^ 9)) ErrInvalidExpirationTime) (\<lambda>_.
          CreateInsuranceFund E s sender (InitialDeposit msg) (create_Ticker msg) (create_QuoteDenom msg) (create_OracleBase msg)
            (create_OracleQuote msg) (create_OracleType msg) (create_Expiry msg)))"

definition msg_Underwrite :: "'b insurance_env \<Rightarrow> 'b insurance_state \<Rightarrow> string \<Rightarrow> string \<Rightarrow> Coin \<Rightarrow> insurance_error + 'b insurance_state" where
  "msg_Underwrite E s msg_Sender msg_MarketId msg_Deposit =
     ebind (of_opt ErrInsuranceAddress (AccAddressFromBech32 E msg_Sender)) (\<lambda>sender.
       UnderwriteInsuranceFund E s sender (HexToHash E msg_MarketId) msg_Deposit)"

definition msg_RequestRedemption ::
  "'b insurance_env \<Rightarrow> int \<Rightarrow> 'b insurance_state \<Rightarrow> string \<Rightarrow> string \<Rightarrow> Coin \<Rightarrow> insurance_error + 'b insurance_state" where
  "msg_RequestRedemption E now s msg_Sender msg_MarketId msg_Amount =
     ebind (of_opt ErrInsuranceAddress (AccAddressFromBech32 E msg_Sender)) (\<lambda>sender.
       RequestInsuranceFundRedemption E now s sender (HexToHash E msg_MarketId) msg_Amount)"

definition insurance_ClaimVoucher :: "'b insurance_env \<Rightarrow> 'b insurance_state \<Rightarrow> string \<Rightarrow> denom \<Rightarrow> insurance_error + 'b insurance_state" where
  "insurance_ClaimVoucher E s msg_Sender denom =
     ebind (of_opt PanicInsurance (AccAddressFromBech32 E msg_Sender)) (\<lambda>senderAddr.
       case ClaimVoucher (ValidateDenom E) (\<lambda>b. SendCoinsFromModuleToAccount (mod_bank E) b insurance_module)
              (ins_bank s) (insurance_vouchers s) senderAddr denom of
         Inl e \<Rightarrow> Inl (ErrInsuranceVoucher e)
       | Inr (b, vs) \<Rightarrow> Inr (s\<lparr>ins_bank := b, insurance_vouchers := vs\<rparr>))"


section \<open>Genesis\<close>

record InsuranceGenesis =
  ig_Params :: int
  ig_InsuranceFunds :: "InsuranceFund list"
  ig_RedemptionSchedule :: "RedemptionSchedule list"
  NextShareDenomId :: "64 word"
  NextRedemptionScheduleId :: "64 word"
  ig_FailedRedemptionSchedules :: "FailedRedemptionSchedule list"
  NextFailedRedemptionScheduleId :: "64 word"
  ig_Vouchers :: "((denom \<times> string) \<times> int) list"

definition InsuranceGenesis_Validate :: "'b insurance_env \<Rightarrow> InsuranceGenesis \<Rightarrow> insurance_error + unit" where
  "InsuranceGenesis_Validate E gs =
     ebind (echeck (NextRedemptionScheduleId gs \<noteq> 0) ErrInsuranceGenesis) (\<lambda>_.
     ebind (echeck (NextShareDenomId gs \<noteq> 0) ErrInsuranceGenesis) (\<lambda>_.
     ebind (echeck (list_all (\<lambda>sh. \<not> schedule_Id sh \<ge> NextRedemptionScheduleId gs) (ig_RedemptionSchedule gs)) ErrInsuranceGenesis) (\<lambda>_.
     let nextFailedID = (if NextFailedRedemptionScheduleId gs = 0 then 1 else NextFailedRedemptionScheduleId gs)
     in ebind (echeck (list_all (\<lambda>f. \<not> failed_Id f \<ge> nextFailedID) (ig_FailedRedemptionSchedules gs)) ErrInsuranceGenesis) (\<lambda>_.
        ebind (InsuranceParams_Validate (ig_Params gs)) (\<lambda>_.
          echeck (list_all (\<lambda>((denom, address), amount). AccAddressFromBech32 E address \<noteq> None \<and> ValidateDenom E denom \<and> 0 \<le> amount)
            (ig_Vouchers gs)) ErrInsuranceGenesis)))))"

definition insurance_InitGenesis :: "'b insurance_env \<Rightarrow> 'b insurance_state \<Rightarrow> InsuranceGenesis \<Rightarrow> insurance_error + 'b insurance_state" where
  "insurance_InitGenesis E s g =
     (let s = foldl (SetInsuranceFund E) (s\<lparr>notice_period := ig_Params g\<rparr>) (ig_InsuranceFunds g)
      in ebind (efold (SetRedemptionSchedule E) s (ig_RedemptionSchedule g)) (\<lambda>s.
         let s = SetNextShareDenomId s (NextShareDenomId g);
             s = SetNextRedemptionScheduleId s (NextRedemptionScheduleId g);
             s = foldl SetFailedRedemptionSchedule s (ig_FailedRedemptionSchedules g);
             s = SetNextFailedRedemptionScheduleId s (if NextFailedRedemptionScheduleId g = 0 then 1 else NextFailedRedemptionScheduleId g)
         in efold (\<lambda>s ((denom, address), amount).
              ebind (of_opt PanicInsurance (AccAddressFromBech32 E address)) (\<lambda>addr.
                Inr (s\<lparr>insurance_vouchers := SetVoucher (insurance_vouchers s) addr denom amount\<rparr>))) s (ig_Vouchers g)))"

definition GetAllInsuranceFunds :: "'b insurance_state \<Rightarrow> InsuranceFund list" where
  "GetAllInsuranceFunds s = map (\<lambda>k. the (map_of (insurance_funds s) k)) (sort (map fst (insurance_funds s)))"

text \<open>An error of the listing of the vouchers becomes a panic.\<close>

definition insurance_ExportGenesis :: "'b insurance_env \<Rightarrow> 'b insurance_state \<Rightarrow> insurance_error + InsuranceGenesis" where
  "insurance_ExportGenesis E s =
     (case GetAllVouchers (ValidateDenom E) (insurance_vouchers s) of Inl _ \<Rightarrow> Inl PanicInsurance | Inr avs \<Rightarrow> Inr
     \<lparr>ig_Params = notice_period s, ig_InsuranceFunds = GetAllInsuranceFunds s, ig_RedemptionSchedule = GetAllInsuranceFundRedemptions s,
      NextShareDenomId = ExportNextShareDenomId s, NextRedemptionScheduleId = ExportNextRedemptionScheduleId s,
      ig_FailedRedemptionSchedules = GetAllFailedRedemptionSchedules s,
      NextFailedRedemptionScheduleId = ExportNextFailedRedemptionScheduleId s,
      ig_Vouchers = map (\<lambda>((denom, addr), amount). ((denom, AccAddress_String E addr), amount)) avs\<rparr>)"


end
