(* ===== verification/Insurance_Laws.thy ===== *)
theory Insurance_Laws
  imports Insurance
begin

text \<open>
  Laws of the insurance module. The results are that the module account always covers the balances of the funds, the
  shares waiting for redemption and the vouchers, and that no underwriting and no redemption lowers what a share
  of a fund is worth.
\<close>

section \<open>The chain\<close>

locale insurance_bank = module_bank E for E :: "'b insurance_env" +
  assumes metadata_moves_nothing: "GetBalance (mod_bank E) (SetDenomMetaData E b m) a d = GetBalance (mod_bank E) b a d"
    and hex_round_trip: "HexToHash E (Hex E h) = h"
    and address_round_trip: "AccAddressFromBech32 E (AccAddress_String E a) = Some a"
    and product: "SafeMul E x y = Some z \<Longrightarrow> z = x * y"

abbreviation insurance_address :: "'b insurance_env \<Rightarrow> address" where
  "insurance_address E \<equiv> GetModuleAddress (mod_bank E) insurance_module"

abbreviation ins_held :: "'b insurance_env \<Rightarrow> 'b insurance_state \<Rightarrow> denom \<Rightarrow> int" where
  "ins_held E s d \<equiv> GetBalance (mod_bank E) (ins_bank s) (insurance_address E) d"

section \<open>What the module owes\<close>

definition fund_part :: "denom \<Rightarrow> market_hash \<Rightarrow> InsuranceFund \<Rightarrow> int" where
  "fund_part d k f = (if DepositDenom f = d then fund_Balance f else 0)"

definition coin_part :: "denom \<Rightarrow> Coin \<Rightarrow> int" where
  "coin_part d c = (if coin_Denom c = d then coin_Amount c else 0)"

definition owed :: "'b insurance_state \<Rightarrow> denom \<Rightarrow> int" where
  "owed s d = store_sum (fund_part d) (insurance_funds s)
     + store_sum (\<lambda>k sh. coin_part d (RedemptionAmount sh)) (redemption_schedules s)
     + store_sum (\<lambda>k f. coin_part d (RedemptionAmount (failed_Schedule f))) (failed_schedules s)
     + vouchers_in (insurance_vouchers s) d"

definition surplus :: "'b insurance_env \<Rightarrow> 'b insurance_state \<Rightarrow> denom \<Rightarrow> int" where
  "surplus E s d = ins_held E s d - owed s d"

definition schedule_ok :: "'b insurance_env \<Rightarrow> RedemptionSchedule \<Rightarrow> bool" where
  "schedule_ok E sh \<longleftrightarrow> 0 \<le> coin_Amount (RedemptionAmount sh) \<and> AccAddressFromBech32 E (Redeemer sh) \<noteq> Some (insurance_address E)"

definition insurance_ok :: "'b insurance_env \<Rightarrow> 'b insurance_state \<Rightarrow> bool" where
  "insurance_ok E s \<longleftrightarrow>
     distinct (map fst (insurance_funds s)) \<and> distinct (map fst (redemption_schedules s)) \<and> distinct (map fst (failed_schedules s))
     \<and> vouchers_valid (insurance_vouchers s)
     \<and> (\<forall>m f. map_of (insurance_funds s) m = Some f \<longrightarrow> HexToHash E (fund_MarketId f) = m)
     \<and> (\<forall>k sh. map_of (redemption_schedules s) k = Some sh \<longrightarrow> GetRedemptionScheduleKey sh = k \<and> schedule_ok E sh)
     \<and> (\<forall>k f. map_of (failed_schedules s) k = Some f \<longrightarrow> 0 \<le> coin_Amount (RedemptionAmount (failed_Schedule f)))"

text \<open>
  \<open>covered E s s'\<close>: from a well formed state the step leads to a well formed one and no denom has a smaller surplus.
\<close>

definition covered :: "'b insurance_env \<Rightarrow> 'b insurance_state \<Rightarrow> 'b insurance_state \<Rightarrow> bool" where
  "covered E s s' \<longleftrightarrow> insurance_ok E s' \<and> (\<forall>d. surplus E s d \<le> surplus E s' d)"

lemma covered_trans: "covered E s t \<Longrightarrow> covered E t u \<Longrightarrow> covered E s u"
  by (auto simp: covered_def intro: order_trans)

lemma owed_simps [simp]:
  "owed (s\<lparr>ins_bank := b\<rparr>) d = owed s d" "owed (s\<lparr>share_denom_id := i\<rparr>) d = owed s d" "owed (s\<lparr>redemption_schedule_id := i\<rparr>) d = owed s d"
  "owed (s\<lparr>failed_schedule_id := i\<rparr>) d = owed s d" "owed (s\<lparr>schedule_index := x\<rparr>) d = owed s d" "owed (s\<lparr>notice_period := p\<rparr>) d = owed s d"
  "owed (s\<lparr>markets := y\<rparr>) d = owed s d"
  by (simp_all add: owed_def)

lemma insurance_ok_simps [simp]:
  "insurance_ok E (s\<lparr>ins_bank := b\<rparr>) = insurance_ok E s" "insurance_ok E (s\<lparr>share_denom_id := i\<rparr>) = insurance_ok E s"
  "insurance_ok E (s\<lparr>redemption_schedule_id := i\<rparr>) = insurance_ok E s" "insurance_ok E (s\<lparr>failed_schedule_id := i\<rparr>) = insurance_ok E s"
  "insurance_ok E (s\<lparr>schedule_index := x\<rparr>) = insurance_ok E s" "insurance_ok E (s\<lparr>notice_period := p\<rparr>) = insurance_ok E s"
  "insurance_ok E (s\<lparr>markets := y\<rparr>) = insurance_ok E s"
  by (simp_all add: insurance_ok_def)

lemma surplus_bank: "surplus E (s\<lparr>ins_bank := b\<rparr>) d = surplus E s d + (GetBalance (mod_bank E) b (insurance_address E) d - ins_held E s d)"
  by (simp add: surplus_def)

lemma coin_part_nonneg: "0 \<le> coin_Amount c \<Longrightarrow> 0 \<le> coin_part d c"
  by (simp add: coin_part_def)

lemma stored_schedule:
  assumes "insurance_ok E s" "map_of (redemption_schedules s) k = Some sh"
  shows "GetRedemptionScheduleKey sh = k" "schedule_ok E sh"
  using assms unfolding insurance_ok_def by blast+

section \<open>Stores\<close>

lemma SetInsuranceFund_surplus:
  assumes "insurance_ok E s" "HexToHash E (fund_MarketId f) = m"
  shows "surplus E (SetInsuranceFund E s f) d = surplus E s d + store_at (fund_part d) (insurance_funds s) m - fund_part d m f"
    and "insurance_ok E (SetInsuranceFund E s f)"
proof -
  have dist: "distinct (map fst (insurance_funds s))" using assms(1) by (simp add: insurance_ok_def)
  show "surplus E (SetInsuranceFund E s f) d = surplus E s d + store_at (fund_part d) (insurance_funds s) m - fund_part d m f"
    using store_sum_update [OF dist] by (simp add: surplus_def SetInsuranceFund_def owed_def assms(2))
  show "insurance_ok E (SetInsuranceFund E s f)"
    using assms by (simp add: insurance_ok_def SetInsuranceFund_def distinct_store update_conv')
qed

lemma update_fund:
  assumes "insurance_ok E s" "GetInsuranceFund s m = Some f" "fund_MarketId f' = fund_MarketId f" "DepositDenom f' = DepositDenom f"
  shows "surplus E (SetInsuranceFund E s f') d = surplus E s d - (if d = DepositDenom f then fund_Balance f' - fund_Balance f else 0)"
    and "insurance_ok E (SetInsuranceFund E s f')"
proof -
  have m: "HexToHash E (fund_MarketId f') = m" using assms by (simp add: insurance_ok_def GetInsuranceFund_def)
  show "surplus E (SetInsuranceFund E s f') d = surplus E s d - (if d = DepositDenom f then fund_Balance f' - fund_Balance f else 0)"
    using SetInsuranceFund_surplus(1) [OF assms(1) m, of d] assms(2,4)
    by (simp add: store_at_def fund_part_def GetInsuranceFund_def)
  show "insurance_ok E (SetInsuranceFund E s f')" by (rule SetInsuranceFund_surplus(2) [OF assms(1) m])
qed

lemma delete_schedule:
  assumes "insurance_ok E s" "map_of (redemption_schedules s) (GetRedemptionScheduleKey sh) = Some sh"
  shows "surplus E (deleteRedemptionSchedule E s sh) d = surplus E s d + coin_part d (RedemptionAmount sh)"
    and "insurance_ok E (deleteRedemptionSchedule E s sh)"
proof -
  let ?t = "s\<lparr>redemption_schedules := AList.delete (GetRedemptionScheduleKey sh) (redemption_schedules s)\<rparr>"
  have dist: "distinct (map fst (redemption_schedules s))" using assms(1) by (simp add: insurance_ok_def)
  have "surplus E ?t d = surplus E s d + coin_part d (RedemptionAmount sh)"
    using store_sum_delete [OF dist] assms(2) by (simp add: surplus_def owed_def store_at_def)
  moreover have "insurance_ok E ?t"
    using assms(1) by (simp add: insurance_ok_def distinct_store delete_conv' restrict_map_def)
  moreover have "surplus E (deleteRedemptionSchedule E s sh) d = surplus E ?t d" "insurance_ok E (deleteRedemptionSchedule E s sh) = insurance_ok E ?t"
    by (simp_all add: deleteRedemptionSchedule_def Let_def surplus_def split: option.split)
  ultimately show "surplus E (deleteRedemptionSchedule E s sh) d = surplus E s d + coin_part d (RedemptionAmount sh)"
    "insurance_ok E (deleteRedemptionSchedule E s sh)" by simp_all
qed

lemma set_schedule:
  assumes "insurance_ok E s" "SetRedemptionSchedule E s sh = Inr s'" "schedule_ok E sh"
  shows "surplus E s d - coin_part d (RedemptionAmount sh) \<le> surplus E s' d"
    and "insurance_ok E s'" "map_of (redemption_schedules s') (GetRedemptionScheduleKey sh) = Some sh"
proof -
  let ?k = "GetRedemptionScheduleKey sh"
  let ?t = "s\<lparr>redemption_schedules := AList.update ?k sh (redemption_schedules s)\<rparr>"
  obtain x where s': "s' = ?t\<lparr>schedule_index := x\<rparr>" using assms(2) by (auto simp: SetRedemptionSchedule_def Let_def)
  have dist: "distinct (map fst (redemption_schedules s))" using assms(1) by (simp add: insurance_ok_def)
  have "0 \<le> store_at (\<lambda>k sh. coin_part d (RedemptionAmount sh)) (redemption_schedules s) ?k"
    using stored_schedule(2) [OF assms(1)]
    by (cases "map_of (redemption_schedules s) ?k") (simp_all add: store_at_def schedule_ok_def coin_part_nonneg)
  then show "surplus E s d - coin_part d (RedemptionAmount sh) \<le> surplus E s' d"
    using store_sum_update [OF dist] by (simp add: s' surplus_def) (simp add: owed_def)
  show "insurance_ok E s'" using assms(1,3) by (simp add: s') (simp add: insurance_ok_def distinct_store update_conv')
  show "map_of (redemption_schedules s') ?k = Some sh" by (simp add: s' update_conv')
qed

lemma set_failed:
  assumes "insurance_ok E s" "0 \<le> coin_Amount (RedemptionAmount (failed_Schedule f))"
  shows "surplus E s d - coin_part d (RedemptionAmount (failed_Schedule f)) \<le> surplus E (SetFailedRedemptionSchedule s f) d"
    and "insurance_ok E (SetFailedRedemptionSchedule s f)"
proof -
  have dist: "distinct (map fst (failed_schedules s))" using assms(1) by (simp add: insurance_ok_def)
  have "0 \<le> store_at (\<lambda>k f. coin_part d (RedemptionAmount (failed_Schedule f))) (failed_schedules s) (failed_Id f)"
    using assms(1) by (auto simp: insurance_ok_def store_at_def intro!: coin_part_nonneg split: option.split)
  then show "surplus E s d - coin_part d (RedemptionAmount (failed_Schedule f)) \<le> surplus E (SetFailedRedemptionSchedule s f) d"
    using store_sum_update [OF dist] by (simp add: surplus_def SetFailedRedemptionSchedule_def) (simp add: owed_def)
  show "insurance_ok E (SetFailedRedemptionSchedule s f)"
    using assms by (simp add: insurance_ok_def SetFailedRedemptionSchedule_def distinct_store update_conv')
qed

section \<open>Operations\<close>

lemma of_bank_Inr [simp]: "of_bank r = Inr b \<longleftrightarrow> r = Inr b"
  by (cases r) (simp_all add: of_bank_def)

lemma NewCoin_Inr [simp]: "NewCoin E d n = Inr c \<longleftrightarrow> ValidateDenom E d \<and> 0 \<le> n \<and> c = \<lparr>coin_Denom = d, coin_Amount = n\<rparr>"
  by (auto simp: NewCoin_def)

context insurance_bank
begin

lemma insurance_receives:
  assumes "SendCoinsFromAccountToModule (mod_bank E) b a insurance_module d n = Inr b'" "a \<noteq> insurance_address E" "0 \<le> n"
  shows "GetBalance (mod_bank E) b' (insurance_address E) d' = GetBalance (mod_bank E) b (insurance_address E) d' + (if d' = d then n else 0)"
  using account_pays [OF assms] by blast

lemma insurance_sends:
  assumes "SendCoinsFromModuleToAccount (mod_bank E) b insurance_module a d n = Inr b'" "a \<noteq> insurance_address E" "0 \<le> n"
  shows "GetBalance (mod_bank E) b' (insurance_address E) d' = GetBalance (mod_bank E) b (insurance_address E) d' - (if d' = d then n else 0)"
  using module_pays [OF assms] by blast

lemma insurance_mints:
  assumes "MintCoins E b insurance_module d n = Inr b'" "0 \<le> n"
  shows "GetBalance (mod_bank E) b' (insurance_address E) d' = GetBalance (mod_bank E) b (insurance_address E) d' + (if d' = d then n else 0)"
  using mints [OF assms] by simp

lemma insurance_burns:
  assumes "BurnCoins E b insurance_module d n = Inr b'" "0 \<le> n"
  shows "GetBalance (mod_bank E) b' (insurance_address E) d' = GetBalance (mod_bank E) b (insurance_address E) d' - (if d' = d then n else 0)"
  using burns [OF assms(2) burn_covered [OF assms]] assms(1) by auto

lemma MintShareTokens_Inr:
  assumes "MintShareTokens E b f a n = Inr (b', f')" "a \<noteq> insurance_address E"
  shows "f' = f\<lparr>TotalShare := TotalShare f + n\<rparr>" "0 \<le> n"
    "GetBalance (mod_bank E) b' (insurance_address E) d = GetBalance (mod_bank E) b (insurance_address E) d"
proof -
  obtain c where h: "0 \<le> n" "MintCoins E b insurance_module (ShareDenom f) n = Inr c"
    "SendCoinsFromModuleToAccount (mod_bank E) c insurance_module a (ShareDenom f) n = Inr b'" and f': "f' = AddTotalShare f n"
    using assms(1) by (auto simp: MintShareTokens_def)
  show "f' = f\<lparr>TotalShare := TotalShare f + n\<rparr>" "0 \<le> n" using f' h(1) by (simp_all add: AddTotalShare_def)
  show "GetBalance (mod_bank E) b' (insurance_address E) d = GetBalance (mod_bank E) b (insurance_address E) d"
    using insurance_mints [OF h(2,1), of d] insurance_sends [OF h(3) assms(2) h(1), of d] by simp
qed

lemma BurnShareTokens_Inr:
  assumes "BurnShareTokens E b f n = Inr (b', f')"
  shows "f' = f\<lparr>TotalShare := TotalShare f - n\<rparr>"
    "GetBalance (mod_bank E) b' (insurance_address E) d = GetBalance (mod_bank E) b (insurance_address E) d - (if d = ShareDenom f then n else 0)"
  using assms insurance_burns by (auto simp: BurnShareTokens_def SubTotalShare_def)

lemma payRedemption_cases:
  assumes "payRedemption E s a c = Inr t"
  obtains "\<not> 0 < coin_Amount c" "t = s"
  | b where "SendCoinsFromModuleToAccount (mod_bank E) (ins_bank s) insurance_module a (coin_Denom c) (coin_Amount c) = Inr b" "t = s\<lparr>ins_bank := b\<rparr>"
  | vs where "AddVoucher (ValidateDenom E) (insurance_vouchers s) a (coin_Denom c) (coin_Amount c) = Inr vs" "t = s\<lparr>insurance_vouchers := vs\<rparr>"
proof (cases "0 < coin_Amount c")
  case False
  show thesis by (rule that(1)) (use False assms in \<open>simp_all add: payRedemption_def\<close>)
next
  case True
  note pay = assms [unfolded payRedemption_def]
  show thesis
  proof (cases "SendCoinsFromModuleToAccount (mod_bank E) (ins_bank s) insurance_module a (coin_Denom c) (coin_Amount c)")
    case (Inr b)
    show thesis by (rule that(2) [OF Inr]) (use True pay Inr in simp)
  next
    case (Inl e)
    show thesis
    proof (cases "AddVoucher (ValidateDenom E) (insurance_vouchers s) a (coin_Denom c) (coin_Amount c)")
      case (Inr vs)
      show thesis by (rule that(3) [OF Inr]) (use True pay Inl Inr in simp)
    qed (use True pay Inl in simp)
  qed
qed

lemma payRedemption_keeps:
  assumes "payRedemption E s a c = Inr t"
  shows "insurance_funds t = insurance_funds s" "redemption_schedules t = redemption_schedules s"
  using assms by (cases rule: payRedemption_cases; simp)+

lemma payRedemption_surplus:
  assumes "payRedemption E s a c = Inr t" "insurance_ok E s" "a \<noteq> insurance_address E" "0 \<le> coin_Amount c"
  shows "surplus E t d = surplus E s d - coin_part d c" "insurance_ok E t"
proof (atomize (full))
  have vs: "vouchers_valid (insurance_vouchers s)" using assms(2) by (simp add: insurance_ok_def)
  from assms(1) show "surplus E t d = surplus E s d - coin_part d c \<and> insurance_ok E t"
  proof (cases rule: payRedemption_cases)
    case 1
    then show ?thesis using assms(2,4) by (simp add: coin_part_def)
  next
    case (2 b)
    then show ?thesis using insurance_sends [OF 2(1) assms(3,4), of d] assms(2) by (simp add: surplus_bank coin_part_def)
  next
    case (3 us)
    note v = AddVoucher_Inr [OF 3(1)]
    have "owed t d = owed s d + coin_part d c"
      using vs by (simp add: 3(2) owed_def v(2) vouchers_in_add vouchers_valid_def coin_part_def)
    moreover have "insurance_ok E t"
      using assms(2) vouchers_valid_add [OF vs assms(4), of "coin_Denom c" a] by (simp add: insurance_ok_def 3(2) v(2))
    ultimately show ?thesis by (simp add: surplus_def 3(2))
  qed
qed

end

lemma redemption_coin:
  assumes "getRedemptionAmountFromShare E x m f n = Inr c"
  shows "coin_Denom c = DepositDenom f" "0 \<le> coin_Amount c"
  using assms by (auto simp: getRedemptionAmountFromShare_def Let_def split: if_splits option.splits)

context insurance_bank
begin

lemma settleRedemption_match:
  assumes "settleRedemption E s f m a sh = Inr s'" "ShareDenom f = coin_Denom (RedemptionAmount sh)"
  obtains c t b where "getRedemptionAmountFromShare E (markets s) m f (coin_Amount (RedemptionAmount sh)) = Inr c"
    "payRedemption E s a c = Inr t"
    "\<forall>d. GetBalance (mod_bank E) b (insurance_address E) d = ins_held E t d - coin_part d (RedemptionAmount sh)"
    "s' = SetInsuranceFund E (t\<lparr>ins_bank := b\<rparr>) (f\<lparr>TotalShare := TotalShare f - coin_Amount (RedemptionAmount sh), fund_Balance := fund_Balance f - coin_Amount c\<rparr>)"
proof -
  let ?n = "coin_Amount (RedemptionAmount sh)"
  obtain c t b f' where h: "getRedemptionAmountFromShare E (markets s) m f ?n = Inr c" "payRedemption E s a c = Inr t"
    "BurnShareTokens E (ins_bank t) f ?n = Inr (b, f')"
    and s': "s' = SetInsuranceFund E (t\<lparr>ins_bank := b\<rparr>) (f'\<lparr>fund_Balance := fund_Balance f' - coin_Amount c\<rparr>)"
    using assms by (auto simp: settleRedemption_def Let_def)
  show thesis
    by (rule that [OF h(1,2)]) (use BurnShareTokens_Inr [OF h(3)] assms(2) in \<open>auto simp: s' coin_part_def\<close>)
qed

lemma settle_redemption:
  assumes "settleRedemption E s f m a sh = Inr s'" "insurance_ok E s" "GetInsuranceFund s m = Some f" "a \<noteq> insurance_address E"
    "0 \<le> coin_Amount (RedemptionAmount sh)"
  shows "surplus E s' d = surplus E s d - coin_part d (RedemptionAmount sh)" "insurance_ok E s'" "redemption_schedules s' = redemption_schedules s"
proof (atomize (full), cases "ShareDenom f = coin_Denom (RedemptionAmount sh)")
  case True
  obtain c t b where st: "getRedemptionAmountFromShare E (markets s) m f (coin_Amount (RedemptionAmount sh)) = Inr c" "payRedemption E s a c = Inr t"
    "\<forall>d. GetBalance (mod_bank E) b (insurance_address E) d = ins_held E t d - coin_part d (RedemptionAmount sh)"
    "s' = SetInsuranceFund E (t\<lparr>ins_bank := b\<rparr>) (f\<lparr>TotalShare := TotalShare f - coin_Amount (RedemptionAmount sh), fund_Balance := fund_Balance f - coin_Amount c\<rparr>)"
    by (rule settleRedemption_match [OF assms(1) True])
  note c = redemption_coin [OF st(1)]
  note p = payRedemption_surplus [OF st(2) assms(2,4) c(2)] and k = payRedemption_keeps [OF st(2)]
  have f: "GetInsuranceFund (t\<lparr>ins_bank := b\<rparr>) m = Some f" using assms(3) k(1) by (simp add: GetInsuranceFund_def)
  have ok: "insurance_ok E (t\<lparr>ins_bank := b\<rparr>)" using p(2) by simp
  let ?f' = "f\<lparr>TotalShare := TotalShare f - coin_Amount (RedemptionAmount sh), fund_Balance := fund_Balance f - coin_Amount c\<rparr>"
  have "fund_MarketId ?f' = fund_MarketId f" "DepositDenom ?f' = DepositDenom f" by simp_all
  note u = update_fund [OF ok f this]
  have "surplus E s' d = surplus E s d - coin_part d (RedemptionAmount sh)"
    using u(1) [of d] p(1) [of d] st(3) by (auto simp: st(4) surplus_bank coin_part_def c(1))
  moreover have "redemption_schedules s' = redemption_schedules s" using k(2) by (simp add: st(4) SetInsuranceFund_def)
  ultimately show "surplus E s' d = surplus E s d - coin_part d (RedemptionAmount sh) \<and> insurance_ok E s' \<and> redemption_schedules s' = redemption_schedules s"
    using u(2) by (simp add: st(4))
next
  case False
  then obtain b where b: "BurnCoins E (ins_bank s) insurance_module (coin_Denom (RedemptionAmount sh)) (coin_Amount (RedemptionAmount sh)) = Inr b"
    "s' = s\<lparr>ins_bank := b\<rparr>"
    using assms(1) by (auto simp: settleRedemption_def)
  show "surplus E s' d = surplus E s d - coin_part d (RedemptionAmount sh) \<and> insurance_ok E s' \<and> redemption_schedules s' = redemption_schedules s"
    using insurance_burns [OF b(1) assms(5), of d] assms(2) by (simp add: b(2) surplus_bank coin_part_def)
qed

lemma processRedemption_cases:
  assumes "processRedemption E s sh = Inr s'"
  obtains f a where "GetInsuranceFund s (HexToHash E (schedule_MarketId sh)) = Some f" "AccAddressFromBech32 E (Redeemer sh) = Some a"
      "settleRedemption E (deleteRedemptionSchedule E s sh) f (HexToHash E (schedule_MarketId sh)) a sh = Inr s'"
  | f a e i where "GetInsuranceFund s (HexToHash E (schedule_MarketId sh)) = Some f" "AccAddressFromBech32 E (Redeemer sh) = Some a"
      "s' = SetFailedRedemptionSchedule ((deleteRedemptionSchedule E s sh)\<lparr>failed_schedule_id := Some (i + 1)\<rparr>)
         \<lparr>failed_Id = i, failed_Schedule = sh, failed_Err = e\<rparr>"
proof -
  let ?m = "HexToHash E (schedule_MarketId sh)" and ?t = "deleteRedemptionSchedule E s sh"
  obtain f a where f: "GetInsuranceFund s ?m = Some f" "AccAddressFromBech32 E (Redeemer sh) = Some a"
    and r: "(case settleRedemption E ?t f ?m a sh of
        Inr s' \<Rightarrow> Inr s'
      | Inl e \<Rightarrow> if e = PanicInsurance then Inl e
          else let (i, s) = getNextFailedRedemptionScheduleId ?t
               in Inr (SetFailedRedemptionSchedule s \<lparr>failed_Id = i, failed_Schedule = sh, failed_Err = e\<rparr>)) = Inr s'"
    using assms by (auto simp: processRedemption_def Let_def)
  show thesis
  proof (cases "settleRedemption E ?t f ?m a sh")
    case (Inr u)
    then show thesis using that(1) [OF f] r by simp
  next
    case (Inl e)
    show thesis
      by (rule that(2) [OF f, where i = "ExportNextFailedRedemptionScheduleId ?t" and e = e])
        (use r Inl in \<open>simp add: getNextFailedRedemptionScheduleId_def SetNextFailedRedemptionScheduleId_def Let_def split: if_splits\<close>)
  qed
qed

lemma deleted_funds: "GetInsuranceFund (deleteRedemptionSchedule E s sh) m = GetInsuranceFund s m"
  by (simp add: GetInsuranceFund_def deleteRedemptionSchedule_def Let_def split: option.split)

lemma process_redemption:
  assumes "processRedemption E s sh = Inr s'" "insurance_ok E s" "map_of (redemption_schedules s) (GetRedemptionScheduleKey sh) = Some sh"
  shows "covered E s s'"
proof -
  have ok: "schedule_ok E sh" by (rule stored_schedule(2) [OF assms(2,3)])
  note del = delete_schedule [OF assms(2,3)]
  from assms(1) show ?thesis
  proof (cases rule: processRedemption_cases)
    case (1 f a)
    have "a \<noteq> insurance_address E" "0 \<le> coin_Amount (RedemptionAmount sh)" using ok 1(2) by (simp_all add: schedule_ok_def)
    then show ?thesis using settle_redemption [OF 1(3) del(2) _ _] 1(1) del(1) by (simp add: covered_def deleted_funds)
  next
    case (2 f a e i)
    let ?u = "(deleteRedemptionSchedule E s sh)\<lparr>failed_schedule_id := Some (i + 1)\<rparr>"
    let ?f = "\<lparr>failed_Id = i, failed_Schedule = sh, failed_Err = e\<rparr>"
    have a: "0 \<le> coin_Amount (RedemptionAmount sh)" using ok by (simp add: schedule_ok_def)
    have u: "insurance_ok E ?u" "surplus E ?u d = surplus E s d + coin_part d (RedemptionAmount sh)" for d
      using del by (simp_all add: surplus_def)
    have "surplus E s d \<le> surplus E s' d" for d
      using set_failed(1) [OF u(1), of ?f d] a u(2) [of d] by (simp add: 2(3))
    then show ?thesis using set_failed(2) [OF u(1), of ?f] a by (simp add: covered_def 2(3))
  qed
qed

lemma process_schedules:
  assumes "processRedemption E s sh = Inr s'" "insurance_ok E s" "map_of (redemption_schedules s) (GetRedemptionScheduleKey sh) = Some sh"
  shows "map_of (redemption_schedules s') k = (if k = GetRedemptionScheduleKey sh then None else map_of (redemption_schedules s) k)"
proof -
  have ok: "schedule_ok E sh" by (rule stored_schedule(2) [OF assms(2,3)])
  let ?t = "deleteRedemptionSchedule E s sh"
  have t: "map_of (redemption_schedules ?t) k = (if k = GetRedemptionScheduleKey sh then None else map_of (redemption_schedules s) k)"
    by (simp add: deleteRedemptionSchedule_def Let_def delete_conv' split: option.split)
  from assms(1) have "redemption_schedules s' = redemption_schedules ?t"
  proof (cases rule: processRedemption_cases)
    case (1 f a)
    then show ?thesis using settle_redemption(3) [OF 1(3) delete_schedule(2) [OF assms(2,3)]] ok by (simp add: deleted_funds schedule_ok_def)
  qed (simp add: SetFailedRedemptionSchedule_def)
  then show ?thesis using t by simp
qed

lemma process_all:
  assumes "efold (\<lambda>s sh. case processRedemption E s sh of Inr s' \<Rightarrow> Inr s' | Inl e \<Rightarrow> if e = PanicInsurance then Inl e else Inr s) s shs = Inr s'"
    "insurance_ok E s" "distinct (map GetRedemptionScheduleKey shs)"
    "\<And>sh. sh \<in> set shs \<Longrightarrow> map_of (redemption_schedules s) (GetRedemptionScheduleKey sh) = Some sh"
  shows "covered E s s'"
  using assms
proof (induction shs arbitrary: s)
  case Nil
  then show ?case by (simp add: covered_def)
next
  case (Cons sh shs)
  show ?case
  proof (cases "processRedemption E s sh")
    case (Inl e)
    then have r: "efold (\<lambda>s sh. case processRedemption E s sh of Inr s' \<Rightarrow> Inr s' | Inl e \<Rightarrow> if e = PanicInsurance then Inl e else Inr s) s shs = Inr s'"
      using Cons.prems(1) by (simp split: if_splits)
    have "distinct (map GetRedemptionScheduleKey shs)" using Cons.prems(3) by simp
    then show ?thesis using Cons.IH [OF r Cons.prems(2)] Cons.prems(4) by (meson list.set_intros(2))
  next
    case (Inr t)
    have c: "covered E s t" using process_redemption [OF Inr Cons.prems(2)] Cons.prems(4) by simp
    have "map_of (redemption_schedules t) (GetRedemptionScheduleKey x) = Some x" if "x \<in> set shs" for x
    proof -
      have "GetRedemptionScheduleKey x \<in> GetRedemptionScheduleKey ` set shs" using that by blast
      then have "GetRedemptionScheduleKey x \<noteq> GetRedemptionScheduleKey sh" using Cons.prems(3) by auto
      then show ?thesis using process_schedules [OF Inr Cons.prems(2)] Cons.prems(4) that by simp
    qed
    note kept = this
    have r: "efold (\<lambda>s sh. case processRedemption E s sh of Inr s' \<Rightarrow> Inr s' | Inl e \<Rightarrow> if e = PanicInsurance then Inl e else Inr s) t shs = Inr s'"
      using Cons.prems(1) Inr by simp
    have "insurance_ok E t" using c by (simp add: covered_def)
    moreover have "distinct (map GetRedemptionScheduleKey shs)" using Cons.prems(3) by simp
    ultimately have "covered E t s'" using Cons.IH [OF r] kept by blast
    then show ?thesis by (rule covered_trans [OF c])
  qed
qed

lemma stored_redemptions:
  assumes "insurance_ok E s"
  shows "distinct (map GetRedemptionScheduleKey (GetAllInsuranceFundRedemptions s))"
    and "sh \<in> set (GetAllInsuranceFundRedemptions s) \<Longrightarrow> map_of (redemption_schedules s) (GetRedemptionScheduleKey sh) = Some sh"
proof -
  let ?m = "redemption_schedules s"
  have stored: "map_of ?m k = Some (the (map_of ?m k))" if "k \<in> set (map fst ?m)" for k
    using that map_of_eq_None_iff [of ?m k] by (cases "map_of ?m k") simp_all
  have key: "GetRedemptionScheduleKey (the (map_of ?m k)) = k" if "k \<in> set (map fst ?m)" for k
    by (rule stored_schedule(1) [OF assms stored [OF that]])
  have "map GetRedemptionScheduleKey (GetAllInsuranceFundRedemptions s) = sort (map fst ?m)"
    unfolding GetAllInsuranceFundRedemptions_def map_map comp_def by (rule map_idI, rule key) simp
  moreover have "distinct (map fst ?m)" using assms by (simp add: insurance_ok_def)
  ultimately show "distinct (map GetRedemptionScheduleKey (GetAllInsuranceFundRedemptions s))"
    by (simp only: distinct_sort)
  show "map_of ?m (GetRedemptionScheduleKey sh) = Some sh" if "sh \<in> set (GetAllInsuranceFundRedemptions s)"
  proof -
    have "sh \<in> (\<lambda>k. the (map_of ?m k)) ` set (map fst ?m)"
      using that by (simp only: GetAllInsuranceFundRedemptions_def set_map set_sort)
    then obtain k where k: "sh = the (map_of ?m k)" "k \<in> set (map fst ?m)" by (rule imageE)
    have sh: "map_of ?m k = Some sh" using stored [OF k(2)] unfolding k(1) [symmetric] .
    have "GetRedemptionScheduleKey sh = k" by (rule stored_schedule(1) [OF assms sh])
    then show ?thesis using sh by (simp only:)
  qed
qed

lemma end_block_covered:
  assumes "insurance_EndBlocker E now s = Inr s'" "insurance_ok E s"
  shows "covered E s s'"
proof -
  let ?shs = "filter (\<lambda>sh. isMarketDemolishedOrExpired (markets s) (HexToHash E (schedule_MarketId sh)) \<or> ClaimableRedemptionTime sh < now)
    (GetAllInsuranceFundRedemptions s)"
  have "distinct (map GetRedemptionScheduleKey ?shs)" using stored_redemptions(1) [OF assms(2)] by (rule distinct_map_filter)
  moreover have "map_of (redemption_schedules s) (GetRedemptionScheduleKey sh) = Some sh" if "sh \<in> set ?shs" for sh
    using that stored_redemptions(2) [OF assms(2)] by simp
  ultimately show ?thesis
    using assms process_all [of s ?shs s'] unfolding insurance_EndBlocker_def WithdrawAllMaturedRedemptions_def Let_def by blast
qed

end


section \<open>Requests\<close>

lemma recent_schedule_stored:
  assumes "insurance_ok E s" "findRecentRedemptionSchedule s sender m claimTime = Some sh"
  shows "map_of (redemption_schedules s) (GetRedemptionScheduleKey sh) = Some sh"
proof -
  have "sh \<in> set (GetRedemptionSchedulesByAddrAndMarket s sender m)"
    using assms(2) by (auto simp: findRecentRedemptionSchedule_def find_Some_iff)
  then obtain k where k: "map_of (redemption_schedules s) k = Some sh"
    by (auto simp: GetRedemptionSchedulesByAddrAndMarket_def getRedemptionSchedule_def List.map_filter_def)
  have "GetRedemptionScheduleKey sh = k" by (rule stored_schedule(1) [OF assms(1) k])
  then show ?thesis using k by simp
qed

lemma pick_surplus:
  assumes "pickSchedule E s sender m claimTime shares = (t, i, c)" "insurance_ok E s" "0 \<le> coin_Amount shares"
  shows "insurance_ok E t" "surplus E t d = surplus E s d + coin_part d c - coin_part d shares" "0 \<le> coin_Amount c" "ins_bank t = ins_bank s"
    "markets t = markets s" "insurance_funds t = insurance_funds s"
proof -
  let ?find = "findRecentRedemptionSchedule s sender m claimTime"
  consider (new) "(t, i, c) = (let (i, s) = getNextRedemptionScheduleId s in (s, i, shares))"
    | (merge) sh where "?find = Some sh" "coin_Denom (RedemptionAmount sh) = coin_Denom shares"
        "t = deleteRedemptionSchedule E s sh" "c = (RedemptionAmount sh)\<lparr>coin_Amount := coin_Amount (RedemptionAmount sh) + coin_Amount shares\<rparr>"
  proof (cases ?find)
    case None
    show thesis by (rule that(1)) (use assms(1) None in \<open>simp add: pickSchedule_def\<close>)
  next
    case (Some sh)
    show thesis
    proof (cases "coin_Denom (RedemptionAmount sh) = coin_Denom shares")
      case True
      show thesis by (rule that(2) [OF Some True]) (use assms(1) Some True in \<open>simp_all add: pickSchedule_def\<close>)
    next
      case False
      show thesis by (rule that(1)) (use assms(1) Some False in \<open>simp add: pickSchedule_def\<close>)
    qed
  qed
  then have "insurance_ok E t \<and> (\<forall>d. surplus E t d = surplus E s d + coin_part d c - coin_part d shares) \<and> 0 \<le> coin_Amount c
    \<and> ins_bank t = ins_bank s \<and> markets t = markets s \<and> insurance_funds t = insurance_funds s"
  proof cases
    case new
    then have "t = s\<lparr>redemption_schedule_id := Some (i + 1)\<rparr>" "c = shares"
      by (simp_all add: getNextRedemptionScheduleId_def SetNextRedemptionScheduleId_def Let_def)
    then show ?thesis using assms(2,3) by (simp add: surplus_def)
  next
    case (merge sh)
    note stored = recent_schedule_stored [OF assms(2) merge(1)]
    note del = delete_schedule [OF assms(2) stored]
    have "0 \<le> coin_Amount (RedemptionAmount sh)" using stored_schedule(2) [OF assms(2) stored] by (simp add: schedule_ok_def)
    moreover have "ins_bank t = ins_bank s" "markets t = markets s" "insurance_funds t = insurance_funds s"
      by (simp_all add: merge(3) deleteRedemptionSchedule_def Let_def split: option.split)
    moreover have "coin_part d c = coin_part d (RedemptionAmount sh) + coin_part d shares" for d using merge(2) by (simp add: merge(4) coin_part_def)
    ultimately show ?thesis using del assms(3) by (simp add: merge(3,4))
  qed
  then show "insurance_ok E t" "surplus E t d = surplus E s d + coin_part d c - coin_part d shares" "0 \<le> coin_Amount c" "ins_bank t = ins_bank s"
    "markets t = markets s" "insurance_funds t = insurance_funds s" by simp_all
qed

context insurance_bank
begin

lemma request_scheduled:
  assumes "RequestInsuranceFundRedemption E now s a m shares = Inr s'" "insurance_ok E s" "a \<noteq> insurance_address E" "0 \<le> coin_Amount shares"
  obtains u sh where "covered E s u" "insurance_ok E u" "insurance_funds u = insurance_funds s"
    "map_of (redemption_schedules u) (GetRedemptionScheduleKey sh) = Some sh" "processRedemption E u sh = Inr s' \<or> s' = u"
proof -
  obtain f b where f: "GetInsuranceFund s m = Some f"
    and b: "SendCoinsFromAccountToModule (mod_bank E) (ins_bank s) a insurance_module (coin_Denom shares) (coin_Amount shares) = Inr b"
    and r: "(case pickSchedule E (s\<lparr>ins_bank := b\<rparr>) a (Hex E m) (now + RedemptionNoticePeriodDuration f) shares of (t, i, c) \<Rightarrow>
       ebind (SetRedemptionSchedule E t \<lparr>schedule_Id = i, schedule_MarketId = Hex E m, Redeemer = AccAddress_String E a,
           ClaimableRedemptionTime = now + RedemptionNoticePeriodDuration f, RedemptionAmount = c\<rparr>) (\<lambda>u.
         if isMarketDemolishedOrExpired (markets u) m then processRedemption E u \<lparr>schedule_Id = i, schedule_MarketId = Hex E m,
           Redeemer = AccAddress_String E a, ClaimableRedemptionTime = now + RedemptionNoticePeriodDuration f, RedemptionAmount = c\<rparr>
         else Inr u)) = Inr s'"
    using assms(1) by (auto simp: RequestInsuranceFundRedemption_def Let_def)
  obtain t i c where p: "pickSchedule E (s\<lparr>ins_bank := b\<rparr>) a (Hex E m) (now + RedemptionNoticePeriodDuration f) shares = (t, i, c)"
    by (rule prod_cases3)
  let ?sh = "\<lparr>schedule_Id = i, schedule_MarketId = Hex E m, Redeemer = AccAddress_String E a,
    ClaimableRedemptionTime = now + RedemptionNoticePeriodDuration f, RedemptionAmount = c\<rparr>"
  obtain u where u: "SetRedemptionSchedule E t ?sh = Inr u"
    and r: "(if isMarketDemolishedOrExpired (markets u) m then processRedemption E u ?sh else Inr u) = Inr s'"
    using r by (auto simp: p)
  have s: "insurance_ok E (s\<lparr>ins_bank := b\<rparr>)" "surplus E (s\<lparr>ins_bank := b\<rparr>) d = surplus E s d + coin_part d shares" for d
    using insurance_receives [OF b assms(3,4), of d] assms(2) by (simp_all add: surplus_bank coin_part_def)
  note pk = pick_surplus [OF p s(1) assms(4)]
  have sh: "schedule_ok E ?sh" using pk(3) assms(3) by (simp add: schedule_ok_def address_round_trip)
  note set = set_schedule [OF pk(1) u sh]
  have "covered E s u" using set(1,2) pk(2) s(2) by (simp add: covered_def)
  moreover have "insurance_funds u = insurance_funds s" using u pk(6) by (auto simp: SetRedemptionSchedule_def Let_def)
  moreover have "processRedemption E u ?sh = Inr s' \<or> s' = u" using r by (simp split: if_splits)
  ultimately show thesis using that set(2,3) by blast
qed

lemma request_covered:
  assumes "RequestInsuranceFundRedemption E now s a m shares = Inr s'" "insurance_ok E s" "a \<noteq> insurance_address E" "0 \<le> coin_Amount shares"
  shows "covered E s s'"
proof -
  obtain u sh where u: "covered E s u" "insurance_ok E u" "map_of (redemption_schedules u) (GetRedemptionScheduleKey sh) = Some sh"
    and r: "processRedemption E u sh = Inr s' \<or> s' = u"
    using request_scheduled [OF assms] by metis
  then show ?thesis using process_redemption [OF _ u(2,3)] covered_trans [OF u(1)] by blast
qed

end


section \<open>Underwriting\<close>

context insurance_bank
begin

text \<open>Minting the locked shares of a new share denom only adds to the account.\<close>

lemma mint_locked:
  assumes "MintCoins E (ins_bank s) insurance_module d InsuranceFundProtocolOwnedLiquiditySupply = Inr b"
  shows "surplus E s d' \<le> surplus E (s\<lparr>ins_bank := SetDenomMetaData E b x\<rparr>) d'"
  using insurance_mints [OF assms, of d']
  by (simp add: surplus_bank metadata_moves_nothing InsuranceFundProtocolOwnedLiquiditySupply_def)

lemma refresh_Inr:
  assumes "refreshInsuranceFund E s m f = Inr (t, g)" "insurance_ok E s"
  shows "\<exists>i. g = f\<lparr>InsurancePoolTokenDenom := ShareDenomFromId i, TotalShare := InsuranceFundProtocolOwnedLiquiditySupply\<rparr>"
    "covered E s t" "insurance_funds t = insurance_funds s"
proof -
  let ?i = "ExportNextShareDenomId s"
  let ?g = "f\<lparr>InsurancePoolTokenDenom := ShareDenomFromId ?i, TotalShare := InsuranceFundProtocolOwnedLiquiditySupply\<rparr>"
  let ?u = "s\<lparr>share_denom_id := Some (?i + 1)\<rparr>"
  obtain b x where b: "MintCoins E (ins_bank ?u) insurance_module (ShareDenom ?g) InsuranceFundProtocolOwnedLiquiditySupply = Inr b"
    and t: "t = ?u\<lparr>ins_bank := SetDenomMetaData E b x\<rparr>" "g = ?g"
    using assms(1) by (auto simp: refreshInsuranceFund_def getNextShareDenomId_def SetNextShareDenomId_def Let_def)
  have "surplus E s d \<le> surplus E t d" for d
    using mint_locked [OF b, of d x] by (simp add: t(1) surplus_def)
  then show "\<exists>i. g = f\<lparr>InsurancePoolTokenDenom := ShareDenomFromId i, TotalShare := InsuranceFundProtocolOwnedLiquiditySupply\<rparr>"
    "covered E s t" "insurance_funds t = insurance_funds s"
    using assms(2) t by (auto simp: covered_def)
qed

lemma underwrite_cases:
  assumes "UnderwriteInsuranceFund E s a m c = Inr s'" "insurance_ok E s" "a \<noteq> insurance_address E" "0 \<le> coin_Amount c"
  obtains f b t g n b' where "GetInsuranceFund s m = Some f" "coin_Denom c = DepositDenom f"
    "\<forall>d. surplus E (s\<lparr>ins_bank := b\<rparr>) d = surplus E s d + coin_part d c" "covered E (s\<lparr>ins_bank := b\<rparr>) t" "insurance_funds t = insurance_funds s"
    "\<forall>d. GetBalance (mod_bank E) b' (insurance_address E) d = ins_held E t d" "0 \<le> n"
    "fund_Balance f \<le> 0 \<and> (\<exists>i. g = f\<lparr>InsurancePoolTokenDenom := ShareDenomFromId i, TotalShare := InsuranceFundProtocolOwnedLiquiditySupply\<rparr>)
       \<or> 0 < fund_Balance f \<and> g = f \<and> n = trunc_div (TotalShare f * coin_Amount c) (fund_Balance f)"
    "s' = SetInsuranceFund E (t\<lparr>ins_bank := b'\<rparr>) (g\<lparr>fund_Balance := fund_Balance f + coin_Amount c, TotalShare := TotalShare g + n\<rparr>)"
proof -
  let ?s = "\<lambda>b. s\<lparr>ins_bank := b\<rparr>"
  obtain f b t g n b' h where f: "GetInsuranceFund s m = Some f" "coin_Denom c = DepositDenom f"
    and b: "SendCoinsFromAccountToModule (mod_bank E) (ins_bank s) a insurance_module (coin_Denom c) (coin_Amount c) = Inr b"
    and r: "(if fund_Balance f \<le> 0 then ebind (refreshInsuranceFund E (?s b) m f) (\<lambda>(s, fund). Inr (s, fund, InsuranceFundCreatorSupply))
       else ebind (of_opt PanicInsurance (SafeMul E (TotalShare f) (coin_Amount c))) (\<lambda>product. Inr (?s b, f, trunc_div product (fund_Balance f))))
       = Inr (t, g, n)"
    and mint: "MintShareTokens E (ins_bank t) (g\<lparr>fund_Balance := fund_Balance g + coin_Amount c\<rparr>) a n = Inr (b', h)"
    and s': "s' = SetInsuranceFund E (t\<lparr>ins_bank := b'\<rparr>) h"
    using assms(1) by (auto simp: UnderwriteInsuranceFund_def Let_def)
  note mt = MintShareTokens_Inr [OF mint assms(3)]
  have sb: "\<forall>d. surplus E (?s b) d = surplus E s d + coin_part d c"
    using insurance_receives [OF b assms(3,4)] by (simp add: surplus_bank coin_part_def)
  have ok: "insurance_ok E (?s b)" using assms(2) by simp
  show thesis
  proof (cases "fund_Balance f \<le> 0")
    case True
    then have "refreshInsuranceFund E (?s b) m f = Inr (t, g)" using r by auto
    note rf = refresh_Inr [OF this ok]
    have "fund_Balance g = fund_Balance f" using rf(1) by auto
    then show thesis using that [OF f sb rf(2) _ _ mt(2), where g = g and b' = b'] rf(1,3) mt(1,3) True s' by simp
  next
    case False
    then have g: "t = ?s b" "g = f" "n = trunc_div (TotalShare f * coin_Amount c) (fund_Balance f)" using r product by auto
    have "covered E (?s b) t" using ok g(1) by (simp add: covered_def)
    then show thesis using that [OF f sb _ _ _ mt(2), where t = t and g = g and b' = b'] mt(1,3) False s' g by simp
  qed
qed

end


context insurance_bank
begin

lemma underwrite_covered:
  assumes "UnderwriteInsuranceFund E s a m c = Inr s'" "insurance_ok E s" "a \<noteq> insurance_address E" "0 \<le> coin_Amount c"
  shows "covered E s s'"
  using assms
proof (cases rule: underwrite_cases)
  case (1 f b t g n b')
  let ?h = "g\<lparr>fund_Balance := fund_Balance f + coin_Amount c, TotalShare := TotalShare g + n\<rparr>"
  have ok: "insurance_ok E (t\<lparr>ins_bank := b'\<rparr>)" using 1(4) by (simp add: covered_def)
  have f: "GetInsuranceFund (t\<lparr>ins_bank := b'\<rparr>) m = Some f" using 1(1,5) by (simp add: GetInsuranceFund_def)
  have "fund_MarketId ?h = fund_MarketId f" "DepositDenom ?h = DepositDenom f" using 1(8) by auto
  note u = update_fund [OF ok f this]
  have "surplus E s d \<le> surplus E s' d" for d
  proof -
    have "surplus E (s\<lparr>ins_bank := b\<rparr>) d \<le> surplus E t d" using 1(4) by (simp add: covered_def)
    moreover have "surplus E (t\<lparr>ins_bank := b'\<rparr>) d = surplus E t d" using 1(6) by (simp add: surplus_bank)
    moreover have "surplus E s' d = surplus E (t\<lparr>ins_bank := b'\<rparr>) d - coin_part d c"
      using u(1) [of d] 1(2) by (simp add: 1(9) coin_part_def)
    ultimately show ?thesis using 1(3) by simp
  qed
  then show ?thesis using u(2) by (simp add: covered_def 1(9))
qed

lemma create_covered:
  assumes "CreateInsuranceFund E s a c ticker quote base orcQuote ot expiry = Inr s'" "insurance_ok E s" "a \<noteq> insurance_address E" "0 \<le> coin_Amount c"
  shows "covered E s s'"
proof -
  define m where "m = (if expiry = - 2 then NewBinaryOptionsMarketID E ticker quote base orcQuote ot
    else NewDerivativesMarketID E ticker quote base orcQuote ot expiry)"
  let ?i = "ExportNextShareDenomId s"
  obtain period b b1 b2 f x where none: "GetInsuranceFund s m = None"
    and b: "SendCoinsFromAccountToModule (mod_bank E) (ins_bank s) a insurance_module (coin_Denom c) (coin_Amount c) = Inr b"
    and b1: "MintCoins E b insurance_module (ShareDenomFromId ?i) InsuranceFundProtocolOwnedLiquiditySupply = Inr b1"
    and mint: "MintShareTokens E b1 (AddTotalShare ((NewInsuranceFund E m (coin_Denom c) (ShareDenomFromId ?i) period ticker base orcQuote ot expiry)
        \<lparr>fund_Balance := coin_Amount c\<rparr>) InsuranceFundProtocolOwnedLiquiditySupply) a InsuranceFundCreatorSupply = Inr (b2, f)"
    and s': "s' = SetInsuranceFund E (s\<lparr>share_denom_id := Some (?i + 1), ins_bank := SetDenomMetaData E b2 x\<rparr>) f"
    using assms(1) unfolding m_def [symmetric]
    by (auto simp: CreateInsuranceFund_def m_def [symmetric] getNextShareDenomId_def SetNextShareDenomId_def Let_def NewInsuranceFund_def
        ShareDenom_def AddTotalShare_def split: if_splits)
  note mt = MintShareTokens_Inr [OF mint assms(3)]
  have f: "HexToHash E (fund_MarketId f) = m" "fund_part d m f = coin_part d c" for d
    by (simp_all add: mt(1) AddTotalShare_def NewInsuranceFund_def hex_round_trip fund_part_def coin_part_def)
  let ?t = "s\<lparr>share_denom_id := Some (?i + 1), ins_bank := SetDenomMetaData E b2 x\<rparr>"
  have ok: "insurance_ok E ?t" using assms(2) by simp
  have "surplus E s d \<le> surplus E s' d" for d
  proof -
    have "surplus E ?t d = surplus E s d + (GetBalance (mod_bank E) b2 (insurance_address E) d - ins_held E s d)"
      by (simp add: surplus_bank metadata_moves_nothing) (simp add: surplus_def)
    then have "surplus E s d + coin_part d c \<le> surplus E ?t d"
      using insurance_receives [OF b assms(3,4), of d] insurance_mints [OF b1, of d] mt(3) [of d]
      by (simp add: coin_part_def InsuranceFundProtocolOwnedLiquiditySupply_def)
    moreover have "surplus E s' d = surplus E ?t d - coin_part d c"
      using SetInsuranceFund_surplus(1) [OF ok f(1), of d] none by (simp add: s' f(2) store_at_def GetInsuranceFund_def)
    ultimately show ?thesis by simp
  qed
  then show ?thesis using SetInsuranceFund_surplus(2) [OF ok f(1)] by (simp add: covered_def s')
qed

end


section \<open>The exchange\<close>

context insurance_bank
begin

lemma withdraw_covered:
  assumes "WithdrawFromInsuranceFund E s m n = Inr s'" "insurance_ok E s"
  shows "covered E s s'"
proof -
  obtain f b where f: "GetInsuranceFund s m = Some f" and n: "0 \<le> n"
    and b: "SendCoinsFromModuleToModule E (ins_bank s) insurance_module exchange_module (DepositDenom f) n = Inr b"
    and s': "s' = SetInsuranceFund E (s\<lparr>ins_bank := b\<rparr>) (f\<lparr>fund_Balance := fund_Balance f - n\<rparr>)"
    using assms(1) by (auto simp: WithdrawFromInsuranceFund_def)
  have ok: "insurance_ok E (s\<lparr>ins_bank := b\<rparr>)" "GetInsuranceFund (s\<lparr>ins_bank := b\<rparr>) m = Some f"
    using assms(2) f by (simp_all add: GetInsuranceFund_def)
  have other: "insurance_module \<noteq> exchange_module" by (simp add: insurance_module_def exchange_module_def)
  have "GetBalance (mod_bank E) b (insurance_address E) d = ins_held E s d - (if d = DepositDenom f then n else 0)" for d
    using modules_pay [OF b module_accounts [OF other] n] by simp
  then have "surplus E s' d = surplus E s d" for d
    using update_fund(1) [OF ok, of "f\<lparr>fund_Balance := fund_Balance f - n\<rparr>" d] by (simp add: s' surplus_bank)
  moreover have "insurance_ok E s'" using update_fund(2) [OF ok] by (simp add: s')
  ultimately show ?thesis by (simp add: covered_def)
qed

lemma move_covered:
  assumes "MoveCoinsIntoInsuranceFund E s m d n = Inr s'" "insurance_ok E s" "GetInsuranceFund s m = Some f" "DepositDenom f = d"
  shows "covered E s s'"
proof -
  obtain b where n: "0 \<le> n" and b: "SendCoinsFromModuleToModule E (ins_bank s) exchange_module insurance_module d n = Inr b"
    and s': "s' = SetInsuranceFund E (s\<lparr>ins_bank := b\<rparr>) (f\<lparr>fund_Balance := fund_Balance f + n\<rparr>)"
    using assms(1,3) by (auto simp: MoveCoinsIntoInsuranceFund_def DepositIntoInsuranceFund_def GetInsuranceFund_def)
  have ok: "insurance_ok E (s\<lparr>ins_bank := b\<rparr>)" "GetInsuranceFund (s\<lparr>ins_bank := b\<rparr>) m = Some f"
    using assms(2,3) by (simp_all add: GetInsuranceFund_def)
  have other: "exchange_module \<noteq> insurance_module" by (simp add: insurance_module_def exchange_module_def)
  have "GetBalance (mod_bank E) b (insurance_address E) d' = ins_held E s d' + (if d' = d then n else 0)" for d'
    using modules_pay [OF b module_accounts [OF other] n] by simp
  then have "surplus E s' d' = surplus E s d'" for d'
    using update_fund(1) [OF ok, of "f\<lparr>fund_Balance := fund_Balance f + n\<rparr>" d'] assms(4) by (simp add: s' surplus_bank)
  moreover have "insurance_ok E s'" using update_fund(2) [OF ok] by (simp add: s')
  ultimately show ?thesis by (simp add: covered_def)
qed

lemma claim_covered:
  assumes "insurance_ClaimVoucher E s sender d = Inr s'" "insurance_ok E s" "AccAddressFromBech32 E sender \<noteq> Some (insurance_address E)"
  shows "covered E s s'"
proof -
  obtain a where a: "AccAddressFromBech32 E sender = Some a" using assms(1) by (auto simp: insurance_ClaimVoucher_def)
  let ?claim = "ClaimVoucher (ValidateDenom E) (\<lambda>b. SendCoinsFromModuleToAccount (mod_bank E) b insurance_module) (ins_bank s) (insurance_vouchers s) a d"
  obtain r where r: "?claim = Inr r" using assms(1) a by (cases ?claim) (simp_all add: insurance_ClaimVoucher_def)
  obtain b vs where c: "?claim = Inr (b, vs)" using r by (cases r) simp
  have s': "s' = s\<lparr>ins_bank := b, insurance_vouchers := vs\<rparr>" using assms(1) a c by (simp add: insurance_ClaimVoucher_def)
  note cl = ClaimVoucher_Inr [OF c]
  have vs: "vouchers_valid (insurance_vouchers s)" using assms(2) by (simp add: insurance_ok_def)
  have "GetBalance (mod_bank E) b (insurance_address E) d' = ins_held E s d' - (if d' = d then voucher_of (insurance_vouchers s) d a else 0)" for d'
    using insurance_sends [OF cl(1), of d'] assms(3) a voucher_of_nonneg [OF vs] by simp
  moreover have "owed s' d' = owed s d' - (if d' = d then voucher_of (insurance_vouchers s) d a else 0)" for d'
    using vs by (simp add: s' owed_def cl(2) vouchers_in_delete vouchers_valid_def)
  ultimately have "surplus E s' d' = surplus E s d'" for d' by (simp add: surplus_def s')
  moreover have "insurance_ok E s'" using assms(2) vouchers_valid_delete [OF vs] by (simp add: insurance_ok_def s' cl(2))
  ultimately show ?thesis by (simp add: covered_def)
qed

end

section \<open>Histories\<close>

text \<open>
  The steps of the chain the insurance module sees: its messages signed by accounts other than its own, ends of blocks,
  the operations of the exchange, which moves coins of the fund's denom, and transactions of others, which take nothing out
  of its account.
\<close>

inductive insurance_step :: "'b insurance_env \<Rightarrow> 'b insurance_state \<Rightarrow> 'b insurance_state \<Rightarrow> bool" for E where
  step_create: "MsgCreateInsuranceFund_ValidateBasic E msg = Inr () \<Longrightarrow> AccAddressFromBech32 E (create_Sender msg) \<noteq> Some (insurance_address E)
    \<Longrightarrow> msg_CreateInsuranceFund E now s msg = Inr s' \<Longrightarrow> insurance_step E s s'"
| step_underwrite: "MsgUnderwrite_ValidateBasic E sender market c = Inr () \<Longrightarrow> AccAddressFromBech32 E sender \<noteq> Some (insurance_address E)
    \<Longrightarrow> msg_Underwrite E s sender market c = Inr s' \<Longrightarrow> insurance_step E s s'"
| step_redeem: "MsgRequestRedemption_ValidateBasic E sender market c = Inr () \<Longrightarrow> AccAddressFromBech32 E sender \<noteq> Some (insurance_address E)
    \<Longrightarrow> msg_RequestRedemption E now s sender market c = Inr s' \<Longrightarrow> insurance_step E s s'"
| step_voucher: "AccAddressFromBech32 E sender \<noteq> Some (insurance_address E) \<Longrightarrow> insurance_ClaimVoucher E s sender d = Inr s' \<Longrightarrow> insurance_step E s s'"
| step_update_params: "insurance_UpdateParams E s authority p = Inr s' \<Longrightarrow> insurance_step E s s'"
| step_matured: "insurance_EndBlocker E now s = Inr s' \<Longrightarrow> insurance_step E s s'"
| step_oracle: "UpdateInsuranceFundOracleParams E s m ot base quote = Inr s' \<Longrightarrow> insurance_step E s s'"
| step_deficit: "PayDeficitFromInsuranceFund E s m n = Inr (r, s') \<Longrightarrow> insurance_step E s s'"
| step_transfer: "TransferFullInsuranceFundBalance E s m = Inr s' \<Longrightarrow> insurance_step E s s'"
| step_move: "GetInsuranceFund s m = Some f \<Longrightarrow> MoveCoinsIntoInsuranceFund E s m (DepositDenom f) n = Inr s' \<Longrightarrow> insurance_step E s s'"
| step_rest: "(\<And>d. ins_held E s d \<le> GetBalance (mod_bank E) b (insurance_address E) d) \<Longrightarrow> insurance_step E s (s\<lparr>ins_bank := b, markets := x\<rparr>)"

context insurance_bank
begin

lemma exchange_covered:
  assumes "insurance_ok E s"
  shows "PayDeficitFromInsuranceFund E s m n = Inr (r, s') \<Longrightarrow> covered E s s'"
    and "TransferFullInsuranceFundBalance E s m = Inr s' \<Longrightarrow> covered E s s'"
    and "UpdateInsuranceFundOracleParams E s m ot base quote = Inr s' \<Longrightarrow> covered E s s'"
proof -
  have mk: "covered E s (t\<lparr>markets := x\<rparr>)" if "covered E s t" for t x using that by (simp add: covered_def surplus_def)
  have w: "covered E s t" if "WithdrawFromInsuranceFund E s m k = Inr t" for k t using withdraw_covered [OF that assms] .
  have refl: "covered E s s" using assms by (simp add: covered_def)
  show "PayDeficitFromInsuranceFund E s m n = Inr (r, s') \<Longrightarrow> covered E s s'"
    using mk w refl by (auto simp: PayDeficitFromInsuranceFund_def Let_def split: if_splits)
  show "TransferFullInsuranceFundBalance E s m = Inr s' \<Longrightarrow> covered E s s'"
    using mk w refl by (auto simp: TransferFullInsuranceFundBalance_def Let_def split: option.split_asm sum.split_asm if_splits)
  show "UpdateInsuranceFundOracleParams E s m ot base quote = Inr s' \<Longrightarrow> covered E s s'"
    using update_fund [OF assms] by (auto simp: UpdateInsuranceFundOracleParams_def covered_def)
qed

lemma insurance_step_covered:
  assumes "insurance_step E s s'" "insurance_ok E s"
  shows "covered E s s'"
  using assms(1)
proof cases
  case (step_create msg now)
  then show ?thesis using create_covered [OF _ assms(2)]
    by (auto simp: msg_CreateInsuranceFund_def MsgCreateInsuranceFund_ValidateBasic_def Coin_IsValid_def Let_def)
next
  case (step_underwrite sender market c)
  then show ?thesis using underwrite_covered [OF _ assms(2)] by (auto simp: msg_Underwrite_def MsgUnderwrite_ValidateBasic_def Coin_IsValid_def)
next
  case (step_redeem sender market c now)
  then show ?thesis using request_covered [OF _ assms(2)] by (auto simp: msg_RequestRedemption_def MsgRequestRedemption_ValidateBasic_def Coin_IsValid_def)
next
  case (step_voucher sender d)
  then show ?thesis using claim_covered [OF _ assms(2)] by blast
next
  case (step_update_params authority p)
  then show ?thesis using assms(2) by (auto simp: insurance_UpdateParams_def covered_def surplus_def)
next
  case (step_matured now)
  then show ?thesis using end_block_covered [OF _ assms(2)] by blast
next
  case (step_move m f n)
  then show ?thesis using move_covered [OF _ assms(2)] by blast
next
  case (step_rest b x)
  then show ?thesis using assms(2) by (simp add: covered_def surplus_def)
qed (auto intro: exchange_covered [OF assms(2)])

lemma insurance_history_covered: "(insurance_step E)\<^sup>*\<^sup>* s s' \<Longrightarrow> insurance_ok E s \<Longrightarrow> covered E s s'"
proof (induction rule: rtranclp_induct)
  case (step t u)
  then have "covered E s t" by simp
  moreover have "covered E t u" using insurance_step_covered [OF step.hyps(2)] \<open>covered E s t\<close> by (simp add: covered_def)
  ultimately show ?case by (rule covered_trans)
qed (simp add: covered_def)

end


section \<open>What a share is worth\<close>

definition fund_live :: "'b insurance_state \<Rightarrow> market_hash \<Rightarrow> bool" where
  "fund_live s m = (case GetInsuranceFund s m of None \<Rightarrow> False | Some f \<Rightarrow> 0 \<le> fund_Balance f \<and> 0 < TotalShare f)"

definition worth_kept :: "InsuranceFund \<Rightarrow> InsuranceFund \<Rightarrow> bool" where
  "worth_kept f f' \<longleftrightarrow> fund_Balance f * TotalShare f' \<le> fund_Balance f' * TotalShare f"

definition keeps_worth :: "market_hash \<Rightarrow> 'b insurance_state \<Rightarrow> 'b insurance_state \<Rightarrow> bool" where
  "keeps_worth m s s' \<longleftrightarrow> (\<forall>f. GetInsuranceFund s m = Some f \<longrightarrow> fund_live s m \<longrightarrow> (\<exists>f'. GetInsuranceFund s' m = Some f' \<and> worth_kept f f'))"

lemma same_funds_keep_worth: "GetInsuranceFund s' m = GetInsuranceFund s m \<Longrightarrow> keeps_worth m s s'"
  by (simp add: keeps_worth_def worth_kept_def)

lemma worth_kept_trans:
  assumes "worth_kept f g" "worth_kept g h" "0 < TotalShare g" "0 \<le> TotalShare f" "0 \<le> TotalShare h"
  shows "worth_kept f h"
proof -
  have "fund_Balance f * TotalShare g * TotalShare h \<le> fund_Balance g * TotalShare f * TotalShare h"
    using assms(1,5) by (simp add: worth_kept_def mult_right_mono)
  also have "\<dots> = fund_Balance g * TotalShare h * TotalShare f" by simp
  also have "\<dots> \<le> fund_Balance h * TotalShare g * TotalShare f" using assms(2,4) by (simp add: worth_kept_def mult_right_mono)
  finally have "(fund_Balance f * TotalShare h) * TotalShare g \<le> (fund_Balance h * TotalShare f) * TotalShare g" by (simp add: ac_simps)
  then show ?thesis using assms(3) by (simp add: worth_kept_def mult_le_cancel_right)
qed

lemma trunc_div_bound: "0 \<le> a \<Longrightarrow> 0 < b \<Longrightarrow> trunc_div a b * b \<le> a"
  using minus_mod_eq_div_mult [of a b] by (cases "a = 0") (simp_all add: trunc_div_def sgn_if minus_mod_eq_div_mult [symmetric])

lemma set_fund_at:
  assumes "insurance_ok E s" "GetInsuranceFund s m = Some f" "fund_MarketId g = fund_MarketId f"
  shows "GetInsuranceFund (SetInsuranceFund E t g) m' = (if m' = m then Some g else GetInsuranceFund t m')"
proof -
  have "HexToHash E (fund_MarketId g) = m" using assms by (simp add: insurance_ok_def GetInsuranceFund_def)
  then show ?thesis by (simp add: GetInsuranceFund_def SetInsuranceFund_def update_conv')
qed

context insurance_bank
begin

lemma redemption_bound:
  assumes "getRedemptionAmountFromShare E x m f n = Inr c" "0 \<le> n" "0 \<le> fund_Balance f" "0 < TotalShare f"
  shows "coin_Amount c * TotalShare f \<le> n * fund_Balance f"
proof -
  define v where "v = (if GetMarketBalance x m < 0 then LegacyNewDec (fund_Balance f) + GetMarketBalance x m else LegacyNewDec (fund_Balance f))"
  let ?t = "dec_truncate (env_dec (env_exchange E)) v"
  have zero: "0 \<le> n * fund_Balance f" using assms(2,3) by simp
  note r = assms(1) [unfolded getRedemptionAmountFromShare_def Let_def, folded v_def]
  show ?thesis
  proof (cases "v < 0 \<or> SafeMul E n ?t = None")
    case True
    then have "coin_Amount c = 0" using r assms(4) by (auto split: if_splits)
    then show ?thesis using zero by simp
  next
    case False
    then obtain p where p: "SafeMul E n ?t = Some p" and v: "0 \<le> v" by auto
    have c: "coin_Amount c = trunc_div (n * ?t) (TotalShare f)"
      using r assms(4) False p product [OF p] by auto
    have "v \<le> LegacyNewDec (fund_Balance f)" by (simp add: v_def)
    then have "v div dec_one \<le> LegacyNewDec (fund_Balance f) div dec_one" by (rule zdiv_mono1) simp
    then have t: "0 \<le> ?t" "?t \<le> fund_Balance f" using v by (simp_all add: truncate_nonneg LegacyNewDec_def pos_imp_zdiv_nonneg_iff)
    have "trunc_div (n * ?t) (TotalShare f) * TotalShare f \<le> n * ?t" by (rule trunc_div_bound) (use assms t in simp_all)
    also have "\<dots> \<le> n * fund_Balance f" using t(2) assms(2) by (rule mult_left_mono)
    finally show ?thesis by (simp add: c)
  qed
qed

lemma settle_worth:
  assumes "settleRedemption E s f m a sh = Inr s'" "insurance_ok E s" "GetInsuranceFund s m = Some f" "0 \<le> coin_Amount (RedemptionAmount sh)"
  shows "keeps_worth m' s s'"
proof (cases "ShareDenom f = coin_Denom (RedemptionAmount sh)")
  case True
  let ?n = "coin_Amount (RedemptionAmount sh)"
  obtain c t b where st: "getRedemptionAmountFromShare E (markets s) m f ?n = Inr c" "payRedemption E s a c = Inr t"
    "\<forall>d. GetBalance (mod_bank E) b (insurance_address E) d = ins_held E t d - coin_part d (RedemptionAmount sh)"
    "s' = SetInsuranceFund E (t\<lparr>ins_bank := b\<rparr>) (f\<lparr>TotalShare := TotalShare f - ?n, fund_Balance := fund_Balance f - coin_Amount c\<rparr>)"
    by (rule settleRedemption_match [OF assms(1) True])
  have at: "GetInsuranceFund s' m' = (if m' = m then Some (f\<lparr>TotalShare := TotalShare f - ?n, fund_Balance := fund_Balance f - coin_Amount c\<rparr>)
      else GetInsuranceFund s m')"
    using set_fund_at [OF assms(2,3)] payRedemption_keeps(1) [OF st(2)] by (simp add: st(4) GetInsuranceFund_def)
  show ?thesis
  proof (cases "m' = m")
    case True
    have "worth_kept f (f\<lparr>TotalShare := TotalShare f - ?n, fund_Balance := fund_Balance f - coin_Amount c\<rparr>)" if "fund_live s m"
      using redemption_bound [OF st(1) assms(4)] that assms(3) by (simp add: worth_kept_def fund_live_def algebra_simps)
    then show ?thesis using at True assms(3) by (simp add: keeps_worth_def)
  qed (use at in \<open>simp add: same_funds_keep_worth\<close>)
next
  case False
  then have "insurance_funds s' = insurance_funds s" using assms(1) by (auto simp: settleRedemption_def)
  then show ?thesis by (simp add: same_funds_keep_worth GetInsuranceFund_def)
qed

lemma process_worth:
  assumes "processRedemption E s sh = Inr s'" "insurance_ok E s" "map_of (redemption_schedules s) (GetRedemptionScheduleKey sh) = Some sh"
  shows "keeps_worth m s s'"
  using assms(1)
proof (cases rule: processRedemption_cases)
  case (1 f a)
  have "0 \<le> coin_Amount (RedemptionAmount sh)" using stored_schedule(2) [OF assms(2,3)] by (simp add: schedule_ok_def)
  then have "keeps_worth m (deleteRedemptionSchedule E s sh) s'"
    using settle_worth [OF 1(3) delete_schedule(2) [OF assms(2,3)]] 1(1) by (simp add: deleted_funds)
  then show ?thesis by (simp add: keeps_worth_def fund_live_def deleted_funds)
next
  case (2 f a e i)
  then show ?thesis
    using deleted_funds [of s sh m] by (simp add: same_funds_keep_worth SetFailedRedemptionSchedule_def GetInsuranceFund_def)
qed

lemma underwrite_worth:
  assumes "UnderwriteInsuranceFund E s a m c = Inr s'" "insurance_ok E s" "a \<noteq> insurance_address E" "0 \<le> coin_Amount c"
  shows "keeps_worth m' s s'"
proof -
  obtain f b t g n b' where f: "GetInsuranceFund s m = Some f" and t: "insurance_funds t = insurance_funds s" and n: "0 \<le> n"
    and g: "fund_Balance f \<le> 0 \<and> (\<exists>i. g = f\<lparr>InsurancePoolTokenDenom := ShareDenomFromId i, TotalShare := InsuranceFundProtocolOwnedLiquiditySupply\<rparr>)
       \<or> 0 < fund_Balance f \<and> g = f \<and> n = trunc_div (TotalShare f * coin_Amount c) (fund_Balance f)"
    and s': "s' = SetInsuranceFund E (t\<lparr>ins_bank := b'\<rparr>) (g\<lparr>fund_Balance := fund_Balance f + coin_Amount c, TotalShare := TotalShare g + n\<rparr>)"
    using underwrite_cases [OF assms] by metis
  let ?g = "g\<lparr>fund_Balance := fund_Balance f + coin_Amount c, TotalShare := TotalShare g + n\<rparr>"
  have "fund_MarketId ?g = fund_MarketId f" using g by auto
  then have at: "GetInsuranceFund s' m' = (if m' = m then Some ?g else GetInsuranceFund s m')"
    using set_fund_at [OF assms(2) f] t by (simp add: s' GetInsuranceFund_def)
  have "worth_kept f ?g" if "fund_live s m"
  proof (cases "fund_Balance f \<le> 0")
    case True
    then show ?thesis using that f assms(4) by (simp add: worth_kept_def fund_live_def)
  next
    case False
    then have "n * fund_Balance f \<le> TotalShare f * coin_Amount c" "g = f"
      using g trunc_div_bound [of "TotalShare f * coin_Amount c" "fund_Balance f"] assms(4) that f by (auto simp: fund_live_def)
    then show ?thesis by (simp add: worth_kept_def algebra_simps)
  qed
  then have "keeps_worth m' s s'" if "m' = m" using at f that by (simp add: keeps_worth_def)
  then show ?thesis using at by (cases "m' = m") (simp_all add: same_funds_keep_worth)
qed

lemma request_worth:
  assumes "RequestInsuranceFundRedemption E now s a m shares = Inr s'" "insurance_ok E s" "a \<noteq> insurance_address E" "0 \<le> coin_Amount shares"
  shows "keeps_worth m' s s'"
proof -
  obtain u sh where u: "insurance_ok E u" "insurance_funds u = insurance_funds s"
    "map_of (redemption_schedules u) (GetRedemptionScheduleKey sh) = Some sh"
    and r: "processRedemption E u sh = Inr s' \<or> s' = u"
    using request_scheduled [OF assms] by metis
  have "keeps_worth m' u s'" using r process_worth [OF _ u(1,3)] by (auto intro: same_funds_keep_worth)
  then show ?thesis using u(2) by (simp add: keeps_worth_def fund_live_def GetInsuranceFund_def)
qed

lemma move_worth:
  assumes "MoveCoinsIntoInsuranceFund E s m d n = Inr s'" "insurance_ok E s"
  shows "keeps_worth m' s s'"
proof -
  obtain f b where f: "GetInsuranceFund s m = Some f" and n: "0 \<le> n"
    and s': "s' = SetInsuranceFund E (s\<lparr>ins_bank := b\<rparr>) (f\<lparr>fund_Balance := fund_Balance f + n\<rparr>)"
    using assms(1) by (auto simp: MoveCoinsIntoInsuranceFund_def DepositIntoInsuranceFund_def GetInsuranceFund_def)
  have at: "GetInsuranceFund s' m' = (if m' = m then Some (f\<lparr>fund_Balance := fund_Balance f + n\<rparr>) else GetInsuranceFund s m')"
    using set_fund_at [OF assms(2) f] by (simp add: s' GetInsuranceFund_def)
  have "worth_kept f (f\<lparr>fund_Balance := fund_Balance f + n\<rparr>)" if "fund_live s m"
    using that f n by (simp add: worth_kept_def fund_live_def algebra_simps)
  then have "keeps_worth m' s s'" if "m' = m" using at f that by (simp add: keeps_worth_def)
  then show ?thesis using at by (cases "m' = m") (simp_all add: same_funds_keep_worth)
qed

end


text \<open>
  The steps that issue shares, redeem them or add to a fund; each leaves the fund with shares and without a debt.
\<close>

inductive share_step :: "'b insurance_env \<Rightarrow> market_hash \<Rightarrow> 'b insurance_state \<Rightarrow> 'b insurance_state \<Rightarrow> bool" for E m where
  share_underwrite: "MsgUnderwrite_ValidateBasic E sender market c = Inr () \<Longrightarrow> AccAddressFromBech32 E sender \<noteq> Some (insurance_address E)
    \<Longrightarrow> msg_Underwrite E s sender market c = Inr s' \<Longrightarrow> fund_live s' m \<Longrightarrow> share_step E m s s'"
| share_request: "MsgRequestRedemption_ValidateBasic E sender market c = Inr () \<Longrightarrow> AccAddressFromBech32 E sender \<noteq> Some (insurance_address E)
    \<Longrightarrow> msg_RequestRedemption E now s sender market c = Inr s' \<Longrightarrow> fund_live s' m \<Longrightarrow> share_step E m s s'"
| share_redeem: "sh \<in> set (GetAllInsuranceFundRedemptions s) \<Longrightarrow> processRedemption E s sh = Inr s' \<Longrightarrow> fund_live s' m \<Longrightarrow> share_step E m s s'"
| share_move: "GetInsuranceFund s market = Some f \<Longrightarrow> MoveCoinsIntoInsuranceFund E s market (DepositDenom f) n = Inr s'
    \<Longrightarrow> fund_live s' m \<Longrightarrow> share_step E m s s'"

context insurance_bank
begin

lemma share_step_keeps:
  assumes "share_step E m s s'" "insurance_ok E s"
  shows "insurance_ok E s' \<and> keeps_worth m s s' \<and> fund_live s' m"
  using assms(1)
proof cases
  case (share_underwrite sender market c)
  then obtain a where u: "UnderwriteInsuranceFund E s a (HexToHash E market) c = Inr s'" "a \<noteq> insurance_address E" "0 \<le> coin_Amount c"
    by (auto simp: msg_Underwrite_def MsgUnderwrite_ValidateBasic_def Coin_IsValid_def)
  show ?thesis using underwrite_covered [OF u(1) assms(2) u(2,3)] underwrite_worth [OF u(1) assms(2) u(2,3)] share_underwrite by (simp add: covered_def)
next
  case (share_request sender market c now)
  then obtain a where u: "RequestInsuranceFundRedemption E now s a (HexToHash E market) c = Inr s'" "a \<noteq> insurance_address E" "0 \<le> coin_Amount c"
    by (auto simp: msg_RequestRedemption_def MsgRequestRedemption_ValidateBasic_def Coin_IsValid_def)
  show ?thesis using request_covered [OF u(1) assms(2) u(2,3)] request_worth [OF u(1) assms(2) u(2,3)] share_request by (simp add: covered_def)
next
  case (share_redeem sh)
  have "map_of (redemption_schedules s) (GetRedemptionScheduleKey sh) = Some sh" using stored_redemptions [OF assms(2)] share_redeem(1) by simp
  then show ?thesis using process_redemption [OF share_redeem(2) assms(2)] process_worth [OF share_redeem(2) assms(2)] share_redeem(3)
    by (simp add: covered_def)
next
  case (share_move market f n)
  then show ?thesis using move_covered [OF share_move(2) assms(2) share_move(1)] move_worth [OF share_move(2) assms(2)] by (simp add: covered_def)
qed

lemma share_history_keeps:
  assumes "(share_step E m)\<^sup>*\<^sup>* s s'" "insurance_ok E s" "fund_live s m" "GetInsuranceFund s m = Some f"
  shows "insurance_ok E s' \<and> fund_live s' m \<and> (\<exists>f'. GetInsuranceFund s' m = Some f' \<and> worth_kept f f')"
  using assms(1)
proof (induction rule: rtranclp_induct)
  case base
  then show ?case using assms by (simp add: worth_kept_def)
next
  case (step t u)
  then obtain g where g: "GetInsuranceFund t m = Some g" "worth_kept f g" by blast
  have k: "insurance_ok E u" "keeps_worth m t u" "fund_live u m" using share_step_keeps [OF step.hyps(2)] step.IH by simp_all
  then obtain h where h: "GetInsuranceFund u m = Some h" "worth_kept g h" using g(1) step.IH by (auto simp: keeps_worth_def)
  have "worth_kept f h" by (rule worth_kept_trans [OF g(2) h(2)]) (use step.IH k(3) assms(3,4) g(1) h(1) in \<open>auto simp: fund_live_def\<close>)
  then show ?case using k h by simp
qed

end


section \<open>Properties\<close>

text \<open>C8: Along every history of messages signed by others, ends of blocks, payments between the exchange and the funds, and
  transactions of others, the account of the insurance module holds, of every denom, at least the balances of the funds,
  the shares waiting to be redeemed or whose redemption failed, and the outstanding vouchers.\<close>

theorem insurance_stays_solvent:
  assumes "insurance_bank E" "insurance_ok E s" "\<And>d. owed s d \<le> ins_held E s d" "(insurance_step E)\<^sup>*\<^sup>* s s'"
  shows "owed s' d \<le> ins_held E s' d"
  using insurance_bank.insurance_history_covered [OF assms(1,4,2)] assms(3) [of d] by (auto simp: covered_def surplus_def dest: spec [of _ d])

text \<open>C9: No sequence of underwritings, redemption requests, settled redemptions and payments into the funds makes a share of a fund
  worth less: while the fund has shares and no debt, its balance per share never falls.\<close>

theorem insurance_shares_keep_value:
  assumes "insurance_bank E" "insurance_ok E s" "(share_step E m)\<^sup>*\<^sup>* s s'"
    and "GetInsuranceFund s m = Some f" "0 \<le> fund_Balance f" "0 < TotalShare f"
  shows "\<exists>f'. GetInsuranceFund s' m = Some f' \<and> 0 < TotalShare f' \<and> fund_Balance f * TotalShare f' \<le> fund_Balance f' * TotalShare f"
proof -
  have "fund_live s m" using assms(4-6) by (simp add: fund_live_def)
  from insurance_bank.share_history_keeps [OF assms(1,3,2) this assms(4)] show ?thesis by (auto simp: worth_kept_def fund_live_def)
qed


end
