(* ===== verification/Insurance_Examples.thy ===== *)
theory Insurance_Examples
  imports Insurance_Laws Account_Book
begin

text \<open>
  On the bank of \<^verbatim>\<open>Account_Book\<close> a fund is created, underwritten and redeemed; the redeemer cannot receive the coins of
  the fund and gets a voucher. Addresses are written with the prefix ''i''.
\<close>

definition fund_env :: "account_book insurance_env" where
  "fund_env =
     \<lparr>env_exchange = env_exchange book_chain, SendCoinsFromModuleToModule = SendCoinsFromModuleToModule book_chain,
      MintCoins = MintCoins book_chain, BurnCoins = BurnCoins book_chain,
      AccAddressFromBech32 = (\<lambda>s. case s of [] \<Rightarrow> None | c # a \<Rightarrow> Some a),
      ValidateDenom = ValidateDenom book_chain, env_authority = env_authority book_chain,
      SetDenomMetaData = (\<lambda>b m. b), AccAddress_String = (\<lambda>a. ''i'' @ a), Keccak256Hash = take 3, Hex = (\<lambda>h. h), HexToHash = (\<lambda>h. h),
      IsHexAddress = (\<lambda>_. False), HexToAddress_Hex = (\<lambda>a. a),
      SafeMul = (\<lambda>x y. if \<bar>x * y\<bar> < 2 ^ 256 then Some (x * y) else None)\<rparr>"

lemmas fund_env_defs = fund_env_def book_chain_def book_bank_def

interpretation book_insurance: insurance_bank fund_env
proof -
  have "module_bank (chain_env.truncate fund_env)"
    using book.module_bank_axioms
    by (simp add: fund_env_def chain_env.truncate_def module_bank_def module_bank_axioms_def)
  then have "module_bank fund_env" by (simp add: module_bank_extension)
  moreover have "insurance_bank_axioms fund_env"
    by unfold_locales (simp_all add: fund_env_defs split: if_splits)
  ultimately show "insurance_bank fund_env" by (rule insurance_bank.intro)
qed

section \<open>A fund\<close>

definition usdt :: "int \<Rightarrow> Coin" where "usdt n = \<lparr>coin_Denom = ''usdt'', coin_Amount = n\<rparr>"

definition shares :: "int \<Rightarrow> Coin" where "shares n = \<lparr>coin_Denom = ''share1'', coin_Amount = n\<rparr>"

definition fund_msg :: MsgCreateInsuranceFund where
  "fund_msg = \<lparr>create_Sender = ''ialice'', create_Ticker = ''t'', create_QuoteDenom = ''usdt'', create_OracleBase = ''b'', create_OracleQuote = ''q'',
     create_OracleType = OracleType_Band, create_Expiry = - 1, InitialDeposit = usdt 100\<rparr>"

definition no_funds :: "account_book insurance_state" where
  "no_funds = \<lparr>insurance_funds = [], redemption_schedules = [], schedule_index = [], share_denom_id = None, redemption_schedule_id = None,
     failed_schedules = [], failed_schedule_id = None, insurance_vouchers = [], notice_period = 10,
     markets = \<lparr>derivative_statuses = [], binary_statuses = [], spot_statuses = [], market_balances = []\<rparr>,
     ins_bank = [((''alice'', ''usdt''), 100), ((''bob'', ''usdt''), 50)]\<rparr>"

definition fund_state :: "int \<Rightarrow> int \<Rightarrow> account_book \<Rightarrow> account_book insurance_state" where
  "fund_state n k b = no_funds\<lparr>insurance_funds := [(''-PE'', \<lparr>DepositDenom = ''usdt'', InsurancePoolTokenDenom = ''share1'',
     RedemptionNoticePeriodDuration = 10, fund_Balance = n, TotalShare = k, fund_MarketId = ''-PE'', MarketTicker = ''t'',
     fund_OracleBase = ''b'', fund_OracleQuote = ''q'', fund_OracleType = OracleType_Band, fund_Expiry = - 1\<rparr>)],
     share_denom_id := Some 2, ins_bank := b\<rparr>"

definition fund_created :: "account_book insurance_state" where
  "fund_created = fund_state 100 1000000000000000000
     [((''alice'', ''usdt''), 0), ((''bob'', ''usdt''), 50), ((''module/insurance'', ''usdt''), 100),
      ((''module/insurance'', ''share1''), 10000000000000000), ((''alice'', ''share1''), 990000000000000000)]"

definition fund_underwritten :: "account_book insurance_state" where
  "fund_underwritten = fund_state 150 1500000000000000000
     [((''alice'', ''usdt''), 0), ((''bob'', ''usdt''), 0), ((''module/insurance'', ''usdt''), 150),
      ((''module/insurance'', ''share1''), 10000000000000000), ((''alice'', ''share1''), 990000000000000000),
      ((''bob'', ''share1''), 500000000000000000)]"

definition fund_schedule :: RedemptionSchedule where
  "fund_schedule = \<lparr>schedule_Id = 1, schedule_MarketId = ''-PE'', Redeemer = ''ibob'', ClaimableRedemptionTime = 10,
     RedemptionAmount = shares 500000000000000000\<rparr>"

definition fund_requested :: "account_book insurance_state" where
  "fund_requested = (fund_state 150 1500000000000000000
     [((''alice'', ''usdt''), 0), ((''bob'', ''usdt''), 0), ((''module/insurance'', ''usdt''), 150),
      ((''module/insurance'', ''share1''), 510000000000000000), ((''alice'', ''share1''), 990000000000000000),
      ((''bob'', ''share1''), 0)])
     \<lparr>redemption_schedules := [((10, 1), fund_schedule)], schedule_index := [(''bob'', ''-PE'', 10, 1)], redemption_schedule_id := Some 2\<rparr>"

definition fund_redeemed :: "account_book insurance_state" where
  "fund_redeemed = (fund_state 100 1000000000000000000
     [((''alice'', ''usdt''), 0), ((''bob'', ''usdt''), 0), ((''module/insurance'', ''usdt''), 150),
      ((''module/insurance'', ''share1''), 10000000000000000), ((''alice'', ''share1''), 990000000000000000),
      ((''bob'', ''share1''), 0)])
     \<lparr>redemption_schedule_id := Some 2, insurance_vouchers := [((''usdt'', ''bob''), 50)]\<rparr>"

lemma fund_runs:
  "MsgCreateInsuranceFund_ValidateBasic fund_env fund_msg = Inr ()"
  "MsgUnderwrite_ValidateBasic fund_env ''ibob'' ''-PE'' (usdt 50) = Inr ()"
  "MsgRequestRedemption_ValidateBasic fund_env ''ibob'' ''-PE'' (shares 500000000000000000) = Inr ()"
  "msg_CreateInsuranceFund fund_env 0 no_funds fund_msg = Inr fund_created"
  "msg_Underwrite fund_env fund_created ''ibob'' ''-PE'' (usdt 50) = Inr fund_underwritten"
  "msg_RequestRedemption fund_env 0 fund_underwritten ''ibob'' ''-PE'' (shares 500000000000000000) = Inr fund_requested"
  "insurance_EndBlocker fund_env 20 fund_requested = Inr fund_redeemed"
  "processRedemption fund_env fund_requested fund_schedule = Inr fund_redeemed"
  "GetAllInsuranceFundRedemptions fund_requested = [fund_schedule]"
  "fund_live fund_underwritten ''-PE''" "fund_live fund_requested ''-PE''" "fund_live fund_redeemed ''-PE''"
  by code_simp+

lemma fund_senders:
  "AccAddressFromBech32 fund_env ''ialice'' \<noteq> Some (insurance_address fund_env)"
  "AccAddressFromBech32 fund_env ''ibob'' \<noteq> Some (insurance_address fund_env)"
  "create_Sender fund_msg = ''ialice''"
  by code_simp+

lemma no_funds_ok: "insurance_ok fund_env no_funds" "owed no_funds d \<le> ins_held fund_env no_funds d"
  using book_balance_nonneg by (simp_all add: insurance_ok_def no_funds_def vouchers_valid_def owed_def vouchers_in_def fund_env_defs)

lemma fund_created_ok: "insurance_ok fund_env fund_created"
  by (simp add: insurance_ok_def fund_created_def fund_state_def no_funds_def vouchers_valid_def fund_env_def)

lemma fund_history: "(insurance_step fund_env)\<^sup>*\<^sup>* no_funds fund_redeemed"
proof -
  have "insurance_step fund_env no_funds fund_created"
    using insurance_step.step_create [OF fund_runs(1) _ fund_runs(4)] fund_senders(1,3) by simp
  moreover have "insurance_step fund_env fund_created fund_underwritten" by (rule insurance_step.step_underwrite [OF fund_runs(2) fund_senders(2) fund_runs(5)])
  moreover have "insurance_step fund_env fund_underwritten fund_requested" by (rule insurance_step.step_redeem [OF fund_runs(3) fund_senders(2) fund_runs(6)])
  moreover have "insurance_step fund_env fund_requested fund_redeemed" by (rule insurance_step.step_matured [OF fund_runs(7)])
  ultimately show ?thesis by simp
qed

lemma fund_shares_history: "(share_step fund_env ''-PE'')\<^sup>*\<^sup>* fund_created fund_redeemed"
proof -
  have "share_step fund_env ''-PE'' fund_created fund_underwritten"
    by (rule share_step.share_underwrite [OF fund_runs(2) fund_senders(2) fund_runs(5,10)])
  moreover have "share_step fund_env ''-PE'' fund_underwritten fund_requested"
    by (rule share_step.share_request [OF fund_runs(3) fund_senders(2) fund_runs(6,11)])
  moreover have "share_step fund_env ''-PE'' fund_requested fund_redeemed"
    using share_step.share_redeem [OF _ fund_runs(8,12)] fund_runs(9) by simp
  ultimately show ?thesis by simp
qed

theorem insurance_stays_solvent_witness:
  "insurance_ok fund_env no_funds \<and> (insurance_step fund_env)\<^sup>*\<^sup>* no_funds fund_redeemed \<and> owed fund_redeemed ''usdt'' = 150
   \<and> owed fund_redeemed ''usdt'' \<le> ins_held fund_env fund_redeemed ''usdt''"
  using insurance_stays_solvent [OF book_insurance.insurance_bank_axioms no_funds_ok(1,2) fund_history, of "''usdt''"] no_funds_ok(1) fund_history
  by (simp add: owed_def fund_part_def coin_part_def fund_redeemed_def fund_state_def no_funds_def vouchers_in_def)

theorem insurance_shares_keep_value_witness:
  "\<exists>f. GetInsuranceFund fund_created ''-PE'' = Some f \<and> insurance_ok fund_env fund_created \<and> 0 \<le> fund_Balance f \<and> 0 < TotalShare f
   \<and> (share_step fund_env ''-PE'')\<^sup>*\<^sup>* fund_created fund_redeemed
   \<and> (\<exists>f'. GetInsuranceFund fund_redeemed ''-PE'' = Some f' \<and> 0 < TotalShare f' \<and> fund_Balance f * TotalShare f' \<le> fund_Balance f' * TotalShare f)"
proof -
  obtain f where f: "GetInsuranceFund fund_created ''-PE'' = Some f" "0 \<le> fund_Balance f" "0 < TotalShare f"
    by (simp add: fund_created_def fund_state_def no_funds_def GetInsuranceFund_def)
  show ?thesis
    using f fund_created_ok fund_shares_history
      insurance_shares_keep_value [OF book_insurance.insurance_bank_axioms fund_created_ok fund_shares_history f] by blast
qed

end
