(* ===== verification/Spec2Isabelle.thy ===== *)
theory Spec2Isabelle
  imports Exchange_Position Spot_Order_Examples Permission_Examples Store_Keys Auction_Examples Insurance_Examples
begin

text \<open>
  Verification of the Injective chain, \<^verbatim>\<open>injective-core\<close>: a Cosmos SDK application whose modules share one bank. All paths below are
  relative to \<^verbatim>\<open>src/injective-chain/modules\<close>.

  \<^bold>\<open>The program.\<close> Traders own subaccounts of the exchange module. An order reserves funds in the subaccount
  (\<^verbatim>\<open>exchange/keeper/subaccount\<close>), is stored in the order stores (\<^verbatim>\<open>exchange/keeper/base\<close>), and at the end of a block all orders of a
  market meet in a frequent batch auction (\<^verbatim>\<open>exchange/fba\<close>) at one clearing price. The settlement
  (\<^verbatim>\<open>exchange/keeper/spot/order_matching.go\<close>) turns the fills into deposit changes and fees, with the discount of the
  trader's tier (\<^verbatim>\<open>exchange/keeper/feediscounts\<close>). The collected fees are sold by the auction module (\<^verbatim>\<open>auction\<close>) for INJ that is
  burnt. Derivative positions (\<^verbatim>\<open>exchange/types/v2/position.go\<close>) are backed by the funds of the insurance module (\<^verbatim>\<open>insurance\<close>).
  Every bank send passes the permissions module (\<^verbatim>\<open>permissions\<close>), which may refuse it or turn it into a voucher
  (\<^verbatim>\<open>common/vouchers\<close>); auction and insurance hand out vouchers of the same kind when they cannot pay.

  \<^bold>\<open>Shared theories.\<close>
  \<^item> \<^verbatim>\<open>Chain_Prelude\<close>: results of fallible code (\<open>ebind\<close>, \<open>echeck\<close>, \<open>efold\<close>), stores as association lists and the sum over
    a store, words, and the collections \<open>result_simps\<close> and \<open>inv_intros\<close>.
  \<^item> \<^verbatim>\<open>Dec_Arith\<close>: the decimals of the SDK, integers scaled by \<open>dec_one\<close>, with products and quotients as the operations \<open>dec_ops\<close>. What the
    proofs use of them is the locale \<open>legacy_dec\<close>, interpreted on \<open>sdk_dec\<close>, the rounding of the library (half to even). The panic
    of the library on too many bits is not modelled.
  \<^item> \<^verbatim>\<open>Module_Bank\<close>: coins, the bank keeper with transfers, minting and burning as fields of an environment, and the locale
    \<open>module_bank\<close> of the laws the modules rely on. \<^verbatim>\<open>Account_Book\<close> is a bank that satisfies them.

  \<^bold>\<open>Components of the exchange.\<close>
  \<^item> \<^verbatim>\<open>Exchange_Position\<close>: \<^verbatim>\<open>Position\<close> and \<^verbatim>\<open>PositionDelta\<close> with funding, margins, liquidation and bankruptcy prices, haircuts and
    settlement. Executing a delta conserves quantity and margin and panics only on the divisions by zero that are named;
    funding is zero-sum and charged once; a settlement pays what was announced.
  \<^item> \<^verbatim>\<open>Orderbook_Spec\<close>, \<^verbatim>\<open>Spot_Orderbook\<close>, \<^verbatim>\<open>Spot_Book_Laws\<close>: the interface of an order book as the locale \<open>orderbook\<close>
    (what a peek and a fill may do), the limit and the market order book of \<^verbatim>\<open>exchange/keeper/spot/order_book.go\<close>, and their interpretations.
  \<^item> \<^verbatim>\<open>Batch_Auction\<close>: clearing price strategies, the matching loop over any two order books and the matching part of the spot
    executor. The loop is a \<open>partial_function\<close>; the locale \<open>batch_auction\<close> proves that it returns, fills both sides alike, respects
    every limit price and leaves the books uncrossed. It is interpreted for limit against limit and market against limit books.
  \<^item> \<^verbatim>\<open>Subaccount_Deposits\<close>: deposits, charges, refunds, withdrawals and transfers, with the locale \<open>funds\<close> for the bank. What the bank holds for the
    exchange less the sum of all deposits is unchanged by every sequence of operations; a hold and its refund are a
    round trip; a withdrawal pays exactly its amount or fails for a named reason.
  \<^item> \<^verbatim>\<open>Fee_Discounts\<close>: schedule, tiers, stake with its validator cache, grants, the discounted rate and the split of the fee.
  \<^item> \<^verbatim>\<open>Spot_Settlement\<close>, \<^verbatim>\<open>Settlement_Laws\<close>: the state expansion of each kind of fill, deposit deltas, reward points, events and
    the two executors; a settled auction moves base and quote balances without creating or losing any
    beyond the rounding of notionals.
  \<^item> \<^verbatim>\<open>Spot_Orders\<close>, \<^verbatim>\<open>Spot_Order_Laws\<close>, \<^verbatim>\<open>Order_Holds\<close>, \<^verbatim>\<open>Spot_Order_Examples\<close>: order types and holds, the order, index, client id and
    price level stores, the risk engine's part, and the handlers that create, cancel and expire orders and persist an
    executed auction. Steps are the relation \<open>order_step\<close>, their invariant is \<open>book_ok\<close>: the price levels are the sums of the
    orders resting at them and the index finds exactly the stored orders. The laws on the release of holds are stated for
    whole-number quantities and prices, where no product is rounded.
  \<^item> \<^verbatim>\<open>Store_Keys\<close>: byte keys of the order index and of the orders by price, and the scans over them, with the skip scan as a
    \<open>partial_function\<close> that is shown to end.

  \<^bold>\<open>Other modules.\<close>
  \<^item> \<^verbatim>\<open>Vouchers\<close>: the voucher store. Its keys are pairs of denom and address; \<open>GetAllVouchers\<close> lists them through the byte key as the code
    does, which is exact for addresses of 20 bytes and panics on one of 32 bytes.
  \<^item> \<^verbatim>\<open>Permissions\<close>, \<^verbatim>\<open>Permission_Laws\<close>, \<^verbatim>\<open>Permission_Examples\<close>: namespaces, roles, policies, the messages that change them, and the
    restriction of bank sends with the reroute to vouchers. Steps are \<open>perm_step\<close> and \<open>voucher_step\<close>, the invariant is \<open>perm_ok\<close>.
  \<^item> \<^verbatim>\<open>Auction\<close>, \<^verbatim>\<open>Auction_Laws\<close>, \<^verbatim>\<open>Auction_Examples\<close>: bids, rounds, settlement and the flush of the exchange's fees. Steps are
    \<open>auction_step\<close>, the locale is \<open>auction_bank\<close>: the module account covers the vouchers and the highest bid. Rounds
    advance as long as vouchers and winner have addresses of 20 bytes; the end of a block that panics is the value \<open>None\<close>.
  \<^item> \<^verbatim>\<open>Insurance\<close>, \<^verbatim>\<open>Insurance_Laws\<close>, \<^verbatim>\<open>Insurance_Examples\<close>: funds, shares, redemptions and the payments of the exchange. Steps are
    \<open>insurance_step\<close> and \<open>share_step\<close>, the locale is \<open>insurance_bank\<close>: the module account covers funds, pending shares and vouchers, and no
    underwriting or redemption lowers the value of a share.

  \<^bold>\<open>Conventions.\<close> A Go function that returns an error is a function into a sum type, \<open>Inl\<close> the error; one that may panic or divide by zero is a
  function into an option, or has the panic as an error where a transaction reverts both alike. A store is an association list
  whose keys are the parts of the byte key in their order; the order of the bytes is modelled in \<^verbatim>\<open>Store_Keys\<close> and where a loop depends on it.
  Integers of the SDK and times are integers, with the 64-bit wrap-around of the auction's times written out; role ids, actions, rounds and
  counters are words. No fuel is used: every loop is structural, has a termination proof, or is a \<open>partial_function\<close> that is proved
  to return.

  \<^bold>\<open>Parameters.\<close> The bank, the decimals, address and denom formats, staking, contract calls, hashes and the health of a
  cross-margin portfolio are fields of environments. Their laws are locale assumptions or hypotheses of the properties, and each
  property with hypotheses has a witness on a concrete environment.

  \<^bold>\<open>Not modelled.\<close> Derivative and binary options order flow, liquidation messages, cross-margin health, trading reward campaigns,
  governance proposals, contract-driven trading, message servers of version 1, queries, genesis of the exchange and migrations; the
  modules oracle, peggy, tokenfactory, txfees, wasmx, erc20, evm and downtime-detector; application wiring, node, client and
  orchestrator code, generated code. They are independent of the modelled parts, thin wrappers around them, or rest on external engines.
  Gas, metrics, logging and most events are left out throughout.
\<close>

end
